(* ===== verification/Radius_Prelude.thy ===== *)
theory Radius_Prelude
  imports Main "HOL-Library.Word"
begin

text \<open>
  The shared ground of the development: machine integers and byte strings, fixed-size
  arrays, fallible results, big-endian integers, Rust's \<open>chunks\<close>, UTF-8 checking and
  decimal formatting, with the lemmas the component theories use by \<open>simp\<close>.

  Conventions. \<open>u8 .. u64\<close> are words; \<open>usize\<close> is \<open>nat\<close> (every length in the program is
  the length of a buffer that exists, so it is far below \<open>2 ^ 64\<close>); \<open>Vec<u8>\<close> and
  \<open>&[u8]\<close> are lists of \<open>u8\<close>; \<open>[u8; 16]\<close> is the type \<open>arr16\<close>; \<open>String\<close> is \<open>string\<close>, whose
  characters are the bytes of its UTF-8 encoding; \<open>Result<T, E>\<close> is \<open>'e + 't\<close> with the error
  on the left.
\<close>

unbundle bit_operations_syntax

named_theorems res_simps \<open>rewriting of fallible computations\<close>
named_theorems be_simps \<open>big-endian encodings and their lengths\<close>

type_synonym u8 = "8 word"
type_synonym u16 = "16 word"
type_synonym u32 = "32 word"
type_synonym u64 = "64 word"
type_synonym bytes = "u8 list"

section \<open>Results\<close>

text \<open>The operator \<open>?\<close>: continue with the value or return the error.\<close>

definition res_bind :: "'e + 'a \<Rightarrow> ('a \<Rightarrow> 'e + 'b) \<Rightarrow> 'e + 'b" where
  "res_bind m f = (case m of Inl e \<Rightarrow> Inl e | Inr x \<Rightarrow> f x)"

text \<open>\<open>Option::ok_or\<close> and \<open>Result::map_err\<close>, \<open>Result::ok\<close>, \<open>Result::is_ok\<close>.\<close>

definition ok_or :: "'a option \<Rightarrow> 'e \<Rightarrow> 'e + 'a" where
  "ok_or x e = (case x of None \<Rightarrow> Inl e | Some y \<Rightarrow> Inr y)"

definition map_err :: "('e \<Rightarrow> 'f) \<Rightarrow> 'e + 'a \<Rightarrow> 'f + 'a" where
  "map_err f m = (case m of Inl e \<Rightarrow> Inl (f e) | Inr x \<Rightarrow> Inr x)"

definition res_ok :: "'e + 'a \<Rightarrow> 'a option" where
  "res_ok m = (case m of Inl e \<Rightarrow> None | Inr x \<Rightarrow> Some x)"

definition is_ok :: "'e + 'a \<Rightarrow> bool" where
  "is_ok m \<longleftrightarrow> (case m of Inl e \<Rightarrow> False | Inr x \<Rightarrow> True)"

lemma res_bind_simps [simp]:
  "res_bind (Inl e) f = Inl e"
  "res_bind (Inr x) f = f x"
  by (simp_all add: res_bind_def)

lemma ok_or_simps [simp]:
  "ok_or None e = Inl e"
  "ok_or (Some x) e = Inr x"
  by (simp_all add: ok_or_def)

lemma map_err_simps [simp]:
  "map_err f (Inl e) = Inl (f e)"
  "map_err f (Inr x) = Inr x"
  by (simp_all add: map_err_def)

lemma res_ok_simps [simp]:
  "res_ok (Inl e) = None"
  "res_ok (Inr x) = Some x"
  by (simp_all add: res_ok_def)

lemma is_ok_simps [simp]:
  "is_ok (Inl e) = False"
  "is_ok (Inr x) = True"
  by (simp_all add: is_ok_def)

lemma res_bind_Inr_iff [res_simps]:
  "res_bind m f = Inr y \<longleftrightarrow> (\<exists>x. m = Inr x \<and> f x = Inr y)"
  by (cases m) auto

lemma res_bind_Inl_iff [res_simps]:
  "res_bind m f = Inl e \<longleftrightarrow> m = Inl e \<or> (\<exists>x. m = Inr x \<and> f x = Inl e)"
  by (cases m) auto

lemma map_err_Inr_iff [res_simps]: "map_err f m = Inr y \<longleftrightarrow> m = Inr y"
  by (cases m) auto

lemma ok_or_Inr_iff [res_simps]: "ok_or x e = Inr y \<longleftrightarrow> x = Some y"
  by (cases x) auto

lemma is_ok_iff [res_simps]: "is_ok m \<longleftrightarrow> (\<exists>x. m = Inr x)"
  by (cases m) auto

lemma is_ok_bind: "is_ok (res_bind m f) \<longleftrightarrow> (\<exists>x. m = Inr x \<and> is_ok (f x))"
  by (cases m) auto

lemma res_ok_Some_iff [res_simps]: "res_ok m = Some x \<longleftrightarrow> m = Inr x"
  by (cases m) auto

text \<open>\<open>expect\<close> and \<open>unwrap\<close> panic on an error; a function that may panic returns \<open>panic + 'a\<close>.\<close>

datatype panic = Panic string

section \<open>Fixed-size arrays\<close>

text \<open>
  \<open>[u8; 16]\<close>: Request and Response Authenticators, MD5 digests, CHAP responses. The length is
  part of the type, as it is in the program.
\<close>

typedef arr16 = "{bs :: u8 list. length bs = 16}"
  morphisms bytes16 Abs_arr16
  by (rule exI [of _ "replicate 16 0"]) simp

text \<open>
  \<open>copy_from_slice\<close> into a zeroed \<open>[u8; 16]\<close>. The source only copies slices of exactly 16
  octets (the standard library panics otherwise); \<open>bytes16_arr16_of\<close> covers these.
\<close>

definition arr16_of :: "bytes \<Rightarrow> arr16" where
  "arr16_of bs = Abs_arr16 (take 16 (bs @ replicate 16 0))"

declare bytes16_inverse [code abstype]
declare arr16_of_def [code del]

lemma length_bytes16 [simp]: "length (bytes16 a) = 16"
  using bytes16 by simp

lemma arr16_of_bytes16 [simp]: "arr16_of (bytes16 a) = a"
  by (simp add: arr16_of_def bytes16_inverse)

lemma bytes16_arr16_of_code [code abstract]:
  "bytes16 (arr16_of bs) = take 16 (bs @ replicate 16 0)"
  by (simp add: arr16_of_def Abs_arr16_inverse)

lemma bytes16_arr16_of [simp]: "length bs = 16 \<Longrightarrow> bytes16 (arr16_of bs) = bs"
  by (simp add: bytes16_arr16_of_code)

lemma bytes16_neq_Nil [simp]: "bytes16 a \<noteq> []"
  using length_bytes16 [of a] by fastforce

lemma arr16_eq_iff: "a = b \<longleftrightarrow> bytes16 a = bytes16 b"
  by (simp add: bytes16_inject)

instantiation arr16 :: equal
begin
definition equal_arr16 :: "arr16 \<Rightarrow> arr16 \<Rightarrow> bool" where
  "equal_arr16 a b \<longleftrightarrow> bytes16 a = bytes16 b"
instance
  by standard (simp add: equal_arr16_def bytes16_inject)
end

text \<open>\<open>[u8; 32]\<close>: SHA-256 digests and compound keys.\<close>

typedef arr32 = "{bs :: u8 list. length bs = 32}"
  morphisms bytes32 Abs_arr32
  by (rule exI [of _ "replicate 32 0"]) simp

definition arr32_of :: "bytes \<Rightarrow> arr32" where
  "arr32_of bs = Abs_arr32 (take 32 (bs @ replicate 32 0))"

declare bytes32_inverse [code abstype]
declare arr32_of_def [code del]

lemma length_bytes32 [simp]: "length (bytes32 a) = 32"
  using bytes32 by simp

lemma bytes32_arr32_of_code [code abstract]:
  "bytes32 (arr32_of bs) = take 32 (bs @ replicate 32 0)"
  by (simp add: arr32_of_def Abs_arr32_inverse)

lemma bytes32_arr32_of [simp]: "length bs = 32 \<Longrightarrow> bytes32 (arr32_of bs) = bs"
  by (simp add: bytes32_arr32_of_code)

lemma arr32_eq_iff: "a = b \<longleftrightarrow> bytes32 a = bytes32 b"
  by (simp add: bytes32_inject)

instantiation arr32 :: equal
begin
definition equal_arr32 :: "arr32 \<Rightarrow> arr32 \<Rightarrow> bool" where
  "equal_arr32 a b \<longleftrightarrow> bytes32 a = bytes32 b"
instance
  by standard (simp add: equal_arr32_def bytes32_inject)
end

section \<open>Integers on the wire\<close>

text \<open>A cast \<open>n as u8\<close> of a \<open>usize\<close> keeps the low eight bits.\<close>

abbreviation as_u8 :: "nat \<Rightarrow> u8" where
  "as_u8 n \<equiv> word_of_nat n"

definition u16_from_be_bytes :: "u8 \<Rightarrow> u8 \<Rightarrow> u16" where
  "u16_from_be_bytes a b = push_bit 8 (ucast a) OR ucast b"

definition u16_to_be_bytes :: "u16 \<Rightarrow> bytes" where
  "u16_to_be_bytes w = [ucast (drop_bit 8 w), ucast w]"

definition u32_from_be_bytes :: "u8 \<Rightarrow> u8 \<Rightarrow> u8 \<Rightarrow> u8 \<Rightarrow> u32" where
  "u32_from_be_bytes a b c d =
     push_bit 24 (ucast a) OR push_bit 16 (ucast b) OR push_bit 8 (ucast c) OR ucast d"

definition u32_to_be_bytes :: "u32 \<Rightarrow> bytes" where
  "u32_to_be_bytes w =
     [ucast (drop_bit 24 w), ucast (drop_bit 16 w), ucast (drop_bit 8 w), ucast w]"

text \<open>The two length octets written for a \<open>usize\<close>: \<open>(n >> 8) as u8\<close> and \<open>(n & 0xff) as u8\<close>.\<close>

definition len_hi :: "nat \<Rightarrow> u8" where
  "len_hi n = as_u8 (drop_bit 8 n)"

definition len_lo :: "nat \<Rightarrow> u8" where
  "len_lo n = as_u8 (n AND 0xff)"

lemma length_u16_to_be_bytes [simp, be_simps]: "length (u16_to_be_bytes w) = 2"
  by (simp add: u16_to_be_bytes_def)

lemma length_u32_to_be_bytes [simp, be_simps]: "length (u32_to_be_bytes w) = 4"
  by (simp add: u32_to_be_bytes_def)

lemma unat_as_u8 [simp]: "n < 256 \<Longrightarrow> unat (as_u8 n) = n"
  by (simp add: unat_of_nat)

lemma as_u8_unat [simp]: "as_u8 (unat (b :: u8)) = b"
  by simp

lemma unat_u8_less: "unat (b :: u8) < 256"
  using unsigned_less [of b] by simp

lemma unat_u8_le: "unat (b :: u8) \<le> 255"
  using unat_u8_less [of b] by simp

lemma not_bit_u8 [simp]: "8 \<le> n \<Longrightarrow> \<not> bit (w :: u8) n"
  using bit_imp_le_length [of w n] by auto

lemma u16_from_to_be_bytes [be_simps]:
  "u16_from_be_bytes (ucast (drop_bit 8 w)) (ucast w) = w"
  unfolding u16_from_be_bytes_def
  by (rule bit_word_eqI) (auto simp: bit_simps not_less)

lemma u32_from_to_be_bytes [be_simps]:
  "u32_from_be_bytes (ucast (drop_bit 24 w)) (ucast (drop_bit 16 w)) (ucast (drop_bit 8 w)) (ucast w) = w"
  unfolding u32_from_be_bytes_def
proof (rule bit_word_eqI)
  fix n
  assume "n < LENGTH(32)"
  then show "bit (push_bit 24 (ucast (ucast (drop_bit 24 w) :: u8)) OR
      push_bit 16 (ucast (ucast (drop_bit 16 w) :: u8)) OR
      push_bit 8 (ucast (ucast (drop_bit 8 w) :: u8)) OR ucast (ucast w :: u8) :: u32) n \<longleftrightarrow> bit w n"
    by (cases "n < 8"; cases "n < 16"; cases "n < 24"; simp add: bit_simps; auto)
qed

lemma u16_to_from_be_bytes [be_simps]:
  "u16_to_be_bytes (u16_from_be_bytes a b) = [a, b]"
  unfolding u16_from_be_bytes_def u16_to_be_bytes_def
  by (auto intro!: bit_word_eqI simp: bit_simps)

lemma u32_to_from_be_bytes [be_simps]:
  "u32_to_be_bytes (u32_from_be_bytes a b c d) = [a, b, c, d]"
  unfolding u32_from_be_bytes_def u32_to_be_bytes_def
  by (auto intro!: bit_word_eqI simp: bit_simps)

lemma u16_bytes_disjoint: "push_bit 8 (ucast (a :: u8)) AND (ucast (b :: u8)) = (0 :: u16)"
  by (rule bit_word_eqI) (auto simp: bit_simps)

lemma unat_u16_from_be_bytes [be_simps]:
  "unat (u16_from_be_bytes a b) = unat a * 256 + unat b"
proof -
  have *: "push_bit 8 (ucast a) OR ucast b = push_bit 8 (ucast a) + (ucast b :: u16)"
    by (rule disjunctive_add_eq_or [symmetric]) (rule u16_bytes_disjoint)
  have b: "unat (ucast b :: u16) = unat b"
    using unat_u8_le [of b] by (simp add: unsigned_ucast_eq take_bit_nat_eq_self_iff)
  have "unat (ucast a :: u16) = unat a"
    using unat_u8_le [of a] by (simp add: unsigned_ucast_eq take_bit_nat_eq_self_iff)
  then have a: "unat (push_bit 8 (ucast a) :: u16) = unat a * 256"
    using unat_u8_le [of a]
    by (simp add: push_bit_eq_mult unat_word_ariths)
  show ?thesis
    using unat_u8_le [of a] unat_u8_le [of b]
    by (simp only: u16_from_be_bytes_def * unat_word_ariths a b) simp
qed

lemma unat_len_hi: "n < 65536 \<Longrightarrow> unat (len_hi n) = n div 256"
  by (simp add: len_hi_def drop_bit_eq_div)

lemma unat_len_lo: "unat (len_lo n) = n mod 256"
proof -
  have "n AND 255 = take_bit 8 n"
    by (simp add: take_bit_eq_mask mask_eq_exp_minus_1)
  then show ?thesis by (simp add: len_lo_def take_bit_eq_mod)
qed

lemma unat_u16_len [be_simps]:
  "n < 65536 \<Longrightarrow> unat (u16_from_be_bytes (len_hi n) (len_lo n)) = n"
  by (simp add: unat_u16_from_be_bytes unat_len_hi unat_len_lo)

lemma len_hi_lo_unat [be_simps]:
  "len_hi (unat a * 256 + unat b) = a" "len_lo (unat a * 256 + unat b) = b"
proof -
  let ?n = "unat a * 256 + unat b"
  have n: "?n < 65536" using unat_u8_le [of a] unat_u8_le [of b] by linarith
  have "unat (len_hi ?n) = unat a"
    using unat_u8_less [of b] by (simp add: unat_len_hi [OF n])
  then show "len_hi ?n = a" by (simp add: word_unat_eq_iff)
  have "unat (len_lo ?n) = unat b"
    using unat_u8_less [of b] by (simp add: unat_len_lo)
  then show "len_lo ?n = b" by (simp add: word_unat_eq_iff)
qed

lemma u16_to_be_bytes_len: "n < 65536 \<Longrightarrow> u16_to_be_bytes (word_of_nat n) = [len_hi n, len_lo n]"
proof -
  assume n: "n < 65536"
  have "unat (u16_from_be_bytes (len_hi n) (len_lo n)) = unat (word_of_nat n :: u16)"
    using n by (simp add: unat_u16_len unat_of_nat)
  then have "u16_from_be_bytes (len_hi n) (len_lo n) = word_of_nat n"
    by (simp add: word_unat_eq_iff)
  then show ?thesis by (metis u16_to_from_be_bytes)
qed

section \<open>Byte slices\<close>

text \<open>
  \<open>Read::read_exact\<close> on a cursor over a slice: the next \<open>n\<close> octets and what is left, or an
  end-of-file error.
\<close>

datatype io_error = UnexpectedEof

definition read_exact :: "nat \<Rightarrow> 'a list \<Rightarrow> io_error + ('a list \<times> 'a list)" where
  "read_exact n bs = (if length bs < n then Inl UnexpectedEof else Inr (take n bs, drop n bs))"

lemma read_exact_enough [simp]:
  "n \<le> length bs \<Longrightarrow> read_exact n bs = Inr (take n bs, drop n bs)"
  by (simp add: read_exact_def)

lemma list_ge2E:
  assumes "2 \<le> length xs"
  obtains a b r where "xs = a # b # r"
  using assms by (cases xs; cases "tl xs") auto

text \<open>\<open>slice::chunks(n)\<close> for \<open>n > 0\<close> (the call panics on 0; the source passes constants).\<close>

function chunks :: "nat \<Rightarrow> 'a list \<Rightarrow> 'a list list" where
  "chunks n xs = (if n = 0 \<or> xs = [] then [] else take n xs # chunks n (drop n xs))"
  by pat_completeness auto
termination
  by (relation "measure (\<lambda>(n, xs). length xs)") auto

declare chunks.simps [simp del]

lemma chunks_Nil [simp]: "chunks n [] = []"
  by (simp add: chunks.simps)

lemma chunks_append: "0 < n \<Longrightarrow> length x = n \<Longrightarrow> chunks n (x @ xs) = x # chunks n xs"
  by (subst chunks.simps) auto

lemma chunks_eq_Nil_iff [simp]: "0 < n \<Longrightarrow> chunks n xs = [] \<longleftrightarrow> xs = []"
  by (subst chunks.simps) simp

text \<open>One step of a loop that walks a buffer by offset, at most \<open>n\<close> elements at a time.\<close>

lemma chunks_drop_step:
  assumes "0 < n" "off < length xs"
  shows "chunks n (drop off xs) = take (min n (length xs - off)) (drop off xs)
     # chunks n (drop (off + min n (length xs - off)) xs)"
proof -
  have "take n (drop off xs) = take (min n (length xs - off)) (drop off xs)"
    "drop n (drop off xs) = drop (off + min n (length xs - off)) xs"
    by (auto simp: min_def add.commute)
  with assms show ?thesis by (subst chunks.simps) simp
qed

lemma concat_chunks [simp]: "0 < n \<Longrightarrow> concat (chunks n xs) = xs"
proof (induction n xs rule: chunks.induct)
  case (1 n xs)
  then show ?case by (cases "xs = []") (simp_all add: chunks.simps [of n xs])
qed

lemma chunks_length_le: "c \<in> set (chunks n xs) \<Longrightarrow> length c \<le> n \<and> c \<noteq> []"
proof (induction n xs rule: chunks.induct)
  case (1 n xs)
  then show ?case by (auto simp: chunks.simps [of n xs] split: if_splits)
qed

lemma chunks_exact:
  "0 < n \<Longrightarrow> n dvd length xs \<Longrightarrow> c \<in> set (chunks n xs) \<Longrightarrow> length c = n"
proof (induction n xs rule: chunks.induct)
  case (1 n xs)
  show ?case
  proof (cases "xs = []")
    case True
    with "1.prems" show ?thesis by simp
  next
    case False
    with "1.prems"(1,2) have len: "n \<le> length xs" by (auto dest: dvd_imp_le)
    with "1.prems" False have "n dvd length (drop n xs)" by simp
    with "1.prems" "1.IH" False len show ?thesis
      by (auto simp: chunks.simps [of n xs])
  qed
qed

lemma chunks_exact_ball: "0 < n \<Longrightarrow> n dvd length xs \<Longrightarrow> \<forall>c \<in> set (chunks n xs). length c = n"
  using chunks_exact by blast

text \<open>Reassembling exact blocks gives the same blocks.\<close>

lemma chunks_concat:
  "0 < n \<Longrightarrow> \<forall>b \<in> set bs. length b = n \<Longrightarrow> chunks n (concat bs) = bs"
  by (induction bs) (simp_all add: chunks_append)

lemma length_concat_exact:
  "\<forall>b \<in> set bs. length b = n \<Longrightarrow> length (concat bs) = length bs * n"
  by (induction bs) auto

text \<open>\<open>Vec::resize(n, 0)\<close>.\<close>

definition resize :: "nat \<Rightarrow> bytes \<Rightarrow> bytes" where
  "resize n bs = take n (bs @ replicate (n - length bs) 0)"

lemma length_resize [simp]: "length (resize n bs) = n"
  by (simp add: resize_def)

lemma resize_grow: "length bs \<le> n \<Longrightarrow> resize n bs = bs @ replicate (n - length bs) 0"
  by (simp add: resize_def)

text \<open>Rounding up to whole blocks of 16.\<close>

lemma round_up_16: "n + (16 - n mod 16) mod 16 = 16 * ((n + 15) div 16)" for n :: nat
proof -
  define q r where "q = n div 16" "r = n mod 16"
  then have n: "n = 16 * q + r" and r: "r < 16" by simp_all
  show ?thesis
  proof (cases "r = 0")
    case True
    then have "(n + 15) div 16 = q" unfolding n by (intro div_nat_eqI) simp_all
    with True show ?thesis by (simp add: n)
  next
    case False
    then have "(n + 15) div 16 = q + 1" using r unfolding n by (intro div_nat_eqI) simp_all
    with False r show ?thesis by (simp add: n)
  qed
qed

section \<open>Strings\<close>

text \<open>\<open>str::as_bytes\<close> and back: a \<open>char\<close> of the model is one octet.\<close>

definition str_bytes :: "string \<Rightarrow> bytes" where
  "str_bytes s = map (\<lambda>c. as_u8 (of_char c)) s"

definition bytes_str :: "bytes \<Rightarrow> string" where
  "bytes_str bs = map (\<lambda>b. char_of (unat b)) bs"

lemma bytes_str_str_bytes [simp]: "bytes_str (str_bytes s) = s"
  by (simp add: bytes_str_def str_bytes_def comp_def)

lemma str_bytes_bytes_str [simp]: "str_bytes (bytes_str bs) = bs"
  by (simp add: bytes_str_def str_bytes_def comp_def unat_u8_less)

lemma length_str_bytes [simp]: "length (str_bytes s) = length s"
  by (simp add: str_bytes_def)

lemma length_bytes_str [simp]: "length (bytes_str bs) = length bs"
  by (simp add: bytes_str_def)

lemma str_bytes_inject [simp]: "str_bytes s = str_bytes t \<longleftrightarrow> s = t"
  by (metis bytes_str_str_bytes)

text \<open>Decimal formatting of an unsigned integer.\<close>

fun show_nat :: "nat \<Rightarrow> string" where
  "show_nat n = (if n < 10 then [char_of (48 + n)] else show_nat (n div 10) @ [char_of (48 + n mod 10)])"

declare show_nat.simps [simp del]

section \<open>UTF-8\<close>

text \<open>
  The standard library's UTF-8 decoder, one sequence at a time: at the front of a non-empty
  slice stands either a well-formed sequence of \<open>n\<close> octets or an ill-formed prefix of \<open>n\<close>
  octets (the maximal subpart \<open>from_utf8_lossy\<close> replaces by one U+FFFD). \<open>safe_get\<close> reads 0
  past the end, as the decoder does.
\<close>

datatype utf8_item = Utf8Valid nat | Utf8Invalid nat

definition safe_get :: "bytes \<Rightarrow> nat \<Rightarrow> u8" where
  "safe_get bs i = (if i < length bs then bs ! i else 0)"

definition is_cont :: "u8 \<Rightarrow> bool" where
  "is_cont b \<longleftrightarrow> b AND 192 = 128"

definition between :: "u8 \<Rightarrow> u8 \<Rightarrow> u8 \<Rightarrow> bool" where
  "between lo b hi \<longleftrightarrow> lo \<le> b \<and> b \<le> hi"

definition utf8_second3 :: "u8 \<Rightarrow> u8 \<Rightarrow> bool" where
  "utf8_second3 a b \<longleftrightarrow> (a = 0xE0 \<and> between 0xA0 b 0xBF) \<or> (between 0xE1 a 0xEC \<and> between 0x80 b 0xBF)
     \<or> (a = 0xED \<and> between 0x80 b 0x9F) \<or> (between 0xEE a 0xEF \<and> between 0x80 b 0xBF)"

definition utf8_second4 :: "u8 \<Rightarrow> u8 \<Rightarrow> bool" where
  "utf8_second4 a b \<longleftrightarrow> (a = 0xF0 \<and> between 0x90 b 0xBF) \<or> (between 0xF1 a 0xF3 \<and> between 0x80 b 0xBF)
     \<or> (a = 0xF4 \<and> between 0x80 b 0x8F)"

definition utf8_head :: "bytes \<Rightarrow> utf8_item" where
  "utf8_head bs =
     (let a = safe_get bs 0; b = safe_get bs 1; c = safe_get bs 2; d = safe_get bs 3
      in if a < 0x80 then Utf8Valid 1
         else if between 0xC2 a 0xDF then
           (if is_cont b then Utf8Valid 2 else Utf8Invalid 1)
         else if between 0xE0 a 0xEF then
           (if \<not> utf8_second3 a b then Utf8Invalid 1
            else if is_cont c then Utf8Valid 3 else Utf8Invalid 2)
         else if between 0xF0 a 0xF4 then
           (if \<not> utf8_second4 a b then Utf8Invalid 1
            else if \<not> is_cont c then Utf8Invalid 2
            else if is_cont d then Utf8Valid 4 else Utf8Invalid 3)
         else Utf8Invalid 1)"

fun utf8_len :: "utf8_item \<Rightarrow> nat" where
  "utf8_len (Utf8Valid n) = n"
| "utf8_len (Utf8Invalid n) = n"

lemma utf8_len_pos: "0 < utf8_len (utf8_head bs)"
  by (simp add: utf8_head_def Let_def)

text \<open>\<open>String::from_utf8(..).is_ok()\<close> and \<open>String::from_utf8_lossy\<close>.\<close>

function valid_utf8 :: "bytes \<Rightarrow> bool" where
  "valid_utf8 bs = (if bs = [] then True else (case utf8_head bs of
       Utf8Valid n \<Rightarrow> valid_utf8 (drop n bs)
     | Utf8Invalid n \<Rightarrow> False))"
  by pat_completeness auto
termination
proof (relation "measure length", goal_cases)
  case (2 bs n)
  with utf8_len_pos [of bs] show ?case by simp
qed simp

function from_utf8_lossy :: "bytes \<Rightarrow> bytes" where
  "from_utf8_lossy bs = (if bs = [] then [] else (case utf8_head bs of
       Utf8Valid n \<Rightarrow> take n bs @ from_utf8_lossy (drop n bs)
     | Utf8Invalid n \<Rightarrow> [0xEF, 0xBF, 0xBD] @ from_utf8_lossy (drop n bs)))"
  by pat_completeness auto
termination
proof (relation "measure length", goal_cases)
  case (2 bs n)
  with utf8_len_pos [of bs] show ?case by simp
next
  case (3 bs n)
  with utf8_len_pos [of bs] show ?case by simp
qed simp

declare valid_utf8.simps [simp del] from_utf8_lossy.simps [simp del]

lemma valid_utf8_Nil [simp]: "valid_utf8 []"
  by (simp add: valid_utf8.simps)

lemma from_utf8_lossy_Nil [simp]: "from_utf8_lossy [] = []"
  by (simp add: from_utf8_lossy.simps)

lemma from_utf8_lossy_valid [simp]: "valid_utf8 bs \<Longrightarrow> from_utf8_lossy bs = bs"
proof (induction bs rule: valid_utf8.induct)
  case (1 bs)
  then show ?case
    by (cases "utf8_head bs")
      (auto simp: valid_utf8.simps [of bs] from_utf8_lossy.simps [of bs])
qed

lemma valid_utf8_ascii: "\<forall>b \<in> set bs. b < 0x80 \<Longrightarrow> valid_utf8 bs"
proof (induction bs)
  case Nil
  show ?case by simp
next
  case (Cons b bs)
  then have "utf8_head (b # bs) = Utf8Valid 1"
    by (simp add: utf8_head_def safe_get_def)
  with Cons show ?case by (simp add: valid_utf8.simps [of "b # bs"])
qed

text \<open>
  The text of a \<open>Utf8Error\<close>: the index of the first octet that is not part of a well-formed
  sequence, and the length of the ill-formed prefix unless the input just ended too early.
\<close>

definition utf8_width :: "u8 \<Rightarrow> nat" where
  "utf8_width a = (if between 0xC2 a 0xDF then 2 else if between 0xE0 a 0xEF then 3
     else if between 0xF0 a 0xF4 then 4 else 1)"

function utf8_error_at :: "nat \<Rightarrow> bytes \<Rightarrow> string" where
  "utf8_error_at i bs = (if bs = [] then [] else (case utf8_head bs of
       Utf8Valid n \<Rightarrow> utf8_error_at (i + n) (drop n bs)
     | Utf8Invalid n \<Rightarrow>
         if 1 < utf8_width (hd bs) \<and> n = length bs
         then ''incomplete utf-8 byte sequence from index '' @ show_nat i
         else ''invalid utf-8 sequence of '' @ show_nat n @ '' bytes from index '' @ show_nat i))"
  by pat_completeness auto
termination
proof (relation "measure (length \<circ> snd)", goal_cases)
  case (2 i bs n)
  with utf8_len_pos [of bs] show ?case by simp
qed simp

declare utf8_error_at.simps [simp del]

definition from_utf8 :: "bytes \<Rightarrow> string + string" where
  "from_utf8 bs = (if valid_utf8 bs then Inr (bytes_str bs) else Inl (utf8_error_at 0 bs))"

end
