(* ===== verification/Wire_Interfaces.thy ===== *)
theory Wire_Interfaces
  imports Radius_Prelude
begin

text \<open>
  The interfaces every wire format of the program shares, as locales. \<open>wire_enum\<close> is the
  contract of an enum with \<open>from_u8\<close>/\<open>as_u8\<close> conversions; \<open>tlv_stream\<close> is the contract of a
  loop that decodes a buffer into a sequence of self-delimiting elements; \<open>xor_chain\<close> is the
  contract of the ciphers that XOR 16-octet blocks with a keystream chained through the
  ciphertext. The component theories interpret them on the program's own definitions.
\<close>

section \<open>Enums with a wire value\<close>

locale wire_enum =
  fixes to_wire :: "'e \<Rightarrow> 'w"
    and from_wire :: "'w \<Rightarrow> 'e option"
  assumes from_to: "from_wire (to_wire e) = Some e"
    and to_from: "from_wire w = Some e \<Longrightarrow> to_wire e = w"
begin

lemma from_wire_iff: "from_wire w = Some e \<longleftrightarrow> to_wire e = w"
  using from_to to_from by blast

lemma to_wire_inject: "to_wire a = to_wire b \<longleftrightarrow> a = b"
  by (metis from_to option.inject)

lemma from_wire_None_iff: "from_wire w = None \<longleftrightarrow> w \<notin> range to_wire"
  by (metis (no_types, lifting) from_to from_wire_iff not_None_eq rangeE rangeI)

end

section \<open>Streams of self-delimiting elements\<close>

text \<open>
  \<open>enc\<close> writes one element, \<open>wf\<close> says which elements it writes completely, \<open>dec_all\<close> is the
  decoder's loop over a whole buffer.
\<close>

locale tlv_stream =
  fixes enc :: "'a \<Rightarrow> bytes"
    and wf :: "'a \<Rightarrow> bool"
    and dec_all :: "bytes \<Rightarrow> 'e + 'a list"
  assumes dec_all_Nil: "dec_all [] = Inr []"
    and dec_all_enc: "wf x \<Longrightarrow> dec_all (enc x @ rest) = res_bind (dec_all rest) (\<lambda>xs. Inr (x # xs))"
    and dec_all_Cons: "dec_all bs = Inr (x # xs) \<Longrightarrow>
      \<exists>rest. wf x \<and> bs = enc x @ rest \<and> dec_all rest = Inr xs"
    and dec_all_empty: "dec_all bs = Inr [] \<Longrightarrow> bs = []"
begin

text \<open>Decoding what was encoded gives the elements back.\<close>

lemma dec_enc_all: "\<forall>x \<in> set xs. wf x \<Longrightarrow> dec_all (concat (map enc xs)) = Inr xs"
  by (induction xs) (simp_all add: dec_all_Nil dec_all_enc)

text \<open>A buffer that decodes is the encoding of what it decodes to, and of nothing else.\<close>

lemma enc_dec_all: "dec_all bs = Inr xs \<Longrightarrow> concat (map enc xs) = bs \<and> (\<forall>x \<in> set xs. wf x)"
proof (induction xs arbitrary: bs)
  case Nil
  then show ?case by (auto dest: dec_all_empty)
next
  case (Cons x xs)
  then obtain rest where "wf x" "bs = enc x @ rest" "dec_all rest = Inr xs"
    by (blast dest: dec_all_Cons)
  with Cons.IH show ?case by simp
qed

lemma dec_all_iff:
  "dec_all bs = Inr xs \<longleftrightarrow> concat (map enc xs) = bs \<and> (\<forall>x \<in> set xs. wf x)"
  using dec_enc_all enc_dec_all by blast

lemma dec_all_inject: "dec_all a = Inr xs \<Longrightarrow> dec_all b = Inr xs \<Longrightarrow> a = b"
  by (auto dest!: enc_dec_all)

end

section \<open>Chained XOR ciphers\<close>

text \<open>The XOR of two blocks, octet by octet.\<close>

definition xor_block :: "bytes \<Rightarrow> bytes \<Rightarrow> bytes" where
  "xor_block a b = map2 (XOR) a b"

lemma length_xor_block [simp]: "length (xor_block a b) = min (length a) (length b)"
  by (simp add: xor_block_def)

lemma xor_block_cancel [simp]:
  "length a \<le> length k \<Longrightarrow> xor_block (xor_block a k) k = a"
proof (induction a k rule: list_induct2')
  case (4 x xs y ys)
  then show ?case by (simp add: xor_block_def xor.assoc)
qed (simp_all add: xor_block_def)

text \<open>
  \<open>ks\<close> gives the keystream block of a chaining state, \<open>nxt\<close> the state after a ciphertext block;
  \<open>enc\<close> and \<open>dec\<close> are the two loops over the blocks.
\<close>

locale xor_chain =
  fixes ks :: "'s \<Rightarrow> bytes"
    and nxt :: "bytes \<Rightarrow> 's"
    and enc :: "'s \<Rightarrow> bytes list \<Rightarrow> bytes list"
    and dec :: "'s \<Rightarrow> bytes list \<Rightarrow> bytes list"
  assumes length_ks: "length (ks st) = 16"
    and enc_Nil: "enc st [] = []"
    and enc_Cons: "enc st (b # bs) = xor_block b (ks st) # enc (nxt (xor_block b (ks st))) bs"
    and dec_Nil: "dec st [] = []"
    and dec_Cons: "dec st (c # cs) = xor_block c (ks st) # dec (nxt c) cs"
begin

lemma dec_enc: "\<forall>b \<in> set bs. length b = 16 \<Longrightarrow> dec st (enc st bs) = bs"
  by (induction bs arbitrary: st) (simp_all add: enc_Nil enc_Cons dec_Nil dec_Cons length_ks)

lemma enc_dec: "\<forall>c \<in> set cs. length c = 16 \<Longrightarrow> enc st (dec st cs) = cs"
  by (induction cs arbitrary: st) (simp_all add: enc_Nil enc_Cons dec_Nil dec_Cons length_ks)

lemma enc_blocks: "\<forall>b \<in> set bs. length b = 16 \<Longrightarrow> \<forall>c \<in> set (enc st bs). length c = 16"
  by (induction bs arbitrary: st) (simp_all add: enc_Nil enc_Cons length_ks)

lemma dec_blocks: "\<forall>b \<in> set bs. length b = 16 \<Longrightarrow> \<forall>c \<in> set (dec st bs). length c = 16"
  by (induction bs arbitrary: st) (simp_all add: dec_Nil dec_Cons length_ks)

lemma length_enc: "length (enc st bs) = length bs"
  by (induction bs arbitrary: st) (simp_all add: enc_Nil enc_Cons)

lemma length_dec: "length (dec st cs) = length cs"
  by (induction cs arbitrary: st) (simp_all add: dec_Nil dec_Cons)

text \<open>On whole buffers, split into blocks of 16 octets and joined again.\<close>

lemma chunks_enc: "16 dvd length xs \<Longrightarrow> chunks 16 (concat (enc st (chunks 16 xs))) = enc st (chunks 16 xs)"
  by (rule chunks_concat [OF _ enc_blocks [OF chunks_exact_ball]]) simp_all

lemma chunks_dec: "16 dvd length xs \<Longrightarrow> chunks 16 (concat (dec st (chunks 16 xs))) = dec st (chunks 16 xs)"
  by (rule chunks_concat [OF _ dec_blocks [OF chunks_exact_ball]]) simp_all

lemma buffer_dec_enc:
  "16 dvd length xs \<Longrightarrow> concat (dec st (chunks 16 (concat (enc st (chunks 16 xs))))) = xs"
  by (simp add: chunks_enc dec_enc chunks_exact_ball)

lemma buffer_enc_dec:
  "16 dvd length xs \<Longrightarrow> concat (enc st (chunks 16 (concat (dec st (chunks 16 xs))))) = xs"
  by (simp add: chunks_dec enc_dec chunks_exact_ball)

lemma length_buffer_enc: "16 dvd length xs \<Longrightarrow> length (concat (enc st (chunks 16 xs))) = length xs"
proof -
  assume "16 dvd length xs"
  then have b: "\<forall>b \<in> set (chunks 16 xs). length b = 16" by (simp add: chunks_exact_ball)
  have "length (concat (enc st (chunks 16 xs))) = length (chunks 16 xs) * 16"
    by (simp add: length_concat_exact [OF enc_blocks [OF b]] length_enc)
  also have "\<dots> = length xs" using length_concat_exact [OF b] by simp
  finally show ?thesis .
qed

lemma length_buffer_dec: "16 dvd length xs \<Longrightarrow> length (concat (dec st (chunks 16 xs))) = length xs"
proof -
  assume "16 dvd length xs"
  then have b: "\<forall>b \<in> set (chunks 16 xs). length b = 16" by (simp add: chunks_exact_ball)
  have "length (concat (dec st (chunks 16 xs))) = length (chunks 16 xs) * 16"
    by (simp add: length_concat_exact [OF dec_blocks [OF b]] length_dec)
  also have "\<dots> = length xs" using length_concat_exact [OF b] by simp
  finally show ?thesis .
qed

end

end
