(* ===== verification/Radius_Codes.thy ===== *)
theory Radius_Codes
  imports Wire_Interfaces
begin

text \<open>
  The packet codes of \<open>packet/code.rs\<close> and the attribute types of \<open>attributes/types.rs\<close>: the enums
  with their \<open>#[repr(u8)]\<close> discriminants, \<open>as_u8\<close> and \<open>from_u8\<close>. Both interpret \<open>wire_enum\<close>.
\<close>

section \<open>Packet codes\<close>

datatype Code =
    AccessRequest | AccessAccept | AccessReject | AccountingRequest | AccountingResponse |
    AccessChallenge | StatusServer | StatusClient | DisconnectRequest | DisconnectAck |
    DisconnectNak | CoaRequest | CoaAck | CoaNak

fun Code_as_u8 :: "Code \<Rightarrow> u8" where
  "Code_as_u8 AccessRequest = 1"
| "Code_as_u8 AccessAccept = 2"
| "Code_as_u8 AccessReject = 3"
| "Code_as_u8 AccountingRequest = 4"
| "Code_as_u8 AccountingResponse = 5"
| "Code_as_u8 AccessChallenge = 11"
| "Code_as_u8 StatusServer = 12"
| "Code_as_u8 StatusClient = 13"
| "Code_as_u8 DisconnectRequest = 40"
| "Code_as_u8 DisconnectAck = 41"
| "Code_as_u8 DisconnectNak = 42"
| "Code_as_u8 CoaRequest = 43"
| "Code_as_u8 CoaAck = 44"
| "Code_as_u8 CoaNak = 45"

definition Code_from_u8 :: "u8 \<Rightarrow> Code option" where
  "Code_from_u8 v = map_of
    [(1, AccessRequest), (2, AccessAccept), (3, AccessReject), (4, AccountingRequest),
     (5, AccountingResponse), (11, AccessChallenge), (12, StatusServer), (13, StatusClient),
     (40, DisconnectRequest), (41, DisconnectAck), (42, DisconnectNak), (43, CoaRequest),
     (44, CoaAck), (45, CoaNak)] v"

lemma Code_from_u8_as: "Code_from_u8 (Code_as_u8 e) = Some e"
  by (cases e) (simp_all add: Code_from_u8_def)

lemma Code_as_u8_of: "Code_from_u8 v = Some e \<Longrightarrow> Code_as_u8 e = v"
  unfolding Code_from_u8_def by (drule map_of_SomeD) auto

interpretation Code: wire_enum Code_as_u8 Code_from_u8
  by unfold_locales (simp_all add: Code_from_u8_as Code_as_u8_of)

section \<open>Attribute types\<close>

datatype (plugins only: code size) AttributeType =
    UserName | UserPassword | ChapPassword | NasIpAddress | NasPort | ServiceType |
    FramedProtocol | FramedIpAddress | FramedIpNetmask | FramedRouting | FilterId | FramedMtu |
    FramedCompression | LoginIpHost | LoginService | LoginTcpPort | ReplyMessage |
    CallbackNumber | CallbackId | FramedRoute | FramedIpxNetwork | State | Class |
    VendorSpecific | SessionTimeout | IdleTimeout | TerminationAction | CalledStationId |
    CallingStationId | NasIdentifier | ProxyState | LoginLatService | LoginLatNode |
    LoginLatGroup | FramedAppleTalkLink | FramedAppleTalkNetwork | FramedAppleTalkZone |
    AcctStatusType | AcctDelayTime | AcctInputOctets | AcctOutputOctets | AcctSessionId |
    AcctAuthentic | AcctSessionTime | AcctInputPackets | AcctOutputPackets |
    AcctTerminateCause | AcctMultiSessionId | AcctLinkCount | AcctInputGigawords |
    AcctOutputGigawords | ChapChallenge | NasPortType | PortLimit | LoginLatPort |
    TunnelPassword | EapMessage | MessageAuthenticator | NasIpv6Address | NasPortId |
    ErrorCause | EapKeyName

fun AttributeType_as_u8 :: "AttributeType \<Rightarrow> u8" where
  "AttributeType_as_u8 UserName = 1"
| "AttributeType_as_u8 UserPassword = 2"
| "AttributeType_as_u8 ChapPassword = 3"
| "AttributeType_as_u8 NasIpAddress = 4"
| "AttributeType_as_u8 NasPort = 5"
| "AttributeType_as_u8 ServiceType = 6"
| "AttributeType_as_u8 FramedProtocol = 7"
| "AttributeType_as_u8 FramedIpAddress = 8"
| "AttributeType_as_u8 FramedIpNetmask = 9"
| "AttributeType_as_u8 FramedRouting = 10"
| "AttributeType_as_u8 FilterId = 11"
| "AttributeType_as_u8 FramedMtu = 12"
| "AttributeType_as_u8 FramedCompression = 13"
| "AttributeType_as_u8 LoginIpHost = 14"
| "AttributeType_as_u8 LoginService = 15"
| "AttributeType_as_u8 LoginTcpPort = 16"
| "AttributeType_as_u8 ReplyMessage = 18"
| "AttributeType_as_u8 CallbackNumber = 19"
| "AttributeType_as_u8 CallbackId = 20"
| "AttributeType_as_u8 FramedRoute = 22"
| "AttributeType_as_u8 FramedIpxNetwork = 23"
| "AttributeType_as_u8 State = 24"
| "AttributeType_as_u8 Class = 25"
| "AttributeType_as_u8 VendorSpecific = 26"
| "AttributeType_as_u8 SessionTimeout = 27"
| "AttributeType_as_u8 IdleTimeout = 28"
| "AttributeType_as_u8 TerminationAction = 29"
| "AttributeType_as_u8 CalledStationId = 30"
| "AttributeType_as_u8 CallingStationId = 31"
| "AttributeType_as_u8 NasIdentifier = 32"
| "AttributeType_as_u8 ProxyState = 33"
| "AttributeType_as_u8 LoginLatService = 34"
| "AttributeType_as_u8 LoginLatNode = 35"
| "AttributeType_as_u8 LoginLatGroup = 36"
| "AttributeType_as_u8 FramedAppleTalkLink = 37"
| "AttributeType_as_u8 FramedAppleTalkNetwork = 38"
| "AttributeType_as_u8 FramedAppleTalkZone = 39"
| "AttributeType_as_u8 AcctStatusType = 40"
| "AttributeType_as_u8 AcctDelayTime = 41"
| "AttributeType_as_u8 AcctInputOctets = 42"
| "AttributeType_as_u8 AcctOutputOctets = 43"
| "AttributeType_as_u8 AcctSessionId = 44"
| "AttributeType_as_u8 AcctAuthentic = 45"
| "AttributeType_as_u8 AcctSessionTime = 46"
| "AttributeType_as_u8 AcctInputPackets = 47"
| "AttributeType_as_u8 AcctOutputPackets = 48"
| "AttributeType_as_u8 AcctTerminateCause = 49"
| "AttributeType_as_u8 AcctMultiSessionId = 50"
| "AttributeType_as_u8 AcctLinkCount = 51"
| "AttributeType_as_u8 AcctInputGigawords = 52"
| "AttributeType_as_u8 AcctOutputGigawords = 53"
| "AttributeType_as_u8 ChapChallenge = 60"
| "AttributeType_as_u8 NasPortType = 61"
| "AttributeType_as_u8 PortLimit = 62"
| "AttributeType_as_u8 LoginLatPort = 63"
| "AttributeType_as_u8 TunnelPassword = 69"
| "AttributeType_as_u8 EapMessage = 79"
| "AttributeType_as_u8 MessageAuthenticator = 80"
| "AttributeType_as_u8 NasIpv6Address = 95"
| "AttributeType_as_u8 NasPortId = 87"
| "AttributeType_as_u8 ErrorCause = 101"
| "AttributeType_as_u8 EapKeyName = 102"

definition AttributeType_from_u8 :: "u8 \<Rightarrow> AttributeType option" where
  "AttributeType_from_u8 v = map_of
    [(1, UserName), (2, UserPassword), (3, ChapPassword), (4, NasIpAddress), (5, NasPort),
     (6, ServiceType), (7, FramedProtocol), (8, FramedIpAddress), (9, FramedIpNetmask),
     (10, FramedRouting), (11, FilterId), (12, FramedMtu), (13, FramedCompression),
     (14, LoginIpHost), (15, LoginService), (16, LoginTcpPort), (18, ReplyMessage),
     (19, CallbackNumber), (20, CallbackId), (22, FramedRoute), (23, FramedIpxNetwork),
     (24, State), (25, Class), (26, VendorSpecific), (27, SessionTimeout), (28, IdleTimeout),
     (29, TerminationAction), (30, CalledStationId), (31, CallingStationId),
     (32, NasIdentifier), (33, ProxyState), (34, LoginLatService), (35, LoginLatNode),
     (36, LoginLatGroup), (37, FramedAppleTalkLink), (38, FramedAppleTalkNetwork),
     (39, FramedAppleTalkZone), (40, AcctStatusType), (41, AcctDelayTime),
     (42, AcctInputOctets), (43, AcctOutputOctets), (44, AcctSessionId), (45, AcctAuthentic),
     (46, AcctSessionTime), (47, AcctInputPackets), (48, AcctOutputPackets),
     (49, AcctTerminateCause), (50, AcctMultiSessionId), (51, AcctLinkCount),
     (52, AcctInputGigawords), (53, AcctOutputGigawords), (60, ChapChallenge),
     (61, NasPortType), (62, PortLimit), (63, LoginLatPort), (69, TunnelPassword),
     (79, EapMessage), (80, MessageAuthenticator), (87, NasPortId), (95, NasIpv6Address),
     (101, ErrorCause), (102, EapKeyName)] v"

lemma AttributeType_from_u8_as: "AttributeType_from_u8 (AttributeType_as_u8 e) = Some e"
  by (cases e) (simp_all add: AttributeType_from_u8_def)

lemma AttributeType_as_u8_of: "AttributeType_from_u8 v = Some e \<Longrightarrow> AttributeType_as_u8 e = v"
  unfolding AttributeType_from_u8_def by (drule map_of_SomeD) auto

interpretation AttributeType: wire_enum AttributeType_as_u8 AttributeType_from_u8
  by unfold_locales (simp_all add: AttributeType_from_u8_as AttributeType_as_u8_of)

end
