(* ===== verification/Packet_Codec.thy ===== *)
theory Packet_Codec
  imports Radius_Codes
begin

text \<open>
  The RADIUS packet codec of the proto crate: \<open>attributes/attribute.rs\<close> and
  \<open>packet/packet.rs\<close>. The attribute loop of \<open>Packet::decode\<close> interprets \<open>tlv_stream\<close>; the
  properties are the exact correspondence between packets and their encodings, and the error
  branches of encoder and decoder.
\<close>

section \<open>Errors\<close>

datatype PacketError =
    InvalidLength nat
  | InvalidCode u8
  | Io io_error
  | AttributeError string
  | PacketTooLarge nat

section \<open>Attributes\<close>

record Attribute =
  attr_type :: u8
  attr_value :: bytes

definition Attribute_MIN_LENGTH :: nat where
  "Attribute_MIN_LENGTH = 2"

definition Attribute_MAX_LENGTH :: nat where
  "Attribute_MAX_LENGTH = 255"

definition Attribute_MAX_VALUE_LENGTH :: nat where
  "Attribute_MAX_VALUE_LENGTH = 253"

definition Attribute_new :: "u8 \<Rightarrow> bytes \<Rightarrow> PacketError + Attribute" where
  "Attribute_new ty value =
     (if length value > Attribute_MAX_VALUE_LENGTH
      then Inl (AttributeError (''Attribute value too long: '' @ show_nat (length value)
             @ '' bytes (max '' @ show_nat Attribute_MAX_VALUE_LENGTH @ '')''))
      else Inr \<lparr>attr_type = ty, attr_value = value\<rparr>)"

definition Attribute_string :: "u8 \<Rightarrow> string \<Rightarrow> PacketError + Attribute" where
  "Attribute_string ty value = Attribute_new ty (str_bytes value)"

definition Attribute_integer :: "u8 \<Rightarrow> u32 \<Rightarrow> PacketError + Attribute" where
  "Attribute_integer ty value = Attribute_new ty (u32_to_be_bytes value)"

text \<open>The IPv4 argument is a \<open>[u8; 4]\<close>: four octets.\<close>

definition Attribute_ipv4 :: "u8 \<Rightarrow> u8 \<times> u8 \<times> u8 \<times> u8 \<Rightarrow> PacketError + Attribute" where
  "Attribute_ipv4 ty = (\<lambda>(a, b, c, d). Attribute_new ty [a, b, c, d])"

definition encoded_length :: "Attribute \<Rightarrow> nat" where
  "encoded_length a = Attribute_MIN_LENGTH + length (attr_value a)"

text \<open>\<open>write_all\<close> into a \<open>Vec\<close> never fails, so the \<open>?\<close> after it has no branch of its own.\<close>

definition Attribute_encode :: "Attribute \<Rightarrow> PacketError + bytes" where
  "Attribute_encode a =
     (let len = encoded_length a
      in if len > Attribute_MAX_LENGTH
         then Inl (AttributeError (''Encoded attribute too long: '' @ show_nat len @ '' bytes''))
         else Inr ([attr_type a] @ [as_u8 len] @ attr_value a))"

definition Attribute_decode :: "bytes \<Rightarrow> PacketError + Attribute" where
  "Attribute_decode data =
     (if length data < Attribute_MIN_LENGTH
      then Inl (AttributeError (''Attribute data too short: '' @ show_nat (length data) @ '' bytes''))
      else res_bind (map_err Io (read_exact 1 data)) (\<lambda>(type_buf, cursor).
           res_bind (map_err Io (read_exact 1 cursor)) (\<lambda>(len_buf, cursor).
        let ty = type_buf ! 0; len = unat (len_buf ! 0)
        in if \<not> (Attribute_MIN_LENGTH \<le> len \<and> len \<le> Attribute_MAX_LENGTH)
           then Inl (AttributeError (''Invalid attribute length: '' @ show_nat len))
           else if length data < len
           then Inl (AttributeError (''Insufficient data for attribute: expected '' @ show_nat len
                  @ '', got '' @ show_nat (length data)))
           else res_bind (map_err Io (read_exact (len - Attribute_MIN_LENGTH) cursor)) (\<lambda>(value, _).
             Inr \<lparr>attr_type = ty, attr_value = value\<rparr>))))"

definition as_string :: "Attribute \<Rightarrow> string + string" where
  "as_string a = from_utf8 (attr_value a)"

definition as_integer :: "Attribute \<Rightarrow> PacketError + u32" where
  "as_integer a =
     (if length (attr_value a) \<noteq> 4
      then Inl (AttributeError (''Expected 4 bytes for integer, got '' @ show_nat (length (attr_value a))))
      else Inr (u32_from_be_bytes (attr_value a ! 0) (attr_value a ! 1) (attr_value a ! 2) (attr_value a ! 3)))"

definition as_ipv4 :: "Attribute \<Rightarrow> PacketError + (u8 \<times> u8 \<times> u8 \<times> u8)" where
  "as_ipv4 a =
     (if length (attr_value a) \<noteq> 4
      then Inl (AttributeError (''Expected 4 bytes for IPv4, got '' @ show_nat (length (attr_value a))))
      else Inr (attr_value a ! 0, attr_value a ! 1, attr_value a ! 2, attr_value a ! 3))"

definition as_ipv6 :: "Attribute \<Rightarrow> PacketError + arr16" where
  "as_ipv6 a =
     (if length (attr_value a) \<noteq> 16
      then Inl (AttributeError (''Expected 16 bytes for IPv6, got '' @ show_nat (length (attr_value a))))
      else Inr (arr16_of (attr_value a)))"

section \<open>Packets\<close>

record Packet =
  pkt_code :: Code
  pkt_identifier :: u8
  pkt_authenticator :: arr16
  pkt_attributes :: "Attribute list"

definition MIN_PACKET_SIZE :: nat where
  "MIN_PACKET_SIZE = 20"

definition MAX_PACKET_SIZE :: nat where
  "MAX_PACKET_SIZE = 4096"

definition Packet_new :: "Code \<Rightarrow> u8 \<Rightarrow> arr16 \<Rightarrow> Packet" where
  "Packet_new c i auth = \<lparr>pkt_code = c, pkt_identifier = i, pkt_authenticator = auth, pkt_attributes = []\<rparr>"

definition add_attribute :: "Packet \<Rightarrow> Attribute \<Rightarrow> Packet" where
  "add_attribute p a = p\<lparr>pkt_attributes := pkt_attributes p @ [a]\<rparr>"

text \<open>The attribute loop of \<open>encode\<close>, appending to the buffer until an attribute fails.\<close>

fun encode_attributes :: "bytes \<Rightarrow> Attribute list \<Rightarrow> PacketError + bytes" where
  "encode_attributes buffer [] = Inr buffer"
| "encode_attributes buffer (a # as) =
     res_bind (Attribute_encode a) (\<lambda>attr_bytes. encode_attributes (buffer @ attr_bytes) as)"

definition Packet_encode :: "Packet \<Rightarrow> PacketError + bytes" where
  "Packet_encode p =
     (let buffer = [Code_as_u8 (pkt_code p)] @ [pkt_identifier p];
          length_pos = length buffer;
          buffer = buffer @ [0, 0] @ bytes16 (pkt_authenticator p)
      in res_bind (encode_attributes buffer (pkt_attributes p)) (\<lambda>buffer.
        let total_length = length buffer
        in if total_length > MAX_PACKET_SIZE then Inl (PacketTooLarge total_length)
           else Inr (buffer[length_pos := len_hi total_length, length_pos + 1 := len_lo total_length])))"

lemma Attribute_encoded_length_pos: "0 < encoded_length a"
  by (simp add: encoded_length_def Attribute_MIN_LENGTH_def)

text \<open>The attribute loop of \<open>decode\<close>.\<close>

function decode_attributes :: "bytes \<Rightarrow> PacketError + Attribute list" where
  "decode_attributes attr_data =
     (if attr_data = [] then Inr []
      else res_bind (Attribute_decode attr_data) (\<lambda>attr.
        res_bind (decode_attributes (drop (encoded_length attr) attr_data)) (\<lambda>attrs.
        Inr (attr # attrs))))"
  by pat_completeness auto
termination
  by (relation "measure length") (auto simp: Attribute_encoded_length_pos)

definition Packet_decode :: "bytes \<Rightarrow> PacketError + Packet" where
  "Packet_decode data =
     (if length data < MIN_PACKET_SIZE then Inl (InvalidLength (length data))
      else res_bind (map_err Io (read_exact 1 data)) (\<lambda>(code_buf, cursor).
           res_bind (ok_or (Code_from_u8 (code_buf ! 0)) (InvalidCode (code_buf ! 0))) (\<lambda>code.
           res_bind (map_err Io (read_exact 1 cursor)) (\<lambda>(id_buf, cursor).
           res_bind (map_err Io (read_exact 2 cursor)) (\<lambda>(len_buf, cursor).
        let identifier = id_buf ! 0; len = unat (u16_from_be_bytes (len_buf ! 0) (len_buf ! 1))
        in if \<not> (MIN_PACKET_SIZE \<le> len \<and> len \<le> MAX_PACKET_SIZE) then Inl (InvalidLength len)
           else if length data < len then Inl (InvalidLength (length data))
           else res_bind (map_err Io (read_exact 16 cursor)) (\<lambda>(authenticator, cursor).
             let position = length data - length cursor
             in res_bind (decode_attributes (drop position (take len data))) (\<lambda>attributes.
                  Inr \<lparr>pkt_code = code, pkt_identifier = identifier,
                       pkt_authenticator = arr16_of authenticator, pkt_attributes = attributes\<rparr>)))))))"

definition Packet_length :: "Packet \<Rightarrow> nat" where
  "Packet_length p = foldl (\<lambda>len a. len + encoded_length a) MIN_PACKET_SIZE (pkt_attributes p)"

definition find_attribute :: "Packet \<Rightarrow> u8 \<Rightarrow> Attribute option" where
  "find_attribute p ty = find (\<lambda>a. attr_type a = ty) (pkt_attributes p)"

definition find_all_attributes :: "Packet \<Rightarrow> u8 \<Rightarrow> Attribute list" where
  "find_all_attributes p ty = filter (\<lambda>a. attr_type a = ty) (pkt_attributes p)"

declare decode_attributes.simps [simp del]

lemmas attr_consts = Attribute_MIN_LENGTH_def Attribute_MAX_LENGTH_def Attribute_MAX_VALUE_LENGTH_def
lemmas pkt_consts = MIN_PACKET_SIZE_def MAX_PACKET_SIZE_def

section \<open>Attribute codec\<close>

text \<open>The attributes \<open>Attribute::new\<close> builds, and the octets \<open>encode\<close> writes for them.\<close>

definition attribute_ok :: "Attribute \<Rightarrow> bool" where
  "attribute_ok a \<longleftrightarrow> length (attr_value a) \<le> Attribute_MAX_VALUE_LENGTH"

definition attribute_bytes :: "Attribute \<Rightarrow> bytes" where
  "attribute_bytes a = attr_type a # as_u8 (encoded_length a) # attr_value a"

lemma length_attribute_bytes [simp]: "length (attribute_bytes a) = encoded_length a"
  by (simp add: attribute_bytes_def encoded_length_def attr_consts)

lemma unat_encoded_length: "attribute_ok a \<Longrightarrow> unat (as_u8 (encoded_length a)) = encoded_length a"
  by (rule unat_as_u8) (simp add: attribute_ok_def encoded_length_def attr_consts)

lemma Attribute_new_Inr_iff [res_simps]:
  "Attribute_new ty v = Inr a \<longleftrightarrow> attribute_ok a \<and> a = \<lparr>attr_type = ty, attr_value = v\<rparr>"
  by (auto simp: Attribute_new_def attribute_ok_def)

lemma Attribute_encode_Inr_iff [res_simps]:
  "Attribute_encode a = Inr bs \<longleftrightarrow> attribute_ok a \<and> bs = attribute_bytes a"
  by (auto simp: Attribute_encode_def attribute_ok_def attribute_bytes_def encoded_length_def attr_consts Let_def)

lemma Attribute_encode_ok [simp]: "attribute_ok a \<Longrightarrow> Attribute_encode a = Inr (attribute_bytes a)"
  by (simp add: Attribute_encode_Inr_iff)

lemma Attribute_decode_short [simp]:
  "length data < 2 \<Longrightarrow> Attribute_decode data =
     Inl (AttributeError (''Attribute data too short: '' @ show_nat (length data) @ '' bytes''))"
  by (simp add: Attribute_decode_def attr_consts)

text \<open>The decoder without the cursor: what each pair of header octets leads to.\<close>

lemma Attribute_decode_Cons2:
  "Attribute_decode (t # l # rest) =
     (if unat l < 2 then Inl (AttributeError (''Invalid attribute length: '' @ show_nat (unat l)))
      else if length rest + 2 < unat l
      then Inl (AttributeError (''Insufficient data for attribute: expected '' @ show_nat (unat l)
             @ '', got '' @ show_nat (length rest + 2)))
      else Inr \<lparr>attr_type = t, attr_value = take (unat l - 2) rest\<rparr>)"
  using unat_u8_le [of l] by (auto simp: Attribute_decode_def attr_consts Let_def)

lemma Attribute_decode_Inr_iff:
  "Attribute_decode data = Inr a \<longleftrightarrow> (\<exists>rest. data = attribute_bytes a @ rest \<and> attribute_ok a)"
proof (cases "length data < 2")
  case True
  then show ?thesis by (auto simp: attribute_bytes_def)
next
  case False
  then obtain t l rest where d: "data = t # l # rest"
    by (auto simp: not_less elim: list_ge2E)
  show ?thesis (is "?dec \<longleftrightarrow> ?enc")
  proof
    assume ?dec
    then have a: "a = \<lparr>attr_type = t, attr_value = take (unat l - 2) rest\<rparr>"
      and l: "2 \<le> unat l" "unat l \<le> length rest + 2"
      by (auto simp: d Attribute_decode_Cons2 split: if_splits)
    with unat_u8_le [of l] have "data = attribute_bytes a @ drop (unat l - 2) rest" "attribute_ok a"
      by (simp_all add: d attribute_bytes_def encoded_length_def attribute_ok_def attr_consts)
    then show ?enc by blast
  next
    assume ?enc
    then obtain rest' where "data = attribute_bytes a @ rest'" and ok: "attribute_ok a" by blast
    moreover have "encoded_length a - 2 = length (attr_value a)" "2 \<le> encoded_length a"
      by (simp_all add: encoded_length_def attr_consts)
    ultimately show ?dec
      by (simp add: attribute_bytes_def Attribute_decode_Cons2 unat_encoded_length)
  qed
qed

lemma Attribute_decode_error: "Attribute_decode data = Inl e \<Longrightarrow> \<exists>msg. e = AttributeError msg"
  by (cases data rule: remdups_adj.cases) (auto simp: Attribute_decode_Cons2 split: if_splits)

section \<open>The attribute stream\<close>

lemma decode_attributes_Nil [simp]: "decode_attributes [] = Inr []"
  by (simp add: decode_attributes.simps)

lemma decode_attributes_bytes:
  "attribute_ok a \<Longrightarrow> decode_attributes (attribute_bytes a @ rest) =
     res_bind (decode_attributes rest) (\<lambda>as. Inr (a # as))"
proof -
  assume "attribute_ok a"
  then have "Attribute_decode (attribute_bytes a @ rest) = Inr a"
    by (auto simp: Attribute_decode_Inr_iff)
  moreover have "attribute_bytes a @ rest \<noteq> []" by (simp add: attribute_bytes_def)
  ultimately show ?thesis by (simp add: decode_attributes.simps [of "attribute_bytes a @ rest"])
qed

interpretation attrs: tlv_stream attribute_bytes attribute_ok decode_attributes
proof
  fix bs a as
  assume "decode_attributes bs = Inr (a # as)"
  then obtain rest where "bs = attribute_bytes a @ rest" "attribute_ok a" "decode_attributes rest = Inr as"
    by (subst (asm) decode_attributes.simps)
      (auto simp: res_simps Attribute_decode_Inr_iff split: if_splits)
  then show "\<exists>rest. attribute_ok a \<and> bs = attribute_bytes a @ rest \<and> decode_attributes rest = Inr as"
    by blast
next
  fix bs
  assume "decode_attributes bs = Inr []"
  then show "bs = []" by (subst (asm) decode_attributes.simps) (auto simp: res_simps split: if_splits)
qed (simp_all add: decode_attributes_bytes)

text \<open>Whatever goes wrong in the attribute stream is reported as an attribute error.\<close>

lemma decode_attributes_error: "decode_attributes data = Inl e \<Longrightarrow> \<exists>msg. e = AttributeError msg"
proof (induction data rule: decode_attributes.induct)
  case (1 data)
  from "1.prems" consider (here) "Attribute_decode data = Inl e"
    | (later) a where "data \<noteq> []" "decode_attributes (drop (encoded_length a) data) = Inl e"
    by (subst (asm) decode_attributes.simps) (auto simp: res_simps split: if_splits)
  then show ?case
    by cases (use "1.IH" Attribute_decode_error in blast)+
qed

lemma decode_attributes_not_error [simp]:
  "decode_attributes data \<noteq> Inl (InvalidLength n)" "decode_attributes data \<noteq> Inl (InvalidCode c)"
  "decode_attributes data \<noteq> Inl (Io e)" "decode_attributes data \<noteq> Inl (PacketTooLarge n)"
  using decode_attributes_error by blast+

lemma encode_attributes_first_error:
  "find (\<lambda>a. encoded_length a > Attribute_MAX_LENGTH) as = Some a \<Longrightarrow>
     encode_attributes buf as = Inl (AttributeError
       (''Encoded attribute too long: '' @ show_nat (encoded_length a) @ '' bytes''))"
  by (induction as arbitrary: buf) (auto simp: Attribute_encode_def Let_def split: if_splits)

lemma encode_attributes_ok:
  "\<forall>a \<in> set as. attribute_ok a \<Longrightarrow>
     encode_attributes buf as = Inr (buf @ concat (map attribute_bytes as))"
  by (induction as arbitrary: buf) simp_all

lemma encode_attributes_Inr_iff [res_simps]:
  "encode_attributes buf as = Inr bs \<longleftrightarrow>
     (\<forall>a \<in> set as. attribute_ok a) \<and> bs = buf @ concat (map attribute_bytes as)"
  by (induction as arbitrary: buf) (auto simp: res_simps)

section \<open>Packet codec\<close>

text \<open>The packets \<open>encode\<close> accepts and the octets it produces.\<close>

definition packet_ok :: "Packet \<Rightarrow> bool" where
  "packet_ok p \<longleftrightarrow> (\<forall>a \<in> set (pkt_attributes p). attribute_ok a) \<and> Packet_length p \<le> MAX_PACKET_SIZE"

definition packet_bytes :: "Packet \<Rightarrow> bytes" where
  "packet_bytes p = [Code_as_u8 (pkt_code p), pkt_identifier p, len_hi (Packet_length p), len_lo (Packet_length p)]
     @ bytes16 (pkt_authenticator p) @ concat (map attribute_bytes (pkt_attributes p))"

lemma foldl_encoded_length:
  "foldl (\<lambda>len a. len + encoded_length a) n as = n + length (concat (map attribute_bytes as))"
  by (induction as arbitrary: n) simp_all

lemma Packet_length_eq:
  "Packet_length p = 20 + length (concat (map attribute_bytes (pkt_attributes p)))"
  by (simp only: Packet_length_def foldl_encoded_length pkt_consts)

lemma length_packet_bytes [simp]: "length (packet_bytes p) = Packet_length p"
  by (simp add: packet_bytes_def Packet_length_eq)

lemma encode_buffer_update:
  "length A = 16 \<Longrightarrow> ([c, i, 0, 0] @ A @ B)[2 := h, 3 := l] = [c, i, h, l] @ A @ B"
  by (simp add: numeral_2_eq_2 numeral_3_eq_3)

lemma Packet_encode_if:
  "\<forall>a \<in> set (pkt_attributes p). attribute_ok a \<Longrightarrow> Packet_encode p =
     (if Packet_length p > MAX_PACKET_SIZE then Inl (PacketTooLarge (Packet_length p)) else Inr (packet_bytes p))"
  using encode_buffer_update [of "bytes16 (pkt_authenticator p)"]
  by (simp add: Packet_encode_def encode_attributes_ok Let_def packet_bytes_def Packet_length_eq)

lemma Packet_encode_Inr_iff [res_simps]:
  "Packet_encode p = Inr bs \<longleftrightarrow> packet_ok p \<and> bs = packet_bytes p"
proof (cases "\<forall>a \<in> set (pkt_attributes p). attribute_ok a")
  case True
  then show ?thesis by (auto simp: Packet_encode_if packet_ok_def)
next
  case False
  then show ?thesis by (auto simp: Packet_encode_def packet_ok_def res_simps Let_def)
qed

text \<open>Every datagram the decoder looks into has the fixed 20-octet header.\<close>

lemma packet_header_cases:
  assumes "20 \<le> length data"
  obtains c i h l auth rest where "data = c # i # h # l # bytes16 auth @ rest"
proof -
  from assms have "2 \<le> length data" by simp
  then obtain c i rest1 where 1: "data = c # i # rest1" by (rule list_ge2E)
  with assms have "2 \<le> length rest1" by simp
  then obtain h l rest where 2: "rest1 = h # l # rest" by (rule list_ge2E)
  with 1 assms have "16 \<le> length rest" by simp
  then have "rest = bytes16 (arr16_of (take 16 rest)) @ drop 16 rest" by simp
  with 1 2 that show ?thesis by metis
qed

lemma Packet_decode_header:
  "Packet_decode (c # i # h # l # bytes16 auth @ rest) =
     (let len = unat (u16_from_be_bytes h l)
      in case Code_from_u8 c of
           None \<Rightarrow> Inl (InvalidCode c)
         | Some code \<Rightarrow>
           if len < 20 \<or> 4096 < len then Inl (InvalidLength len)
           else if 20 + length rest < len then Inl (InvalidLength (20 + length rest))
           else res_bind (decode_attributes (take (len - 20) rest)) (\<lambda>attributes.
                  Inr \<lparr>pkt_code = code, pkt_identifier = i, pkt_authenticator = auth,
                       pkt_attributes = attributes\<rparr>))"
proof -
  have d: "drop 20 (take n (c # i # h # l # bytes16 auth @ rest)) = take (n - 20) rest" for n
    by (simp only: drop_take) simp
  show ?thesis
    by (simp add: Packet_decode_def pkt_consts Let_def d numeral_2_eq_2 not_le not_less
        split: option.split)
qed

lemma Packet_decode_bytes: "packet_ok p \<Longrightarrow> Packet_decode (packet_bytes p @ junk) = Inr p"
proof -
  assume ok: "packet_ok p"
  let ?c = "concat (map attribute_bytes (pkt_attributes p))"
  have len: "Packet_length p = 20 + length ?c" by (rule Packet_length_eq)
  have "decode_attributes ?c = Inr (pkt_attributes p)"
    using ok by (intro attrs.dec_enc_all) (simp add: packet_ok_def)
  with ok len show ?thesis
    by (simp add: packet_bytes_def Packet_decode_header Code_from_u8_as unat_u16_len packet_ok_def
        pkt_consts Let_def)
qed

lemma Packet_decode_canonical:
  assumes "Packet_decode data = Inr p"
  shows "packet_ok p \<and> (\<exists>junk. data = packet_bytes p @ junk)"
proof -
  have "20 \<le> length data"
    using assms by (auto simp: Packet_decode_def pkt_consts split: if_splits)
  then obtain c i h l auth rest where d: "data = c # i # h # l # bytes16 auth @ rest"
    by (rule packet_header_cases)
  let ?n = "unat (u16_from_be_bytes h l)"
  from assms obtain code as where c: "Code_from_u8 c = Some code" and n: "20 \<le> ?n" "?n \<le> 4096"
      "?n \<le> 20 + length rest" and as: "decode_attributes (take (?n - 20) rest) = Inr as"
      and p: "p = \<lparr>pkt_code = code, pkt_identifier = i, pkt_authenticator = auth, pkt_attributes = as\<rparr>"
    by (auto simp: d Packet_decode_header Let_def res_simps split: option.splits if_splits)
  from attrs.enc_dec_all [OF as] have e: "concat (map attribute_bytes as) = take (?n - 20) rest"
    and ok: "\<forall>a \<in> set as. attribute_ok a" by auto
  have len: "Packet_length p = ?n" using n by (simp add: Packet_length_eq p e)
  have "len_hi ?n = h" "len_lo ?n = l" by (simp_all add: be_simps)
  with len have "data = packet_bytes p @ drop (?n - 20) rest"
    by (simp add: packet_bytes_def p d e Code_as_u8_of [OF c])
  moreover have "packet_ok p" using ok n len by (simp add: packet_ok_def p pkt_consts)
  ultimately show ?thesis by blast
qed

section \<open>Properties\<close>

text \<open>
  C3. A datagram decodes to a packet exactly when it starts with that packet's encoding: decoding
  inverts encoding, ignores octets after the announced length, and accepts no second encoding of
  the same packet.
\<close>

theorem packet_decode_iff_encoding:
  "Packet_decode data = Inr p \<longleftrightarrow> (\<exists>bs junk. Packet_encode p = Inr bs \<and> data = bs @ junk)"
  using Packet_decode_bytes Packet_decode_canonical by (auto simp: res_simps)

text \<open>
  \<open>Packet::encode\<close> on every branch: the first over-long attribute is the error reported,
  then the 4096-octet limit with the packet's length; otherwise the octets are exactly
  \<open>Packet::length\<close> many, start with code and identifier, and carry their own length.
\<close>

theorem packet_encode_branches:
  "case find (\<lambda>a. encoded_length a > Attribute_MAX_LENGTH) (pkt_attributes p) of
     Some a \<Rightarrow> Packet_encode p = Inl (AttributeError
       (''Encoded attribute too long: '' @ show_nat (encoded_length a) @ '' bytes''))
   | None \<Rightarrow> if Packet_length p > MAX_PACKET_SIZE
       then Packet_encode p = Inl (PacketTooLarge (Packet_length p))
       else \<exists>body. Packet_encode p = Inr ([Code_as_u8 (pkt_code p), pkt_identifier p,
              len_hi (Packet_length p), len_lo (Packet_length p)] @ bytes16 (pkt_authenticator p) @ body)
            \<and> 20 + length body = Packet_length p \<and> decode_attributes body = Inr (pkt_attributes p)"
proof (cases "find (\<lambda>a. encoded_length a > Attribute_MAX_LENGTH) (pkt_attributes p)")
  case None
  then have ok: "\<forall>a \<in> set (pkt_attributes p). attribute_ok a"
    by (auto simp: find_None_iff attribute_ok_def encoded_length_def attr_consts)
  then have "decode_attributes (concat (map attribute_bytes (pkt_attributes p))) = Inr (pkt_attributes p)"
    by (rule attrs.dec_enc_all)
  with None ok show ?thesis
    by (auto simp: Packet_encode_if packet_bytes_def Packet_length_eq)
next
  case (Some a)
  then show ?thesis by (simp add: Packet_encode_def Let_def encode_attributes_first_error)
qed

text \<open>
  The decoder's errors: a datagram under 20 octets is an invalid length whatever it holds,
  then an unknown code is reported with its value, then a length field outside 20..4096 or beyond
  the datagram. No I/O error and no size error ever leaves the decoder.
\<close>

theorem packet_decode_errors:
  "((\<exists>n. Packet_decode data = Inl (InvalidLength n)) \<longleftrightarrow>
      length data < 20 \<or> (Code_from_u8 (data ! 0) \<noteq> None \<and>
        (let len = unat (u16_from_be_bytes (data ! 2) (data ! 3)) in len < 20 \<or> 4096 < len \<or> length data < len)))
   \<and> (Packet_decode data = Inl (InvalidCode c) \<longleftrightarrow>
      20 \<le> length data \<and> data ! 0 = c \<and> Code_from_u8 c = None)
   \<and> Packet_decode data \<noteq> Inl (Io e) \<and> Packet_decode data \<noteq> Inl (PacketTooLarge n)"
proof (cases "20 \<le> length data")
  case True
  then obtain c i h l auth rest where "data = c # i # h # l # bytes16 auth @ rest"
    by (rule packet_header_cases)
  then show ?thesis
    by (auto simp: Packet_decode_header Let_def res_simps split: option.splits)
qed (simp add: Packet_decode_def pkt_consts)

end
