(* ===== verification/Vendor_Specific.thy ===== *)
theory Vendor_Specific
  imports Packet_Codec
begin

text \<open>
  The Vendor-Specific sub-attribute codec (\<open>attributes/vsa.rs\<close>). The loop over the vendor TLVs
  interprets \<open>tlv_stream\<close> once per vendor; the properties relate the combining encoder and the
  decoder exactly, and describe what a lookup in a packet finds.
\<close>

record VendorSpecific =
  vendor_id :: u32
  vendor_type :: u8
  vendor_value :: bytes

definition VENDOR_ID_LENGTH :: nat where
  "VENDOR_ID_LENGTH = 4"

definition SUB_HEADER_LENGTH :: nat where
  "SUB_HEADER_LENGTH = 2"

definition VendorSpecific_MAX_VALUE_LENGTH :: nat where
  "VendorSpecific_MAX_VALUE_LENGTH = Attribute_MAX_VALUE_LENGTH - VENDOR_ID_LENGTH - SUB_HEADER_LENGTH"

definition VendorSpecific_new :: "u32 \<Rightarrow> u8 \<Rightarrow> bytes \<Rightarrow> PacketError + VendorSpecific" where
  "VendorSpecific_new vid ty value =
     (if length value > VendorSpecific_MAX_VALUE_LENGTH
      then Inl (AttributeError (''Vendor-Specific value too long: '' @ show_nat (length value)
             @ '' bytes (max '' @ show_nat VendorSpecific_MAX_VALUE_LENGTH @ '')''))
      else Inr \<lparr>vendor_id = vid, vendor_type = ty, vendor_value = value\<rparr>)"

definition encode_sub_attribute :: "VendorSpecific \<Rightarrow> bytes" where
  "encode_sub_attribute v =
     [vendor_type v] @ [as_u8 (SUB_HEADER_LENGTH + length (vendor_value v))] @ vendor_value v"

definition encode_value :: "VendorSpecific \<Rightarrow> bytes" where
  "encode_value v = u32_to_be_bytes (vendor_id v) @ encode_sub_attribute v"

definition to_attribute :: "VendorSpecific \<Rightarrow> PacketError + Attribute" where
  "to_attribute v = Attribute_new (AttributeType_as_u8 VendorSpecific) (encode_value v)"

text \<open>The loop of \<open>to_attribute_combined\<close>: append each sub-attribute of the first one's vendor.\<close>

fun combine_subs :: "u32 \<Rightarrow> bytes \<Rightarrow> VendorSpecific list \<Rightarrow> PacketError + bytes" where
  "combine_subs first_id value [] = Inr value"
| "combine_subs first_id value (sub # subs) =
     (if vendor_id sub \<noteq> first_id
      then Inl (AttributeError (''Cannot combine sub-attributes of vendors '' @ show_nat (unat first_id)
             @ '' and '' @ show_nat (unat (vendor_id sub))))
      else combine_subs first_id (value @ encode_sub_attribute sub) subs)"

definition to_attribute_combined :: "VendorSpecific list \<Rightarrow> PacketError + Attribute" where
  "to_attribute_combined subs =
     (case subs of
        [] \<Rightarrow> Inl (AttributeError ''Vendor-Specific attribute needs at least one sub-attribute'')
      | first # _ \<Rightarrow>
          res_bind (combine_subs (vendor_id first) (u32_to_be_bytes (vendor_id first)) subs) (\<lambda>value.
          Attribute_new (AttributeType_as_u8 VendorSpecific) value))"

text \<open>The loop of \<open>decode_value\<close>.\<close>

function decode_sub_attributes :: "u32 \<Rightarrow> bytes \<Rightarrow> PacketError + VendorSpecific list" where
  "decode_sub_attributes vid rest =
     (if rest = [] then Inr []
      else if length rest < SUB_HEADER_LENGTH
      then Inl (AttributeError ''Truncated Vendor-Specific sub-attribute header'')
      else let ty = rest ! 0; vendor_length = unat (rest ! 1)
           in if vendor_length < SUB_HEADER_LENGTH \<or> vendor_length > length rest
              then Inl (AttributeError (''Invalid Vendor-Specific sub-attribute length: ''
                     @ show_nat vendor_length @ '' (remaining '' @ show_nat (length rest) @ '')''))
              else res_bind (decode_sub_attributes vid (drop vendor_length rest)) (\<lambda>subs.
                Inr (\<lparr>vendor_id = vid, vendor_type = ty,
                      vendor_value = drop SUB_HEADER_LENGTH (take vendor_length rest)\<rparr> # subs)))"
  by pat_completeness auto
termination
  by (relation "measure (length \<circ> snd)") (auto simp: SUB_HEADER_LENGTH_def)

definition decode_value :: "bytes \<Rightarrow> PacketError + VendorSpecific list" where
  "decode_value value =
     (if length value < VENDOR_ID_LENGTH + SUB_HEADER_LENGTH
      then Inl (AttributeError (''Vendor-Specific value too short: '' @ show_nat (length value) @ '' bytes''))
      else decode_sub_attributes (u32_from_be_bytes (value ! 0) (value ! 1) (value ! 2) (value ! 3))
             (drop VENDOR_ID_LENGTH value))"

definition from_attribute :: "Attribute \<Rightarrow> PacketError + VendorSpecific list" where
  "from_attribute attr =
     (if attr_type attr \<noteq> AttributeType_as_u8 VendorSpecific
      then Inl (AttributeError (''Expected Vendor-Specific (26) attribute, got type '' @ show_nat (unat (attr_type attr))))
      else decode_value (attr_value attr))"

definition find_vendor_attributes :: "Packet \<Rightarrow> u32 \<Rightarrow> u8 \<Rightarrow> VendorSpecific list" where
  "find_vendor_attributes p vid ty =
     filter (\<lambda>v. vendor_id v = vid \<and> vendor_type v = ty)
       (concat (List.map_filter (\<lambda>a. res_ok (decode_value (attr_value a)))
         (filter (\<lambda>a. attr_type a = AttributeType_as_u8 VendorSpecific) (pkt_attributes p))))"

declare decode_sub_attributes.simps [simp del]

lemmas vsa_consts = VENDOR_ID_LENGTH_def SUB_HEADER_LENGTH_def VendorSpecific_MAX_VALUE_LENGTH_def

section \<open>The sub-attribute stream\<close>

definition vsa_ok :: "u32 \<Rightarrow> VendorSpecific \<Rightarrow> bool" where
  "vsa_ok vid v \<longleftrightarrow> vendor_id v = vid \<and> length (vendor_value v) \<le> 253"

lemma length_encode_sub_attribute [simp]:
  "length (encode_sub_attribute v) = 2 + length (vendor_value v)"
  by (simp add: encode_sub_attribute_def)

lemma unat_vendor_length:
  "vsa_ok vid v \<Longrightarrow> unat (as_u8 (SUB_HEADER_LENGTH + length (vendor_value v))) = 2 + length (vendor_value v)"
  by (subst unat_as_u8) (simp_all add: vsa_ok_def vsa_consts)

lemma decode_sub_attributes_Nil [simp]: "decode_sub_attributes vid [] = Inr []"
  by (simp add: decode_sub_attributes.simps)

lemma decode_sub_attributes_Cons2:
  "decode_sub_attributes vid (t # l # rest) =
     (if unat l < 2 \<or> unat l > 2 + length rest
      then Inl (AttributeError (''Invalid Vendor-Specific sub-attribute length: ''
             @ show_nat (unat l) @ '' (remaining '' @ show_nat (2 + length rest) @ '')''))
      else res_bind (decode_sub_attributes vid (drop (unat l - 2) rest)) (\<lambda>subs.
        Inr (\<lparr>vendor_id = vid, vendor_type = t, vendor_value = take (unat l - 2) rest\<rparr> # subs)))"
proof -
  have "drop 2 (take n (t # l # rest)) = take (n - 2) rest" "2 \<le> n \<Longrightarrow> drop n (t # l # rest) = drop (n - 2) rest" for n
    by (simp_all add: numeral_2_eq_2 take_Cons' drop_Cons')
  then show ?thesis
    by (subst decode_sub_attributes.simps) (simp add: vsa_consts Let_def)
qed

lemma decode_sub_attributes_enc:
  "vsa_ok vid v \<Longrightarrow> decode_sub_attributes vid (encode_sub_attribute v @ rest) =
     res_bind (decode_sub_attributes vid rest) (\<lambda>vs. Inr (v # vs))"
  by (cases v, frule unat_vendor_length)
    (simp add: encode_sub_attribute_def decode_sub_attributes_Cons2 vsa_ok_def)

lemma decode_sub_attributes_Inr_Cons:
  assumes "decode_sub_attributes vid bs = Inr (v # vs)"
  shows "\<exists>rest. vsa_ok vid v \<and> bs = encode_sub_attribute v @ rest \<and> decode_sub_attributes vid rest = Inr vs"
proof -
  have "2 \<le> length bs"
    using assms by (subst (asm) decode_sub_attributes.simps) (auto simp: vsa_consts split: if_splits)
  then obtain t l r where bs: "bs = t # l # r" by (rule list_ge2E)
  with assms have l: "2 \<le> unat l" "unat l \<le> 2 + length r"
    and v: "v = \<lparr>vendor_id = vid, vendor_type = t, vendor_value = take (unat l - 2) r\<rparr>"
    and vs: "decode_sub_attributes vid (drop (unat l - 2) r) = Inr vs"
    by (auto simp: decode_sub_attributes_Cons2 res_simps split: if_splits)
  have "bs = encode_sub_attribute v @ drop (unat l - 2) r"
    using l by (simp add: bs v encode_sub_attribute_def vsa_consts)
  moreover have "vsa_ok vid v" using unat_u8_le [of l] by (simp add: vsa_ok_def v)
  ultimately show ?thesis using vs by blast
qed

interpretation subs: tlv_stream encode_sub_attribute "vsa_ok vid" "decode_sub_attributes vid" for vid
proof
  fix bs
  assume "decode_sub_attributes vid bs = Inr []"
  then show "bs = []"
    by (subst (asm) decode_sub_attributes.simps) (auto simp: res_simps Let_def split: if_splits)
qed (blast intro: decode_sub_attributes_Nil decode_sub_attributes_enc decode_sub_attributes_Inr_Cons)+

section \<open>Combined attributes\<close>

lemma combine_subs_Inr_iff [res_simps]:
  "combine_subs vid buf vs = Inr bs \<longleftrightarrow>
     (\<forall>v \<in> set vs. vendor_id v = vid) \<and> bs = buf @ concat (map encode_sub_attribute vs)"
  by (induction vs arbitrary: buf) auto

lemma decode_value_bytes:
  "decode_value (u32_to_be_bytes vid @ rest) =
     (if length rest < 2
      then Inl (AttributeError (''Vendor-Specific value too short: '' @ show_nat (4 + length rest) @ '' bytes''))
      else decode_sub_attributes vid rest)"
proof -
  have "length (u32_to_be_bytes vid @ rest) = 4 + length rest" by simp
  then show ?thesis
    by (simp only: decode_value_def vsa_consts)
      (simp add: u32_to_be_bytes_def u32_from_to_be_bytes)
qed

lemma vendor_value_cases:
  assumes "4 \<le> length (bs :: bytes)"
  obtains vid rest where "bs = u32_to_be_bytes vid @ rest"
proof -
  from assms have "2 \<le> length bs" by simp
  then obtain a b r where 1: "bs = a # b # r" by (rule list_ge2E)
  with assms have "2 \<le> length r" by simp
  then obtain c d rest where "r = c # d # rest" by (rule list_ge2E)
  with 1 have "bs = u32_to_be_bytes (u32_from_be_bytes a b c d) @ rest"
    by (simp add: u32_to_from_be_bytes)
  then show ?thesis by (rule that)
qed

lemma concat_sub_length:
  "v \<in> set vs \<Longrightarrow> 2 + length (vendor_value v) \<le> length (concat (map encode_sub_attribute vs))"
  by (induction vs) auto

lemma decode_value_Inr_iff:
  "decode_value bs = Inr vs \<longleftrightarrow> vs \<noteq> [] \<and> (\<forall>v \<in> set vs. vsa_ok (vendor_id (hd vs)) v)
     \<and> bs = u32_to_be_bytes (vendor_id (hd vs)) @ concat (map encode_sub_attribute vs)"
  (is "?dec \<longleftrightarrow> ?enc")
proof
  assume dec: ?dec
  then have "4 \<le> length bs" by (auto simp: decode_value_def vsa_consts split: if_splits)
  then obtain vid rest where bs: "bs = u32_to_be_bytes vid @ rest" by (rule vendor_value_cases)
  with dec have r: "rest \<noteq> []" and "decode_sub_attributes vid rest = Inr vs"
    by (auto simp: decode_value_bytes split: if_splits)
  then have rest: "concat (map encode_sub_attribute vs) = rest" and ok: "\<forall>v \<in> set vs. vsa_ok vid v"
    using subs.enc_dec_all by blast+
  with r have "vs \<noteq> []" by auto
  with ok have "vendor_id (hd vs) = vid" by (simp add: vsa_ok_def)
  with \<open>vs \<noteq> []\<close> ok rest bs show ?enc by simp
next
  assume enc: ?enc
  then obtain v vs' where "vs = v # vs'" by (cases vs) auto
  with enc show ?dec
    using subs.dec_enc_all [of vs "vendor_id v"] by (simp add: decode_value_bytes)
qed

lemma to_attribute_combined_iff:
  "to_attribute_combined subs = Inr a \<longleftrightarrow> attribute_ok a \<and> from_attribute a = Inr subs"
proof (cases subs)
  case Nil
  then show ?thesis by (simp add: to_attribute_combined_def from_attribute_def decode_value_Inr_iff)
next
  case (Cons v vs)
  have "length (vendor_value u) \<le> 253" if "attribute_ok a" "u \<in> set subs"
    "attr_value a = u32_to_be_bytes (vendor_id v) @ concat (map encode_sub_attribute subs)" for u
    using concat_sub_length [OF that(2)] that(1,3) by (simp add: attribute_ok_def attr_consts)
  then show ?thesis
    by (cases a) (auto simp: to_attribute_combined_def from_attribute_def decode_value_Inr_iff res_simps
        vsa_ok_def Cons)
qed

text \<open>What remains of a decodable attribute after dropping some of its sub-attributes can be packed again.\<close>

lemma length_concat_filter:
  "length (concat (map f (filter P xs))) \<le> length (concat (map f xs))"
  by (induction xs) auto

lemma to_attribute_combined_filter:
  assumes "attribute_ok a" "from_attribute a = Inr subs" "filter P subs \<noteq> []"
  shows "\<exists>b. to_attribute_combined (filter P subs) = Inr b \<and> encoded_length b \<le> encoded_length a"
proof -
  from assms(2) have "decode_value (attr_value a) = Inr subs" by (auto simp: from_attribute_def split: if_splits)
  then have ok: "\<forall>v \<in> set subs. vsa_ok (vendor_id (hd subs)) v"
    and v: "attr_value a = u32_to_be_bytes (vendor_id (hd subs)) @ concat (map encode_sub_attribute subs)"
    by (simp_all add: decode_value_Inr_iff)
  obtain x xs where x: "filter P subs = x # xs" using assms(3) by (cases "filter P subs") auto
  then have sub: "set (x # xs) \<subseteq> set subs" by (metis filter_is_subset)
  with ok have ids: "\<forall>u \<in> set (x # xs). vendor_id u = vendor_id x" by (auto simp: vsa_ok_def)
  let ?bs = "u32_to_be_bytes (vendor_id x) @ concat (map encode_sub_attribute (x # xs))"
  have comb: "combine_subs (vendor_id x) (u32_to_be_bytes (vendor_id x)) (x # xs) = Inr ?bs"
    unfolding combine_subs_Inr_iff using ids by simp
  have len: "length ?bs \<le> length (attr_value a)"
    using length_concat_filter [of encode_sub_attribute P subs] by (simp add: v x)
  then have "attribute_ok \<lparr>attr_type = AttributeType_as_u8 VendorSpecific, attr_value = ?bs\<rparr>"
    using assms(1) by (simp add: attribute_ok_def)
  then have "to_attribute_combined (x # xs) = Inr \<lparr>attr_type = AttributeType_as_u8 VendorSpecific, attr_value = ?bs\<rparr>"
    using comb by (simp add: to_attribute_combined_def Attribute_new_Inr_iff del: combine_subs.simps)
  then show ?thesis using len x by (auto simp: encoded_length_def)
qed

section \<open>Lookup\<close>

lemma find_vendor_attributes_snoc:
  assumes "to_attribute v = Inr a"
  shows "find_vendor_attributes (add_attribute p a) vid ty =
     find_vendor_attributes p vid ty @ (if vendor_id v = vid \<and> vendor_type v = ty then [v] else [])"
proof -
  have a: "attr_type a = AttributeType_as_u8 VendorSpecific" "attr_value a = encode_value v" "attribute_ok a"
    using assms by (auto simp: to_attribute_def res_simps)
  then have "vsa_ok (vendor_id v) v"
    by (simp add: vsa_ok_def attribute_ok_def encode_value_def attr_consts)
  then have "decode_value (attr_value a) = Inr [v]"
    by (simp add: decode_value_Inr_iff a encode_value_def)
  with a show ?thesis
    by (simp add: find_vendor_attributes_def add_attribute_def List.map_filter_def)
qed

section \<open>Properties\<close>

text \<open>
  Combining sub-attributes and unpacking a Vendor-Specific attribute are exact inverses: an
  attribute is what \<open>to_attribute_combined\<close> builds from a list exactly when it is within the
  attribute size limit and \<open>from_attribute\<close> unpacks it to that list, same order, same vendor.
\<close>

theorem vsa_combined_iff_unpacked:
  "to_attribute_combined subs = Inr a \<longleftrightarrow> attribute_ok a \<and> from_attribute a = Inr subs"
  by (rule to_attribute_combined_iff)

text \<open>
  Looking up a vendor attribute in a packet: adding a Vendor-Specific attribute of one
  sub-attribute to a packet makes exactly that sub-attribute appear, last, under its vendor and
  type, and changes no other lookup.
\<close>

theorem find_vendor_attributes_add:
  assumes "to_attribute v = Inr a"
  shows "find_vendor_attributes (add_attribute p a) vid ty =
     find_vendor_attributes p vid ty @ (if vendor_id v = vid \<and> vendor_type v = ty then [v] else [])"
  by (rule find_vendor_attributes_snoc [OF assms])

theorem find_vendor_attributes_add_witness:
  "\<exists>a. to_attribute \<lparr>vendor_id = 311, vendor_type = 16, vendor_value = [1, 2]\<rparr> = Inr a \<and>
     find_vendor_attributes (add_attribute (Packet_new AccessAccept 7 (arr16_of [])) a) 311 16 =
       [\<lparr>vendor_id = 311, vendor_type = 16, vendor_value = [1, 2]\<rparr>]"
proof -
  let ?v = "\<lparr>vendor_id = 311, vendor_type = 16, vendor_value = [1, 2]\<rparr>"
  obtain a where a: "to_attribute ?v = Inr a"
    by (simp add: to_attribute_def Attribute_new_def encode_value_def encode_sub_attribute_def attr_consts)
  then show ?thesis
    using find_vendor_attributes_add [OF a, of "Packet_new AccessAccept 7 (arr16_of [])" 311 16]
    by (simp add: find_vendor_attributes_def Packet_new_def List.map_filter_def)
qed

end
