(* ===== verification/Validation.thy ===== *)
theory Validation
  imports Packet_Codec
begin

text \<open>
  Packet and attribute validation (\<open>validation.rs\<close>), in lenient and strict mode, with every error
  message. The properties say exactly which packets are accepted and that strict mode only
  narrows lenient mode.
\<close>

datatype ValidationMode = Lenient | Strict

record ValidationError =
  verr_message :: string
  verr_attribute_type :: "u8 option"

definition ValidationError_new :: "string \<Rightarrow> ValidationError" where
  "ValidationError_new msg = \<lparr>verr_message = msg, verr_attribute_type = None\<rparr>"

definition with_attribute :: "string \<Rightarrow> u8 \<Rightarrow> ValidationError" where
  "with_attribute msg ty = \<lparr>verr_message = msg, verr_attribute_type = Some ty\<rparr>"

definition ValidationError_fmt :: "ValidationError \<Rightarrow> string" where
  "ValidationError_fmt e = (case verr_attribute_type e of
     Some ty \<Rightarrow> ''Attribute '' @ show_nat (unat ty) @ '': '' @ verr_message e
   | None \<Rightarrow> verr_message e)"

section \<open>Attributes\<close>

definition validate_string_attribute :: "Attribute \<Rightarrow> ValidationError + unit" where
  "validate_string_attribute attr =
     (if \<not> is_ok (as_string attr)
      then Inl (with_attribute ''Invalid UTF-8 in string attribute'' (attr_type attr))
      else Inr ())"

definition validate_integer_attribute :: "Attribute \<Rightarrow> ValidationError + unit" where
  "validate_integer_attribute attr =
     (if length (attr_value attr) \<noteq> 4
      then Inl (with_attribute (''Integer attribute must be 4 bytes, got '' @ show_nat (length (attr_value attr)))
             (attr_type attr))
      else Inr ())"

definition validate_ipv4_attribute :: "Attribute \<Rightarrow> ValidationError + unit" where
  "validate_ipv4_attribute attr =
     (if length (attr_value attr) \<noteq> 4
      then Inl (with_attribute (''IPv4 address attribute must be 4 bytes, got '' @ show_nat (length (attr_value attr)))
             (attr_type attr))
      else Inr ())"

text \<open>
  The enumerated integer attributes. Each checks the length first, so that \<open>as_integer().unwrap()\<close>
  (\<open>projr\<close> here) cannot panic; lemma \<open>validated_as_integer\<close> below.
\<close>

definition validate_service_type :: "Attribute \<Rightarrow> ValidationMode \<Rightarrow> ValidationError + unit" where
  "validate_service_type attr mode =
     res_bind (validate_integer_attribute attr) (\<lambda>_.
       let value = projr (as_integer attr); valid = (1 \<le> value \<and> value \<le> 13)
       in if \<not> valid \<and> mode = Strict
          then Inl (with_attribute (''Invalid Service-Type value: '' @ show_nat (unat value) @ '' (must be 1-13)'')
                 (attr_type attr))
          else Inr ())"

definition validate_framed_protocol :: "Attribute \<Rightarrow> ValidationMode \<Rightarrow> ValidationError + unit" where
  "validate_framed_protocol attr mode =
     res_bind (validate_integer_attribute attr) (\<lambda>_.
       let value = projr (as_integer attr); valid = (1 \<le> value \<and> value \<le> 7)
       in if \<not> valid \<and> mode = Strict
          then Inl (with_attribute (''Invalid Framed-Protocol value: '' @ show_nat (unat value) @ '' (must be 1-7)'')
                 (attr_type attr))
          else Inr ())"

definition validate_framed_routing :: "Attribute \<Rightarrow> ValidationMode \<Rightarrow> ValidationError + unit" where
  "validate_framed_routing attr mode =
     res_bind (validate_integer_attribute attr) (\<lambda>_.
       let value = projr (as_integer attr); valid = (0 \<le> value \<and> value \<le> 3)
       in if \<not> valid \<and> mode = Strict
          then Inl (with_attribute (''Invalid Framed-Routing value: '' @ show_nat (unat value) @ '' (must be 0-3)'')
                 (attr_type attr))
          else Inr ())"

definition validate_framed_compression :: "Attribute \<Rightarrow> ValidationMode \<Rightarrow> ValidationError + unit" where
  "validate_framed_compression attr mode =
     res_bind (validate_integer_attribute attr) (\<lambda>_.
       let value = projr (as_integer attr); valid = (0 \<le> value \<and> value \<le> 3)
       in if \<not> valid \<and> mode = Strict
          then Inl (with_attribute (''Invalid Framed-Compression value: '' @ show_nat (unat value) @ '' (must be 0-3)'')
                 (attr_type attr))
          else Inr ())"

definition validate_login_service :: "Attribute \<Rightarrow> ValidationMode \<Rightarrow> ValidationError + unit" where
  "validate_login_service attr mode =
     res_bind (validate_integer_attribute attr) (\<lambda>_.
       let value = projr (as_integer attr); valid = (0 \<le> value \<and> value \<le> 8)
       in if \<not> valid \<and> mode = Strict
          then Inl (with_attribute (''Invalid Login-Service value: '' @ show_nat (unat value)) (attr_type attr))
          else Inr ())"

definition validate_termination_action :: "Attribute \<Rightarrow> ValidationMode \<Rightarrow> ValidationError + unit" where
  "validate_termination_action attr mode =
     res_bind (validate_integer_attribute attr) (\<lambda>_.
       let value = projr (as_integer attr); valid = (value = 0 \<or> value = 1)
       in if \<not> valid \<and> mode = Strict
          then Inl (with_attribute (''Invalid Termination-Action value: '' @ show_nat (unat value) @ '' (must be 0-1)'')
                 (attr_type attr))
          else Inr ())"

definition validate_attribute :: "Attribute \<Rightarrow> ValidationMode \<Rightarrow> ValidationError + unit" where
  "validate_attribute attr mode =
     (let t = attr_type attr
      in if t = AttributeType_as_u8 UserName then validate_string_attribute attr
         else if t = AttributeType_as_u8 FilterId then validate_string_attribute attr
         else if t = AttributeType_as_u8 ReplyMessage then validate_string_attribute attr
         else if t = AttributeType_as_u8 CallbackNumber then validate_string_attribute attr
         else if t = AttributeType_as_u8 CallbackId then validate_string_attribute attr
         else if t = AttributeType_as_u8 CalledStationId then validate_string_attribute attr
         else if t = AttributeType_as_u8 CallingStationId then validate_string_attribute attr
         else if t = AttributeType_as_u8 NasIdentifier then validate_string_attribute attr
         else if t = AttributeType_as_u8 ServiceType then validate_service_type attr mode
         else if t = AttributeType_as_u8 FramedProtocol then validate_framed_protocol attr mode
         else if t = AttributeType_as_u8 FramedRouting then validate_framed_routing attr mode
         else if t = AttributeType_as_u8 FramedCompression then validate_framed_compression attr mode
         else if t = AttributeType_as_u8 LoginService then validate_login_service attr mode
         else if t = AttributeType_as_u8 TerminationAction then validate_termination_action attr mode
         else if t = AttributeType_as_u8 NasPort then validate_integer_attribute attr
         else if t = AttributeType_as_u8 SessionTimeout then validate_integer_attribute attr
         else if t = AttributeType_as_u8 IdleTimeout then validate_integer_attribute attr
         else if t = AttributeType_as_u8 LoginTcpPort then validate_integer_attribute attr
         else if t = AttributeType_as_u8 FramedMtu then validate_integer_attribute attr
         else if t = AttributeType_as_u8 NasIpAddress then validate_ipv4_attribute attr
         else if t = AttributeType_as_u8 FramedIpAddress then validate_ipv4_attribute attr
         else if t = AttributeType_as_u8 FramedIpNetmask then validate_ipv4_attribute attr
         else if t = AttributeType_as_u8 LoginIpHost then validate_ipv4_attribute attr
         else Inr ())"

section \<open>Packets\<close>

definition has_attr :: "Packet \<Rightarrow> AttributeType \<Rightarrow> bool" where
  "has_attr p ty \<longleftrightarrow> find_attribute p (AttributeType_as_u8 ty) \<noteq> None"

text \<open>The section sign in one message is the two octets of its UTF-8 encoding.\<close>

definition validate_access_request :: "Packet \<Rightarrow> ValidationMode \<Rightarrow> ValidationError + unit" where
  "validate_access_request p mode =
     (if \<not> has_attr p UserName
      then Inl (with_attribute ''User-Name attribute is required in Access-Request'' (AttributeType_as_u8 UserName))
      else let has_user_password = has_attr p UserPassword;
               has_chap_password = has_attr p ChapPassword;
               has_eap_message = has_attr p EapMessage;
               has_nas_ip = has_attr p NasIpAddress;
               has_nas_identifier = has_attr p NasIdentifier
        in res_bind
            (if has_eap_message then
               (if has_user_password \<or> has_chap_password
                then Inl (ValidationError_new (''EAP-Message is present; User-Password/CHAP-Password MUST NOT be included (RFC 3579 ''
                       @ [CHR 0xC2, CHR 0xA7] @ ''3.1)''))
                else Inr ())
             else if \<not> has_user_password \<and> \<not> has_chap_password
             then Inl (ValidationError_new ''Either User-Password, CHAP-Password, or EAP-Message is required in Access-Request'')
             else if has_user_password \<and> has_chap_password
             then Inl (ValidationError_new ''User-Password and CHAP-Password cannot both be present in Access-Request'')
             else Inr ()) (\<lambda>_.
           if \<not> has_nas_ip \<and> \<not> has_nas_identifier
           then Inl (ValidationError_new ''Either NAS-IP-Address or NAS-Identifier is required in Access-Request (RFC 2865)'')
           else Inr ()))"

definition validate_access_accept :: "Packet \<Rightarrow> ValidationMode \<Rightarrow> ValidationError + unit" where
  "validate_access_accept p mode = Inr ()"

definition validate_access_reject :: "Packet \<Rightarrow> ValidationMode \<Rightarrow> ValidationError + unit" where
  "validate_access_reject p mode = Inr ()"

definition validate_status_server :: "Packet \<Rightarrow> ValidationMode \<Rightarrow> ValidationError + unit" where
  "validate_status_server p mode = Inr ()"

definition validate_accounting_request :: "Packet \<Rightarrow> ValidationMode \<Rightarrow> ValidationError + unit" where
  "validate_accounting_request p mode =
     (if \<not> has_attr p AcctStatusType
      then Inl (with_attribute ''Acct-Status-Type attribute is required in Accounting-Request''
             (AttributeType_as_u8 AcctStatusType))
      else Inr ())"

definition validate_accounting_response :: "Packet \<Rightarrow> ValidationMode \<Rightarrow> ValidationError + unit" where
  "validate_accounting_response p mode = Inr ()"

text \<open>The derived \<open>Debug\<close> text of a \<open>Code\<close>, as the unsupported-type message prints it.\<close>

fun Code_debug :: "Code \<Rightarrow> string" where
  "Code_debug AccessRequest = ''AccessRequest''"
| "Code_debug AccessAccept = ''AccessAccept''"
| "Code_debug AccessReject = ''AccessReject''"
| "Code_debug AccountingRequest = ''AccountingRequest''"
| "Code_debug AccountingResponse = ''AccountingResponse''"
| "Code_debug AccessChallenge = ''AccessChallenge''"
| "Code_debug StatusServer = ''StatusServer''"
| "Code_debug StatusClient = ''StatusClient''"
| "Code_debug DisconnectRequest = ''DisconnectRequest''"
| "Code_debug DisconnectAck = ''DisconnectAck''"
| "Code_debug DisconnectNak = ''DisconnectNak''"
| "Code_debug CoaRequest = ''CoaRequest''"
| "Code_debug CoaAck = ''CoaAck''"
| "Code_debug CoaNak = ''CoaNak''"

fun validate_attributes :: "Attribute list \<Rightarrow> ValidationMode \<Rightarrow> ValidationError + unit" where
  "validate_attributes [] mode = Inr ()"
| "validate_attributes (a # as) mode = res_bind (validate_attribute a mode) (\<lambda>_. validate_attributes as mode)"

definition validate_packet :: "Packet \<Rightarrow> ValidationMode \<Rightarrow> ValidationError + unit" where
  "validate_packet p mode =
     res_bind (case pkt_code p of
        AccessRequest \<Rightarrow> validate_access_request p mode
      | AccessAccept \<Rightarrow> validate_access_accept p mode
      | AccessReject \<Rightarrow> validate_access_reject p mode
      | StatusServer \<Rightarrow> validate_status_server p mode
      | AccountingRequest \<Rightarrow> validate_accounting_request p mode
      | AccountingResponse \<Rightarrow> validate_accounting_response p mode
      | _ \<Rightarrow> if mode = Strict
             then Inl (ValidationError_new (''Unsupported packet type: '' @ Code_debug (pkt_code p)))
             else Inr ())
     (\<lambda>_. validate_attributes (pkt_attributes p) mode)"

section \<open>What is accepted\<close>

text \<open>
  The format classes of RFC 2865 by attribute number: text attributes are UTF-8, integers and
  addresses are four octets; the enumerated integers have a range of their own.
\<close>

definition attribute_format_ok :: "Attribute \<Rightarrow> bool" where
  "attribute_format_ok a \<longleftrightarrow>
     (attr_type a \<in> {1, 11, 18, 19, 20, 30, 31, 32} \<longrightarrow> valid_utf8 (attr_value a)) \<and>
     (attr_type a \<in> {4, 5, 6, 7, 8, 9, 10, 12, 13, 14, 15, 16, 27, 28, 29} \<longrightarrow> length (attr_value a) = 4)"

definition enum_range :: "u8 \<Rightarrow> (u32 \<times> u32) option" where
  "enum_range = map_of [(6, (1, 13)), (7, (1, 7)), (10, (0, 3)), (13, (0, 3)), (15, (0, 8)), (29, (0, 1))]"

definition attribute_enum_ok :: "Attribute \<Rightarrow> bool" where
  "attribute_enum_ok a \<longleftrightarrow> (case enum_range (attr_type a) of
     None \<Rightarrow> True
   | Some (lo, hi) \<Rightarrow> (case as_integer a of Inl _ \<Rightarrow> False | Inr v \<Rightarrow> lo \<le> v \<and> v \<le> hi))"

lemma validate_string_iff: "validate_string_attribute a = Inr () \<longleftrightarrow> valid_utf8 (attr_value a)"
  by (simp add: validate_string_attribute_def as_string_def from_utf8_def)

lemma validate_integer_iff: "validate_integer_attribute a = Inr () \<longleftrightarrow> length (attr_value a) = 4"
  by (simp add: validate_integer_attribute_def)

lemma validate_ipv4_iff: "validate_ipv4_attribute a = Inr () \<longleftrightarrow> length (attr_value a) = 4"
  by (simp add: validate_ipv4_attribute_def)

lemma validated_as_integer: "length (attr_value a) = 4 \<Longrightarrow> as_integer a = Inr (projr (as_integer a))"
  by (simp add: as_integer_def)

lemma u32_le_1_iff: "(v :: u32) = 0 \<or> v = 1 \<longleftrightarrow> v \<le> 1"
proof -
  have "v \<le> 1 \<longleftrightarrow> unat v \<le> 1" by (simp add: word_le_nat_alt)
  also have "\<dots> \<longleftrightarrow> unat v = 0 \<or> unat v = 1" by linarith
  also have "\<dots> \<longleftrightarrow> v = 0 \<or> v = 1" by (simp add: word_unat_eq_iff)
  finally show ?thesis by blast
qed

lemmas enum_validators = validate_service_type_def validate_framed_protocol_def validate_framed_routing_def
  validate_framed_compression_def validate_login_service_def validate_termination_action_def

lemma validate_enum_iff:
  "attr_type a = 6 \<Longrightarrow> validate_service_type a m = Inr () \<longleftrightarrow> length (attr_value a) = 4 \<and> (m = Lenient \<or> attribute_enum_ok a)"
  "attr_type a = 7 \<Longrightarrow> validate_framed_protocol a m = Inr () \<longleftrightarrow> length (attr_value a) = 4 \<and> (m = Lenient \<or> attribute_enum_ok a)"
  "attr_type a = 10 \<Longrightarrow> validate_framed_routing a m = Inr () \<longleftrightarrow> length (attr_value a) = 4 \<and> (m = Lenient \<or> attribute_enum_ok a)"
  "attr_type a = 13 \<Longrightarrow> validate_framed_compression a m = Inr () \<longleftrightarrow> length (attr_value a) = 4 \<and> (m = Lenient \<or> attribute_enum_ok a)"
  "attr_type a = 15 \<Longrightarrow> validate_login_service a m = Inr () \<longleftrightarrow> length (attr_value a) = 4 \<and> (m = Lenient \<or> attribute_enum_ok a)"
  "attr_type a = 29 \<Longrightarrow> validate_termination_action a m = Inr () \<longleftrightarrow> length (attr_value a) = 4 \<and> (m = Lenient \<or> attribute_enum_ok a)"
  by (cases m; cases "length (attr_value a) = 4";
      simp add: enum_validators validate_integer_attribute_def attribute_enum_ok_def enum_range_def as_integer_def
        u32_le_1_iff Let_def)+

lemma enum_ok_other: "attr_type a \<notin> {6, 7, 10, 13, 15, 29} \<Longrightarrow> attribute_enum_ok a"
  by (simp add: attribute_enum_ok_def enum_range_def)

lemma validate_attribute_iff:
  "validate_attribute a mode = Inr () \<longleftrightarrow> attribute_format_ok a \<and> (mode = Lenient \<or> attribute_enum_ok a)"
proof (cases "attr_type a \<in> {6, 7, 10, 13, 15, 29}")
  case True
  then show ?thesis
    by (elim insertE) (simp_all add: validate_attribute_def validate_enum_iff attribute_format_ok_def)
next
  case False
  moreover from this have "attribute_enum_ok a" by (rule enum_ok_other)
  ultimately show ?thesis
    by (simp add: validate_attribute_def attribute_format_ok_def validate_string_iff validate_integer_iff
        validate_ipv4_iff Let_def split: if_split)
qed

lemma validate_attributes_iff:
  "validate_attributes as mode = Inr () \<longleftrightarrow>
     list_all attribute_format_ok as \<and> (mode = Lenient \<or> list_all attribute_enum_ok as)"
  by (induction as) (auto simp: res_simps validate_attribute_iff)

lemma validate_access_request_iff:
  "validate_access_request p mode = Inr () \<longleftrightarrow> has_attr p UserName
     \<and> (if has_attr p EapMessage then \<not> has_attr p UserPassword \<and> \<not> has_attr p ChapPassword
        else has_attr p UserPassword \<noteq> has_attr p ChapPassword)
     \<and> (has_attr p NasIpAddress \<or> has_attr p NasIdentifier)"
  by (auto simp: validate_access_request_def Let_def)

section \<open>Properties\<close>

text \<open>
  An Access-Request is accepted exactly when it names a user, carries one kind of credential
  (an EAP message and no password, or exactly one of User-Password and CHAP-Password), names its
  NAS by address or identifier, and every attribute is well formed; strict mode adds the ranges
  of the enumerated attributes.
\<close>

theorem access_request_accepted_iff:
  "validate_packet (p\<lparr>pkt_code := AccessRequest\<rparr>) mode = Inr () \<longleftrightarrow> has_attr p UserName
     \<and> (if has_attr p EapMessage then \<not> has_attr p UserPassword \<and> \<not> has_attr p ChapPassword
        else has_attr p UserPassword \<noteq> has_attr p ChapPassword)
     \<and> (has_attr p NasIpAddress \<or> has_attr p NasIdentifier)
     \<and> list_all attribute_format_ok (pkt_attributes p)
     \<and> (mode = Lenient \<or> list_all attribute_enum_ok (pkt_attributes p))"
proof -
  have "has_attr (p\<lparr>pkt_code := AccessRequest\<rparr>) t = has_attr p t" for t
    by (simp add: has_attr_def find_attribute_def)
  then show ?thesis
    by (simp add: validate_packet_def res_simps validate_access_request_iff validate_attributes_iff)
qed

text \<open>
  Strict mode is lenient mode with two more conditions and nothing else: the packet is of a
  type the validator supports, and the enumerated attributes are in range.
\<close>

theorem strict_iff_lenient_and:
  "validate_packet p Strict = Inr () \<longleftrightarrow> validate_packet p Lenient = Inr ()
     \<and> pkt_code p \<in> {AccessRequest, AccessAccept, AccessReject, StatusServer, AccountingRequest, AccountingResponse}
     \<and> list_all attribute_enum_ok (pkt_attributes p)"
  by (cases "pkt_code p")
    (auto simp: validate_packet_def res_simps validate_attributes_iff validate_access_request_iff
      validate_accounting_request_def validate_access_accept_def validate_access_reject_def
      validate_status_server_def validate_accounting_response_def)

end
