(* ===== verification/Authenticators.thy ===== *)
theory Authenticators
  imports Packet_Codec
begin

text \<open>
  Packet authenticators and password hiding (\<open>auth.rs\<close>), the Message-Authenticator attribute
  (\<open>message_auth.rs\<close>) and CHAP (\<open>chap.rs\<close>).

  MD5 and HMAC-MD5 come from other crates. They are parameters \<open>md5 :: bytes \<Rightarrow> arr16\<close> and
  \<open>hmac_md5 :: bytes \<Rightarrow> bytes \<Rightarrow> arr16\<close> (key, then message); nothing is assumed of them but the
  16-octet result, which is in the type. \<open>Mac::verify_slice\<close> succeeds when its argument equals
  the finished MAC.
\<close>

section \<open>Comparison\<close>

definition constant_time_eq :: "bytes \<Rightarrow> bytes \<Rightarrow> bool" where
  "constant_time_eq a b =
     (if length a \<noteq> length b then False
      else foldl (\<lambda>diff (x, y). diff OR (x XOR y)) 0 (zip a b) = 0)"

lemma xor_eq_0_u8: "x XOR y = 0 \<longleftrightarrow> x = (y :: u8)"
  by (auto simp: bit_eq_iff bit_simps)

lemma foldl_diff_zero:
  "foldl (\<lambda>diff (x, y). diff OR (x XOR y)) d (zip a b) = (0 :: u8) \<longleftrightarrow> d = 0 \<and> (\<forall>(x, y) \<in> set (zip a b). x = y)"
  by (induction a b arbitrary: d rule: list_induct2') (auto simp: or_eq_0_iff xor_eq_0_u8)

lemma constant_time_eq_iff: "constant_time_eq a b \<longleftrightarrow> a = b"
proof -
  have "a = b" if "length a = length b" "\<forall>(x, y) \<in> set (zip a b). x = y"
    using that by (induction a b rule: list_induct2) auto
  moreover have "\<forall>(x, y) \<in> set (zip a a). x = y"
    by (auto simp: in_set_zip)
  ultimately show ?thesis by (auto simp: constant_time_eq_def foldl_diff_zero)
qed

section \<open>Request and Response Authenticators\<close>

text \<open>The attribute loop: \<open>expect\<close> on each encoding.\<close>

fun append_attributes :: "bytes \<Rightarrow> Attribute list \<Rightarrow> panic + bytes" where
  "append_attributes data [] = Inr data"
| "append_attributes data (a # as) =
     (case Attribute_encode a of
        Inl _ \<Rightarrow> Inl (Panic ''Failed to encode attribute'')
      | Inr encoded \<Rightarrow> append_attributes (data @ encoded) as)"

definition calculate_accounting_request_authenticator ::
    "(bytes \<Rightarrow> arr16) \<Rightarrow> Packet \<Rightarrow> bytes \<Rightarrow> panic + arr16" where
  "calculate_accounting_request_authenticator md5 p secret =
     (let len = Packet_length p;
          data = [Code_as_u8 (pkt_code p)] @ [pkt_identifier p] @ [len_hi len] @ [len_lo len] @ replicate 16 0
      in res_bind (append_attributes data (pkt_attributes p)) (\<lambda>data. Inr (md5 (data @ secret))))"

definition calculate_response_authenticator ::
    "(bytes \<Rightarrow> arr16) \<Rightarrow> Packet \<Rightarrow> arr16 \<Rightarrow> bytes \<Rightarrow> panic + arr16" where
  "calculate_response_authenticator md5 p request_authenticator secret =
     (let len = Packet_length p;
          data = [Code_as_u8 (pkt_code p)] @ [pkt_identifier p] @ [len_hi len] @ [len_lo len]
                 @ bytes16 request_authenticator
      in res_bind (append_attributes data (pkt_attributes p)) (\<lambda>data. Inr (md5 (data @ secret))))"

definition verify_request_authenticator :: "Packet \<Rightarrow> bool" where
  "verify_request_authenticator p \<longleftrightarrow> length (bytes16 (pkt_authenticator p)) = 16"

definition verify_response_authenticator ::
    "(bytes \<Rightarrow> arr16) \<Rightarrow> Packet \<Rightarrow> arr16 \<Rightarrow> bytes \<Rightarrow> panic + bool" where
  "verify_response_authenticator md5 response request_authenticator secret =
     res_bind (calculate_response_authenticator md5 response request_authenticator secret) (\<lambda>calculated.
       Inr (constant_time_eq (bytes16 (pkt_authenticator response)) (bytes16 calculated)))"

definition verify_accounting_request_authenticator ::
    "(bytes \<Rightarrow> arr16) \<Rightarrow> Packet \<Rightarrow> bytes \<Rightarrow> panic + bool" where
  "verify_accounting_request_authenticator md5 p secret =
     res_bind (calculate_accounting_request_authenticator md5 p secret) (\<lambda>calculated.
       Inr (constant_time_eq (bytes16 (pkt_authenticator p)) (bytes16 calculated)))"

section \<open>User-Password\<close>

text \<open>Padding to a multiple of 16, an empty password to one block.\<close>

definition pad_password :: "bytes \<Rightarrow> bytes" where
  "pad_password password_bytes =
     (let padded = password_bytes;
          padding_needed = (16 - length padded mod 16) mod 16;
          padded = (if padding_needed > 0 \<or> padded = [] then resize (length padded + padding_needed) padded else padded)
      in if padded = [] then resize 16 padded else padded)"

text \<open>The loops over the 16-octet chunks, chained through the previous ciphertext block.\<close>

fun encrypt_chunks :: "(bytes \<Rightarrow> arr16) \<Rightarrow> bytes \<Rightarrow> bytes \<Rightarrow> bytes list \<Rightarrow> bytes list" where
  "encrypt_chunks md5 secret previous_block [] = []"
| "encrypt_chunks md5 secret previous_block (chunk # cs) =
     (let hash = bytes16 (md5 (secret @ previous_block));
          encrypted_block = xor_block chunk hash
      in encrypted_block # encrypt_chunks md5 secret encrypted_block cs)"

fun decrypt_chunks :: "(bytes \<Rightarrow> arr16) \<Rightarrow> bytes \<Rightarrow> bytes \<Rightarrow> bytes list \<Rightarrow> bytes list" where
  "decrypt_chunks md5 secret previous_block [] = []"
| "decrypt_chunks md5 secret previous_block (chunk # cs) =
     (let hash = bytes16 (md5 (secret @ previous_block));
          decrypted_block = xor_block chunk hash
      in decrypted_block # decrypt_chunks md5 secret chunk cs)"

definition encrypt_user_password :: "(bytes \<Rightarrow> arr16) \<Rightarrow> string \<Rightarrow> bytes \<Rightarrow> arr16 \<Rightarrow> bytes" where
  "encrypt_user_password md5 password secret authenticator =
     concat (encrypt_chunks md5 secret (bytes16 authenticator) (chunks 16 (pad_password (str_bytes password))))"

definition pop_zeros :: "bytes \<Rightarrow> bytes" where
  "pop_zeros result = rev (dropWhile (\<lambda>b. b = 0) (rev result))"

definition decrypt_user_password :: "(bytes \<Rightarrow> arr16) \<Rightarrow> bytes \<Rightarrow> bytes \<Rightarrow> arr16 \<Rightarrow> string + string" where
  "decrypt_user_password md5 encrypted secret authenticator =
     (if \<not> 16 dvd length encrypted \<or> encrypted = [] then Inl ''Invalid encrypted password length''
      else let result = pop_zeros (concat (decrypt_chunks md5 secret (bytes16 authenticator) (chunks 16 encrypted)))
           in map_err (\<lambda>e. ''Invalid UTF-8 in password: '' @ e) (from_utf8 result))"

section \<open>Message-Authenticator\<close>

definition calculate_message_authenticator :: "(bytes \<Rightarrow> bytes \<Rightarrow> arr16) \<Rightarrow> bytes \<Rightarrow> bytes \<Rightarrow> arr16" where
  "calculate_message_authenticator hmac_md5 packet secret = hmac_md5 secret packet"

text \<open>\<open>buf[off..off + 16]\<close> overwritten by a 16-octet value.\<close>

definition put16 :: "nat \<Rightarrow> bytes \<Rightarrow> bytes \<Rightarrow> bytes" where
  "put16 off v buf = take off buf @ v @ drop (off + 16) buf"

definition verify_message_authenticator :: "(bytes \<Rightarrow> bytes \<Rightarrow> arr16) \<Rightarrow> bytes \<Rightarrow> bytes \<Rightarrow> nat \<Rightarrow> bool" where
  "verify_message_authenticator hmac_md5 packet secret message_auth_offset =
     (if message_auth_offset + 16 > length packet then False
      else let received_auth = take 16 (drop message_auth_offset packet);
               packet_copy = put16 message_auth_offset (replicate 16 0) packet
           in bytes16 (hmac_md5 secret packet_copy) = received_auth)"

section \<open>CHAP\<close>

datatype ChapError = ChapInvalidLength nat | ChallengeNotFound | PasswordNotFound

record ChapResponse =
  chap_ident :: u8
  chap_response :: arr16

record ChapChallenge =
  challenge :: bytes

definition ChapResponse_from_bytes :: "bytes \<Rightarrow> ChapError + ChapResponse" where
  "ChapResponse_from_bytes bs =
     (if length bs \<noteq> 17 then Inl (ChapInvalidLength (length bs))
      else Inr \<lparr>chap_ident = bs ! 0, chap_response = arr16_of (drop 1 (take 17 bs))\<rparr>)"

definition ChapResponse_to_bytes :: "ChapResponse \<Rightarrow> bytes" where
  "ChapResponse_to_bytes r = [chap_ident r] @ bytes16 (chap_response r)"

definition ChapChallenge_new :: "bytes \<Rightarrow> ChapChallenge" where
  "ChapChallenge_new c = \<lparr>challenge = c\<rparr>"

definition from_authenticator :: "arr16 \<Rightarrow> ChapChallenge" where
  "from_authenticator a = \<lparr>challenge = bytes16 a\<rparr>"

definition ChapChallenge_as_bytes :: "ChapChallenge \<Rightarrow> bytes" where
  "ChapChallenge_as_bytes c = challenge c"

definition compute_chap_response :: "(bytes \<Rightarrow> arr16) \<Rightarrow> u8 \<Rightarrow> string \<Rightarrow> bytes \<Rightarrow> arr16" where
  "compute_chap_response md5 ident password chal = md5 ([ident] @ str_bytes password @ chal)"

definition verify_chap_response :: "(bytes \<Rightarrow> arr16) \<Rightarrow> ChapResponse \<Rightarrow> string \<Rightarrow> ChapChallenge \<Rightarrow> bool" where
  "verify_chap_response md5 r password c \<longleftrightarrow>
     chap_response r = compute_chap_response md5 (chap_ident r) password (ChapChallenge_as_bytes c)"

section \<open>Authenticators are digests of the encoding\<close>

lemma append_attributes_Inr_iff [res_simps]:
  "append_attributes data as = Inr bs \<longleftrightarrow>
     (\<forall>a \<in> set as. attribute_ok a) \<and> bs = data @ concat (map attribute_bytes as)"
  by (induction as arbitrary: data) (auto simp: res_simps split: sum.splits)

lemma append_attributes_ok:
  "\<forall>a \<in> set as. attribute_ok a \<Longrightarrow> append_attributes data as = Inr (data @ concat (map attribute_bytes as))"
  by (simp add: append_attributes_Inr_iff)

lemma Packet_length_authenticator [simp]: "Packet_length (p\<lparr>pkt_authenticator := a\<rparr>) = Packet_length p"
  by (simp add: Packet_length_def)

lemma calculate_response_encode:
  assumes "Packet_encode (p\<lparr>pkt_authenticator := ra\<rparr>) = Inr bs"
  shows "calculate_response_authenticator md5 p ra secret = Inr (md5 (bs @ secret))"
  using assms
  by (auto simp: res_simps calculate_response_authenticator_def append_attributes_ok packet_bytes_def packet_ok_def Let_def)

lemma bytes16_zero: "bytes16 (arr16_of (replicate 16 0)) = replicate 16 0"
  by simp

lemma calculate_accounting_response:
  "calculate_accounting_request_authenticator md5 p secret =
     calculate_response_authenticator md5 p (arr16_of (replicate 16 0)) secret"
  by (simp only: calculate_accounting_request_authenticator_def calculate_response_authenticator_def
      bytes16_zero Let_def append_assoc)

lemma calculate_response_authenticator_update [simp]:
  "calculate_response_authenticator md5 (p\<lparr>pkt_authenticator := a\<rparr>) = calculate_response_authenticator md5 p"
  by (simp add: calculate_response_authenticator_def fun_eq_iff Let_def)

section \<open>The password cipher\<close>

interpretation up: xor_chain "\<lambda>prev. bytes16 (md5 (secret @ prev))" "\<lambda>c. c" "encrypt_chunks md5 secret" "decrypt_chunks md5 secret"
  for md5 secret
  by unfold_locales (simp_all add: Let_def)

lemma pad_password_eq:
  "pad_password bs = bs @ replicate ((if bs = [] then 16 else 0) + (16 - length bs mod 16) mod 16) 0"
  by (auto simp: pad_password_def Let_def resize_grow)

lemma length_pad_password: "length (pad_password bs) = 16 * max 1 ((length bs + 15) div 16)"
proof (cases bs)
  case (Cons b bs')
  then have "1 \<le> (length bs + 15) div 16" by (simp add: Suc_le_eq div_greater_zero_iff)
  then show ?thesis using Cons round_up_16 [of "length bs"] by (simp add: pad_password_eq max_def)
qed (simp add: pad_password_eq)

lemma pop_zeros_replicate [simp]: "pop_zeros (bs @ replicate n 0) = pop_zeros bs"
  by (simp add: pop_zeros_def dropWhile_append)

lemma pop_zeros_id: "bs = [] \<or> last bs \<noteq> 0 \<Longrightarrow> pop_zeros bs = bs"
  by (cases bs rule: rev_cases) (simp_all add: pop_zeros_def)

lemma pop_zeros_pad: "\<exists>n. bs = pop_zeros bs @ replicate n 0"
proof -
  have "rev bs = takeWhile (\<lambda>b. b = 0) (rev bs) @ dropWhile (\<lambda>b. b = 0) (rev bs)" by simp
  moreover have "takeWhile (\<lambda>b. b = 0) (rev bs) = replicate (length (takeWhile (\<lambda>b. b = 0) (rev bs))) 0"
    by (metis (mono_tags, lifting) replicate_eqI set_takeWhileD)
  ultimately have "bs = pop_zeros bs @ rev (replicate (length (takeWhile (\<lambda>b. b = 0) (rev bs))) 0)"
    unfolding pop_zeros_def by (metis rev_append rev_rev_ident)
  then show ?thesis by (metis rev_replicate)
qed

lemma last_str_bytes: "s \<noteq> [] \<Longrightarrow> last (str_bytes s) = 0 \<longleftrightarrow> last s = CHR 0x00"
proof -
  assume "s \<noteq> []"
  then have "last (str_bytes s) = as_u8 (of_char (last s))" by (simp add: str_bytes_def last_map)
  moreover have "as_u8 (of_char c) = 0 \<longleftrightarrow> c = CHR 0x00" for c
  proof -
    have "as_u8 (of_char c) = 0 \<longleftrightarrow> (of_char c :: nat) = of_char (CHR 0x00)"
      by (simp add: word_unat_eq_iff unat_of_nat)
    also have "\<dots> \<longleftrightarrow> c = CHR 0x00" by (simp only: of_char_eq_iff)
    finally show ?thesis .
  qed
  ultimately show ?thesis by simp
qed

lemma decrypt_encrypt_user_password:
  assumes utf8: "valid_utf8 (str_bytes pw)" and nul: "pw = [] \<or> last pw \<noteq> CHR 0x00"
  shows "decrypt_user_password md5 (encrypt_user_password md5 pw secret a) secret a = Inr pw"
    "length (encrypt_user_password md5 pw secret a) = 16 * max 1 ((length pw + 15) div 16)"
proof -
  let ?p = "pad_password (str_bytes pw)" and ?c = "encrypt_user_password md5 pw secret a"
  have pop: "pop_zeros (str_bytes pw) = str_bytes pw"
    using nul last_str_bytes [of pw] by (intro pop_zeros_id) (auto simp: str_bytes_def)
  have dvd: "16 dvd length ?p" by (simp add: length_pad_password)
  have c: "?c = concat (encrypt_chunks md5 secret (bytes16 a) (chunks 16 ?p))" by (simp add: encrypt_user_password_def)
  then have len: "length ?c = length ?p" using up.length_buffer_enc [OF dvd] by simp
  then have ne: "?c \<noteq> []" "16 dvd length ?c" using dvd by (auto simp: length_pad_password max_def split: if_splits)
  have "concat (decrypt_chunks md5 secret (bytes16 a) (chunks 16 ?c)) = ?p"
    unfolding c by (rule up.buffer_dec_enc [OF dvd])
  moreover have "pop_zeros ?p = str_bytes pw" by (simp add: pad_password_eq pop)
  ultimately show "decrypt_user_password md5 ?c secret a = Inr pw"
    using utf8 ne by (simp add: decrypt_user_password_def from_utf8_def)
  show "length ?c = 16 * max 1 ((length pw + 15) div 16)" using len by (simp add: length_pad_password)
qed

text \<open>A password that was decrypted is UTF-8, does not end in NUL and is no longer than its hidden form.\<close>

lemma decrypt_user_password_Inr:
  assumes "decrypt_user_password md5 c secret a = Inr pw"
  shows "valid_utf8 (str_bytes pw)" "pw = [] \<or> last pw \<noteq> CHR 0x00" "16 * max 1 ((length pw + 15) div 16) \<le> length c"
proof -
  let ?d = "concat (decrypt_chunks md5 secret (bytes16 a) (chunks 16 c))"
  have dvd: "16 dvd length c" and ne: "c \<noteq> []" and v: "valid_utf8 (pop_zeros ?d)" and pw: "pw = bytes_str (pop_zeros ?d)"
    using assms by (auto simp: decrypt_user_password_def from_utf8_def Let_def split: if_splits)
  show "valid_utf8 (str_bytes pw)" using v pw by simp
  have "pop_zeros ?d = [] \<or> last (pop_zeros ?d) \<noteq> 0"
    using hd_dropWhile [of "\<lambda>b. b = 0" "rev ?d"] by (auto simp: pop_zeros_def last_rev)
  moreover have s: "pop_zeros ?d = str_bytes pw" by (simp add: pw)
  ultimately have "str_bytes pw = [] \<or> last (str_bytes pw) \<noteq> 0" by simp
  then show "pw = [] \<or> last pw \<noteq> CHR 0x00"
    using last_str_bytes [of pw] by (cases "pw = []") (auto simp: str_bytes_def)
  obtain n where "?d = pop_zeros ?d @ replicate n 0" using pop_zeros_pad by blast
  then have "length (pop_zeros ?d) \<le> length ?d" by (metis le_add1 length_append)
  then have "length pw \<le> length c" using pw up.length_buffer_dec [OF dvd] by simp
  moreover obtain k where k: "length c = 16 * k" using dvd by (elim dvdE)
  moreover have "0 < k" using k ne by (cases k) auto
  ultimately show "16 * max 1 ((length pw + 15) div 16) \<le> length c" by auto
qed

section \<open>Properties\<close>

text \<open>
  The constant-time comparison is equality of byte strings, lengths included.
\<close>

theorem constant_time_eq_correct: "constant_time_eq a b \<longleftrightarrow> a = b"
  by (rule constant_time_eq_iff)

text \<open>
  The Response Authenticator is the MD5 of the packet's own encoding with the Request
  Authenticator in the header, followed by the secret; verification accepts that digest and no
  other value, without panicking.
\<close>

theorem response_authenticator_verifies:
  assumes "Packet_encode (p\<lparr>pkt_authenticator := ra\<rparr>) = Inr bs"
  shows "calculate_response_authenticator md5 p ra secret = Inr (md5 (bs @ secret)) \<and>
     verify_response_authenticator md5 (p\<lparr>pkt_authenticator := a\<rparr>) ra secret = Inr (a = md5 (bs @ secret))"
  using calculate_response_encode [OF assms]
  by (simp add: verify_response_authenticator_def constant_time_eq_iff arr16_eq_iff)

theorem response_authenticator_verifies_witness:
  "\<exists>bs. Packet_encode (Packet_new AccessAccept 7 (arr16_of [1]) \<lparr>pkt_authenticator := arr16_of [2]\<rparr>) = Inr bs \<and>
     verify_response_authenticator (\<lambda>m. arr16_of (take 16 m))
       (Packet_new AccessAccept 7 (arr16_of [1]) \<lparr>pkt_authenticator := arr16_of (take 16 (bs @ [9]))\<rparr>) (arr16_of [2]) [9] = Inr True"
proof -
  obtain bs where bs: "Packet_encode (Packet_new AccessAccept 7 (arr16_of [1]) \<lparr>pkt_authenticator := arr16_of [2]\<rparr>) = Inr bs"
    by (simp add: Packet_encode_def Packet_new_def Let_def pkt_consts)
  then show ?thesis
    using response_authenticator_verifies [OF bs, of "\<lambda>m. arr16_of (take 16 m)" "[9]" "arr16_of (take 16 (bs @ [9]))"]
    by simp
qed

text \<open>
  The same for Accounting-Request, Disconnect-Request and CoA-Request, whose authenticator is
  the digest of the encoding with sixteen zero octets in the header.
\<close>

theorem accounting_authenticator_verifies:
  assumes "Packet_encode (p\<lparr>pkt_authenticator := arr16_of (replicate 16 0)\<rparr>) = Inr bs"
  shows "calculate_accounting_request_authenticator md5 p secret = Inr (md5 (bs @ secret)) \<and>
     verify_accounting_request_authenticator md5 (p\<lparr>pkt_authenticator := a\<rparr>) secret = Inr (a = md5 (bs @ secret))"
  using calculate_response_encode [OF assms]
  by (simp add: verify_accounting_request_authenticator_def calculate_accounting_response
      constant_time_eq_iff arr16_eq_iff)

theorem accounting_authenticator_verifies_witness:
  "\<exists>bs. Packet_encode (Packet_new CoaRequest 7 (arr16_of [1]) \<lparr>pkt_authenticator := arr16_of (replicate 16 0)\<rparr>) = Inr bs \<and>
     verify_accounting_request_authenticator (\<lambda>m. arr16_of (take 16 m))
       (Packet_new CoaRequest 7 (arr16_of [1]) \<lparr>pkt_authenticator := arr16_of (take 16 (bs @ [9]))\<rparr>) [9] = Inr True"
proof -
  obtain bs where bs: "Packet_encode (Packet_new CoaRequest 7 (arr16_of [1]) \<lparr>pkt_authenticator := arr16_of (replicate 16 0)\<rparr>) = Inr bs"
    by (simp add: Packet_encode_def Packet_new_def Let_def pkt_consts)
  then show ?thesis
    using accounting_authenticator_verifies [OF bs, of "\<lambda>m. arr16_of (take 16 m)" "[9]" "arr16_of (take 16 (bs @ [9]))"]
    by simp
qed

text \<open>
  C17. Hiding a password and recovering it: for a password that does not end in NUL, a value is
  its hidden form exactly when it has the padded length and decrypts to it.
\<close>

theorem user_password_hiding_exact:
  assumes utf8: "valid_utf8 (str_bytes pw)" and nul: "pw = [] \<or> last pw \<noteq> CHR 0x00"
  shows "encrypt_user_password md5 pw secret a = c \<longleftrightarrow>
     decrypt_user_password md5 c secret a = Inr pw \<and> length c = 16 * max 1 ((length pw + 15) div 16)"
proof
  assume "encrypt_user_password md5 pw secret a = c"
  with decrypt_encrypt_user_password [OF utf8 nul, of md5 secret a]
  show "decrypt_user_password md5 c secret a = Inr pw \<and> length c = 16 * max 1 ((length pw + 15) div 16)" by simp
next
  assume r: "decrypt_user_password md5 c secret a = Inr pw \<and> length c = 16 * max 1 ((length pw + 15) div 16)"
  let ?d = "concat (decrypt_chunks md5 secret (bytes16 a) (chunks 16 c))"
  have dvd: "16 dvd length c" using r by simp
  have "bytes_str (pop_zeros ?d) = pw"
    using r by (auto simp: decrypt_user_password_def from_utf8_def Let_def split: if_splits)
  then have "pop_zeros ?d = str_bytes pw" by (metis str_bytes_bytes_str)
  then obtain n where d: "?d = str_bytes pw @ replicate n 0" using pop_zeros_pad [of ?d] by auto
  moreover have "length ?d = length c" by (rule up.length_buffer_dec [OF dvd])
  ultimately have "length (str_bytes pw @ replicate n 0) = length (pad_password (str_bytes pw))"
    using r by (simp add: length_pad_password)
  then have "?d = pad_password (str_bytes pw)" by (simp add: d pad_password_eq)
  then show "encrypt_user_password md5 pw secret a = c"
    using up.buffer_enc_dec [OF dvd, of md5 secret "bytes16 a"] by (simp add: encrypt_user_password_def)
qed

theorem user_password_hiding_exact_witness:
  "decrypt_user_password (\<lambda>bs. arr16_of (take 16 bs))
     (encrypt_user_password (\<lambda>bs. arr16_of (take 16 bs)) ''hunter2'' [9, 8] (arr16_of [3, 1])) [9, 8] (arr16_of [3, 1])
     = Inr ''hunter2''"
proof -
  have "valid_utf8 (str_bytes ''hunter2'')"
    by (rule valid_utf8_ascii) (simp add: str_bytes_def of_char_def)
  then show ?thesis
    using user_password_hiding_exact [of "''hunter2''" "\<lambda>bs. arr16_of (take 16 bs)" "[9, 8]" "arr16_of [3, 1]"
        "encrypt_user_password (\<lambda>bs. arr16_of (take 16 bs)) ''hunter2'' [9, 8] (arr16_of [3, 1])"]
    by simp
qed

text \<open>
  Message-Authenticator: writing sixteen octets into the attribute's place verifies exactly
  when they are the HMAC of the packet with that place zeroed, whatever stood there before.
\<close>

theorem message_authenticator_verifies:
  assumes "off + 16 \<le> length pkt"
  shows "verify_message_authenticator hmac_md5 (put16 off (bytes16 mac) pkt) secret off \<longleftrightarrow>
     mac = calculate_message_authenticator hmac_md5 (put16 off (replicate 16 0) pkt) secret"
proof -
  have "put16 off z (put16 off (bytes16 mac) pkt) = put16 off z pkt" for z
    using assms by (simp add: put16_def)
  moreover have "take 16 (drop off (put16 off (bytes16 mac) pkt)) = bytes16 mac"
    "\<not> length (put16 off (bytes16 mac) pkt) < off + 16"
    using assms by (simp_all add: put16_def)
  ultimately show ?thesis
    by (auto simp: verify_message_authenticator_def calculate_message_authenticator_def arr16_eq_iff Let_def)
qed

theorem message_authenticator_verifies_witness:
  "verify_message_authenticator (\<lambda>k m. arr16_of (take 8 k @ take 8 m))
     (put16 2 (bytes16 (arr16_of [5, 80, 18])) (replicate 20 80)) [5] 2 \<longleftrightarrow>
   arr16_of [5, 80, 18] = calculate_message_authenticator (\<lambda>k m. arr16_of (take 8 k @ take 8 m))
     (put16 2 (replicate 16 0) (replicate 20 80)) [5]"
  by (rule message_authenticator_verifies) simp

text \<open>
  CHAP: an attribute value is accepted for a password and challenge exactly when it is an
  identifier octet followed by the MD5 of identifier, password and challenge.
\<close>

theorem chap_accepts_exactly:
  "(\<exists>r. ChapResponse_from_bytes bs = Inr r \<and> verify_chap_response md5 r password c) \<longleftrightarrow>
     (\<exists>ident. bs = [ident] @ bytes16 (compute_chap_response md5 ident password (ChapChallenge_as_bytes c)))"
proof
  assume "\<exists>r. ChapResponse_from_bytes bs = Inr r \<and> verify_chap_response md5 r password c"
  then have len: "length bs = 17"
    and r: "arr16_of (drop 1 bs) = compute_chap_response md5 (bs ! 0) password (ChapChallenge_as_bytes c)"
    by (auto simp: ChapResponse_from_bytes_def verify_chap_response_def split: if_splits)
  then obtain i rest where bs: "bs = i # rest" by (cases bs) auto
  then have "bytes16 (arr16_of rest) = rest" using len by simp
  with r bs have "bs = [i] @ bytes16 (compute_chap_response md5 i password (ChapChallenge_as_bytes c))" by simp
  then show "\<exists>ident. bs = [ident] @ bytes16 (compute_chap_response md5 ident password (ChapChallenge_as_bytes c))" ..
next
  assume "\<exists>ident. bs = [ident] @ bytes16 (compute_chap_response md5 ident password (ChapChallenge_as_bytes c))"
  then show "\<exists>r. ChapResponse_from_bytes bs = Inr r \<and> verify_chap_response md5 r password c"
    by (auto simp: ChapResponse_from_bytes_def verify_chap_response_def)
qed

end
