(* ===== verification/Salted_Keys.thy ===== *)
theory Salted_Keys
  imports Vendor_Specific
begin

text \<open>
  Salt-encrypted attributes: the MS-MPPE keys of \<open>mppe.rs\<close> and Tunnel-Password of
  \<open>tunnel_password.rs\<close>. Both run the same MD5 chain, so both interpret \<open>xor_chain\<close>, with the
  keystream block as chaining state. MD5 is the parameter \<open>md5\<close>; the random base of
  \<open>generate_salts\<close> is the parameter \<open>rnd\<close>, any \<open>u16\<close>.
\<close>

section \<open>MS-MPPE keys\<close>

type_synonym salt = "u8 \<times> u8"

definition MICROSOFT_VENDOR_ID :: u32 where
  "MICROSOFT_VENDOR_ID = 311"

definition MS_MPPE_SEND_KEY :: u8 where
  "MS_MPPE_SEND_KEY = 16"

definition MS_MPPE_RECV_KEY :: u8 where
  "MS_MPPE_RECV_KEY = 17"

definition SALT_LENGTH :: nat where
  "SALT_LENGTH = 2"

definition KEY_LENGTH_FIELD :: nat where
  "KEY_LENGTH_FIELD = 1"

definition BLOCK :: nat where
  "BLOCK = 16"

definition MAX_KEY_LENGTH :: nat where
  "MAX_KEY_LENGTH = ((VendorSpecific_MAX_VALUE_LENGTH - SALT_LENGTH) div BLOCK) * BLOCK - KEY_LENGTH_FIELD"

definition MPPE_KEY_LENGTH :: nat where
  "MPPE_KEY_LENGTH = 32"

definition MIN_MSK_LENGTH :: nat where
  "MIN_MSK_LENGTH = 2 * MPPE_KEY_LENGTH"

datatype MppeError =
    MppeKeyTooLong nat
  | MppeInvalidSalt u16
  | MppeInvalidLength nat
  | MppeInvalidKeyLength nat nat
  | MskTooShort nat
  | MppeAttribute PacketError

definition salt_bytes :: "salt \<Rightarrow> bytes" where
  "salt_bytes = (\<lambda>(a, b). [a, b])"

definition md5_chain :: "(bytes \<Rightarrow> arr16) \<Rightarrow> bytes \<Rightarrow> arr16 \<Rightarrow> salt \<Rightarrow> arr16" where
  "md5_chain md5 secret request_authenticator s = md5 (secret @ bytes16 request_authenticator @ salt_bytes s)"

definition md5_next :: "(bytes \<Rightarrow> arr16) \<Rightarrow> bytes \<Rightarrow> bytes \<Rightarrow> arr16" where
  "md5_next md5 secret prev_cipher = md5 (secret @ prev_cipher)"

text \<open>
  The block loops. \<open>b\<close> is the keystream block of the current block; after a block it is
  recomputed from the ciphertext just written (read). The buffers are whole numbers of blocks,
  so \<open>as_chunks\<close> leaves no remainder.
\<close>

fun mppe_encrypt_blocks :: "(bytes \<Rightarrow> arr16) \<Rightarrow> bytes \<Rightarrow> arr16 \<Rightarrow> bytes list \<Rightarrow> bytes list" where
  "mppe_encrypt_blocks md5 secret b [] = []"
| "mppe_encrypt_blocks md5 secret b (block # rest) =
     (let c = xor_block block (bytes16 b) in c # mppe_encrypt_blocks md5 secret (md5_next md5 secret c) rest)"

fun mppe_decrypt_blocks :: "(bytes \<Rightarrow> arr16) \<Rightarrow> bytes \<Rightarrow> arr16 \<Rightarrow> bytes list \<Rightarrow> bytes list" where
  "mppe_decrypt_blocks md5 secret b [] = []"
| "mppe_decrypt_blocks md5 secret b (block # rest) =
     xor_block block (bytes16 b) # mppe_decrypt_blocks md5 secret (md5_next md5 secret block) rest"

definition div_ceil :: "nat \<Rightarrow> nat \<Rightarrow> nat" where
  "div_ceil n d = (n + (d - 1)) div d"

definition encrypt_key :: "(bytes \<Rightarrow> arr16) \<Rightarrow> bytes \<Rightarrow> bytes \<Rightarrow> arr16 \<Rightarrow> salt \<Rightarrow> MppeError + bytes" where
  "encrypt_key md5 key secret request_authenticator s =
     (if length key > MAX_KEY_LENGTH then Inl (MppeKeyTooLong (length key))
      else if fst s AND 0x80 = 0 then Inl (MppeInvalidSalt (u16_from_be_bytes (fst s) (snd s)))
      else let plaintext = [as_u8 (length key)] @ key;
               plaintext = resize (div_ceil (length plaintext) BLOCK * BLOCK) plaintext;
               b = md5_chain md5 secret request_authenticator s
           in Inr (salt_bytes s @ concat (mppe_encrypt_blocks md5 secret b (chunks BLOCK plaintext))))"

definition decrypt_key :: "(bytes \<Rightarrow> arr16) \<Rightarrow> bytes \<Rightarrow> bytes \<Rightarrow> arr16 \<Rightarrow> MppeError + bytes" where
  "decrypt_key md5 encrypted secret request_authenticator =
     (let cipher_len = length encrypted - SALT_LENGTH
      in if length encrypted < SALT_LENGTH + BLOCK \<or> \<not> BLOCK dvd cipher_len
         then Inl (MppeInvalidLength (length encrypted))
         else let s = (encrypted ! 0, encrypted ! 1)
           in if fst s AND 0x80 = 0 then Inl (MppeInvalidSalt (u16_from_be_bytes (fst s) (snd s)))
              else let cipher = drop SALT_LENGTH encrypted;
                       b = md5_chain md5 secret request_authenticator s;
                       plaintext = concat (mppe_decrypt_blocks md5 secret b (chunks BLOCK cipher));
                       declared = unat (plaintext ! 0);
                       available = length plaintext - KEY_LENGTH_FIELD
                in if declared > available then Inl (MppeInvalidKeyLength declared available)
                   else Inr (drop KEY_LENGTH_FIELD (take (KEY_LENGTH_FIELD + declared) plaintext)))"

definition encrypt_key_attribute ::
    "(bytes \<Rightarrow> arr16) \<Rightarrow> u8 \<Rightarrow> bytes \<Rightarrow> bytes \<Rightarrow> arr16 \<Rightarrow> salt \<Rightarrow> MppeError + Attribute" where
  "encrypt_key_attribute md5 vt key secret request_authenticator s =
     res_bind (encrypt_key md5 key secret request_authenticator s) (\<lambda>encrypted.
     res_bind (map_err MppeAttribute (VendorSpecific_new MICROSOFT_VENDOR_ID vt encrypted)) (\<lambda>v.
     map_err MppeAttribute (to_attribute v)))"

definition generate_salts :: "u16 \<Rightarrow> nat \<Rightarrow> salt list" where
  "generate_salts rnd count =
     (let base = rnd AND 0x7FFF
      in map (\<lambda>i. let w = 0x8000 OR ((base + word_of_nat i) AND 0x7FFF)
                   in (ucast (drop_bit 8 w), ucast w)) [0..<count])"

record MppeKeys =
  send_key :: bytes
  recv_key :: bytes

definition from_msk :: "bytes \<Rightarrow> MppeError + MppeKeys" where
  "from_msk msk =
     (if length msk < MIN_MSK_LENGTH then Inl (MskTooShort (length msk))
      else Inr \<lparr>send_key = drop MPPE_KEY_LENGTH (take MIN_MSK_LENGTH msk), recv_key = take MPPE_KEY_LENGTH msk\<rparr>)"

definition to_attributes_with_salts ::
    "(bytes \<Rightarrow> arr16) \<Rightarrow> MppeKeys \<Rightarrow> bytes \<Rightarrow> arr16 \<Rightarrow> salt \<Rightarrow> salt \<Rightarrow> MppeError + Attribute list" where
  "to_attributes_with_salts md5 keys secret request_authenticator send_salt recv_salt =
     (if send_salt = recv_salt then Inl (MppeInvalidSalt (u16_from_be_bytes (fst recv_salt) (snd recv_salt)))
      else res_bind (encrypt_key_attribute md5 MS_MPPE_SEND_KEY (send_key keys) secret request_authenticator send_salt) (\<lambda>s.
           res_bind (encrypt_key_attribute md5 MS_MPPE_RECV_KEY (recv_key keys) secret request_authenticator recv_salt) (\<lambda>r.
           Inr [s, r])))"

definition to_attributes :: "(bytes \<Rightarrow> arr16) \<Rightarrow> u16 \<Rightarrow> MppeKeys \<Rightarrow> bytes \<Rightarrow> arr16 \<Rightarrow> MppeError + Attribute list" where
  "to_attributes md5 rnd keys secret request_authenticator =
     (let salts = generate_salts rnd 2
      in to_attributes_with_salts md5 keys secret request_authenticator (salts ! 0) (salts ! 1))"

definition from_packet :: "(bytes \<Rightarrow> arr16) \<Rightarrow> Packet \<Rightarrow> bytes \<Rightarrow> arr16 \<Rightarrow> MppeError + MppeKeys option" where
  "from_packet md5 p secret request_authenticator =
     (case (find_vendor_attributes p MICROSOFT_VENDOR_ID MS_MPPE_SEND_KEY,
            find_vendor_attributes p MICROSOFT_VENDOR_ID MS_MPPE_RECV_KEY) of
        ([], []) \<Rightarrow> Inr None
      | (s # _, r # _) \<Rightarrow>
          res_bind (decrypt_key md5 (vendor_value s) secret request_authenticator) (\<lambda>sk.
          res_bind (decrypt_key md5 (vendor_value r) secret request_authenticator) (\<lambda>rk.
          Inr (Some \<lparr>send_key = sk, recv_key = rk\<rparr>)))
      | (_ # _, []) \<Rightarrow> Inl (MppeAttribute (AttributeError ''MS-MPPE-Send-Key present without MS-MPPE-Recv-Key''))
      | ([], _ # _) \<Rightarrow> Inl (MppeAttribute (AttributeError ''MS-MPPE-Recv-Key present without MS-MPPE-Send-Key'')))"

section \<open>Tunnel-Password\<close>

definition TAG_LENGTH :: nat where
  "TAG_LENGTH = 1"

definition MAX_TAG :: u8 where
  "MAX_TAG = 0x1F"

definition DATA_LENGTH_FIELD :: nat where
  "DATA_LENGTH_FIELD = 1"

definition MAX_PASSWORD_LENGTH :: nat where
  "MAX_PASSWORD_LENGTH = ((Attribute_MAX_VALUE_LENGTH - TAG_LENGTH - SALT_LENGTH) div BLOCK) * BLOCK - DATA_LENGTH_FIELD"

datatype TunnelPasswordError =
    PasswordTooLong nat
  | InvalidTag u8
  | TunnelInvalidSalt u16
  | TunnelInvalidLength nat
  | InvalidDataLength nat nat
  | WrongAttributeType u8
  | TunnelAttribute PacketError

fun tunnel_encrypt_blocks :: "(bytes \<Rightarrow> arr16) \<Rightarrow> bytes \<Rightarrow> arr16 \<Rightarrow> bytes list \<Rightarrow> bytes list" where
  "tunnel_encrypt_blocks md5 secret b [] = []"
| "tunnel_encrypt_blocks md5 secret b (block # rest) =
     (let c = xor_block block (bytes16 b) in c # tunnel_encrypt_blocks md5 secret (md5_next md5 secret c) rest)"

fun tunnel_decrypt_blocks :: "(bytes \<Rightarrow> arr16) \<Rightarrow> bytes \<Rightarrow> arr16 \<Rightarrow> bytes list \<Rightarrow> bytes list" where
  "tunnel_decrypt_blocks md5 secret b [] = []"
| "tunnel_decrypt_blocks md5 secret b (block # rest) =
     xor_block block (bytes16 b) # tunnel_decrypt_blocks md5 secret (md5_next md5 secret block) rest"

definition TunnelPassword_encrypt ::
    "(bytes \<Rightarrow> arr16) \<Rightarrow> u8 \<Rightarrow> bytes \<Rightarrow> bytes \<Rightarrow> arr16 \<Rightarrow> salt \<Rightarrow> TunnelPasswordError + bytes" where
  "TunnelPassword_encrypt md5 tag password secret request_authenticator s =
     (if tag > MAX_TAG then Inl (InvalidTag tag)
      else if length password > MAX_PASSWORD_LENGTH then Inl (PasswordTooLong (length password))
      else if fst s AND 0x80 = 0 then Inl (TunnelInvalidSalt (u16_from_be_bytes (fst s) (snd s)))
      else let padded = div_ceil (DATA_LENGTH_FIELD + length password) BLOCK * BLOCK;
               plaintext = resize padded ([as_u8 (length password)] @ password);
               b = md5_chain md5 secret request_authenticator s
           in Inr ([tag] @ salt_bytes s @ concat (tunnel_encrypt_blocks md5 secret b (chunks BLOCK plaintext))))"

definition TunnelPassword_decrypt ::
    "(bytes \<Rightarrow> arr16) \<Rightarrow> bytes \<Rightarrow> bytes \<Rightarrow> arr16 \<Rightarrow> TunnelPasswordError + (u8 \<times> bytes)" where
  "TunnelPassword_decrypt md5 value secret request_authenticator =
     (let HEADER = TAG_LENGTH + SALT_LENGTH;
          cipher_len = length value - HEADER
      in if length value < HEADER + BLOCK \<or> \<not> BLOCK dvd cipher_len then Inl (TunnelInvalidLength (length value))
         else let tag = value ! 0
           in if tag > MAX_TAG then Inl (InvalidTag tag)
              else let s = (value ! 1, value ! 2)
                in if fst s AND 0x80 = 0 then Inl (TunnelInvalidSalt (u16_from_be_bytes (fst s) (snd s)))
                   else let cipher = drop HEADER value;
                            b = md5_chain md5 secret request_authenticator s;
                            plaintext = concat (tunnel_decrypt_blocks md5 secret b (chunks BLOCK cipher));
                            declared = unat (plaintext ! 0);
                            available = length plaintext - DATA_LENGTH_FIELD
                     in if declared > available then Inl (InvalidDataLength declared available)
                        else Inr (tag, drop DATA_LENGTH_FIELD (take (DATA_LENGTH_FIELD + declared) plaintext)))"

record TunnelPassword =
  tunnel_tag :: u8
  tunnel_password :: bytes

definition TunnelPassword_to_attribute_with_salt ::
    "(bytes \<Rightarrow> arr16) \<Rightarrow> TunnelPassword \<Rightarrow> bytes \<Rightarrow> arr16 \<Rightarrow> salt \<Rightarrow> TunnelPasswordError + Attribute" where
  "TunnelPassword_to_attribute_with_salt md5 tp secret request_authenticator s =
     res_bind (TunnelPassword_encrypt md5 (tunnel_tag tp) (tunnel_password tp) secret request_authenticator s) (\<lambda>value.
     map_err TunnelAttribute (Attribute_new (AttributeType_as_u8 TunnelPassword) value))"

definition TunnelPassword_to_attribute ::
    "(bytes \<Rightarrow> arr16) \<Rightarrow> u16 \<Rightarrow> TunnelPassword \<Rightarrow> bytes \<Rightarrow> arr16 \<Rightarrow> TunnelPasswordError + Attribute" where
  "TunnelPassword_to_attribute md5 rnd tp secret request_authenticator =
     TunnelPassword_to_attribute_with_salt md5 tp secret request_authenticator (generate_salts rnd 1 ! 0)"

definition TunnelPassword_from_attribute ::
    "(bytes \<Rightarrow> arr16) \<Rightarrow> Attribute \<Rightarrow> bytes \<Rightarrow> arr16 \<Rightarrow> TunnelPasswordError + TunnelPassword" where
  "TunnelPassword_from_attribute md5 attribute secret request_authenticator =
     (if attr_type attribute \<noteq> AttributeType_as_u8 TunnelPassword
      then Inl (WrongAttributeType (attr_type attribute))
      else res_bind (TunnelPassword_decrypt md5 (attr_value attribute) secret request_authenticator) (\<lambda>(tag, password).
        Inr \<lparr>tunnel_tag = tag, tunnel_password = password\<rparr>))"

lemmas salted_consts = SALT_LENGTH_def KEY_LENGTH_FIELD_def BLOCK_def MAX_KEY_LENGTH_def TAG_LENGTH_def
  DATA_LENGTH_FIELD_def MAX_PASSWORD_LENGTH_def MAX_TAG_def vsa_consts attr_consts

section \<open>The two ciphers\<close>

interpretation mppe: xor_chain bytes16 "md5_next md5 secret" "mppe_encrypt_blocks md5 secret" "mppe_decrypt_blocks md5 secret"
  for md5 secret
  by unfold_locales (simp_all add: Let_def)

interpretation tunnel: xor_chain bytes16 "md5_next md5 secret" "tunnel_encrypt_blocks md5 secret" "tunnel_decrypt_blocks md5 secret"
  for md5 secret
  by unfold_locales (simp_all add: Let_def)

text \<open>The plaintext both encrypt: the length octet, the key, zeros up to a whole block.\<close>

definition length_prefixed :: "bytes \<Rightarrow> bytes" where
  "length_prefixed key = resize (16 * ((length key + 16) div 16)) (as_u8 (length key) # key)"

lemma length_length_prefixed [simp]: "length (length_prefixed key) = 16 * ((length key + 16) div 16)"
  by (simp add: length_prefixed_def)

lemma length_prefixed_room: "length key + 1 \<le> 16 * ((length key + 16) div 16)"
proof -
  have "length key + 1 + 15 = length key + 16" by simp
  with round_up_16 [of "length key + 1"] show ?thesis by (metis le_add1)
qed

lemma length_prefixed_eq:
  "length_prefixed key = as_u8 (length key) # key @ replicate (16 * ((length key + 16) div 16) - (length key + 1)) 0"
  using length_prefixed_room [of key] by (simp add: length_prefixed_def resize_grow)

lemma dvd_length_prefixed [simp]: "16 dvd length (length_prefixed key)"
  by simp

lemma length_prefixed_ge [simp]: "16 \<le> length (length_prefixed key)"
  by (simp add: div_add_self2)

lemma length_prefixed_read:
  "length key \<le> 239 \<Longrightarrow> unat (length_prefixed key ! 0) = length key \<and>
     drop 1 (take (1 + length key) (length_prefixed key)) = key \<and> length key \<le> length (length_prefixed key) - 1"
  using length_prefixed_room [of key] by (simp add: length_prefixed_eq)

lemma encrypt_key_Inr_iff [res_simps]:
  "encrypt_key md5 key secret ra s = Inr enc \<longleftrightarrow> length key \<le> 239 \<and> fst s AND 0x80 \<noteq> 0 \<and>
     enc = salt_bytes s @ concat (mppe_encrypt_blocks md5 secret (md5_chain md5 secret ra s) (chunks 16 (length_prefixed key)))"
  by (auto simp: encrypt_key_def salted_consts Let_def length_prefixed_def div_ceil_def ac_simps)

lemma decrypt_encrypt_key:
  assumes "encrypt_key md5 key secret ra s = Inr enc"
  shows "decrypt_key md5 enc secret ra = Inr key \<and> length enc = 2 + 16 * ((length key + 16) div 16)"
proof -
  let ?b = "md5_chain md5 secret ra s"
  let ?c = "concat (mppe_encrypt_blocks md5 secret ?b (chunks 16 (length_prefixed key)))"
  obtain s0 s1 where s: "s = (s0, s1)" by (cases s)
  have len: "length key \<le> 239" and enc: "enc = s0 # s1 # ?c" and msb: "fst s AND 0x80 \<noteq> 0"
    using assms by (auto simp: res_simps s salt_bytes_def)
  have lc: "length ?c = 16 * ((length key + 16) div 16)"
    using mppe.length_buffer_enc [OF dvd_length_prefixed, of md5 secret ?b key] by simp
  have "concat (mppe_decrypt_blocks md5 secret ?b (chunks 16 ?c)) = length_prefixed key"
    by (rule mppe.buffer_dec_enc) simp
  moreover have "16 \<le> length ?c" using length_prefixed_ge [of key] lc by simp
  ultimately show ?thesis
    using length_prefixed_read [OF len] msb lc
    by (simp add: decrypt_key_def enc Let_def salted_consts flip: s)
qed

lemma encrypt_tunnel_Inr_iff [res_simps]:
  "TunnelPassword_encrypt md5 tag pw secret ra s = Inr enc \<longleftrightarrow> tag \<le> 0x1F \<and> length pw \<le> 239 \<and> fst s AND 0x80 \<noteq> 0 \<and>
     enc = [tag] @ salt_bytes s @ concat (tunnel_encrypt_blocks md5 secret (md5_chain md5 secret ra s) (chunks 16 (length_prefixed pw)))"
  by (auto simp: TunnelPassword_encrypt_def salted_consts Let_def length_prefixed_def div_ceil_def ac_simps not_less)

lemma decrypt_encrypt_tunnel:
  assumes "TunnelPassword_encrypt md5 tag pw secret ra s = Inr enc"
  shows "TunnelPassword_decrypt md5 enc secret ra = Inr (tag, pw) \<and> length enc = 3 + 16 * ((length pw + 16) div 16)"
proof -
  let ?b = "md5_chain md5 secret ra s"
  let ?c = "concat (tunnel_encrypt_blocks md5 secret ?b (chunks 16 (length_prefixed pw)))"
  obtain s0 s1 where s: "s = (s0, s1)" by (cases s)
  have len: "length pw \<le> 239" and tag: "tag \<le> 0x1F" and enc: "enc = tag # s0 # s1 # ?c" and msb: "fst s AND 0x80 \<noteq> 0"
    using assms by (auto simp: res_simps s salt_bytes_def)
  have lc: "length ?c = 16 * ((length pw + 16) div 16)"
    using tunnel.length_buffer_enc [OF dvd_length_prefixed, of md5 secret ?b pw] by simp
  have "concat (tunnel_decrypt_blocks md5 secret ?b (chunks 16 ?c)) = length_prefixed pw"
    by (rule tunnel.buffer_dec_enc) simp
  moreover have "16 \<le> length ?c" using length_prefixed_ge [of pw] lc by simp
  ultimately show ?thesis
    using length_prefixed_read [OF len] msb lc tag
    by (simp add: TunnelPassword_decrypt_def enc Let_def salted_consts not_less numeral_2_eq_2 flip: s)
qed

text \<open>What a value of limited length can decrypt to, which is always within the limits for encrypting it.\<close>

lemma multiple_16_below: "16 dvd n \<Longrightarrow> n < 256 \<Longrightarrow> n \<le> 240" for n :: nat
  by (elim dvdE) simp

lemma decrypt_key_length:
  assumes "decrypt_key md5 enc secret ra = Inr key" "length enc \<le> 247"
  shows "length key \<le> 239"
proof -
  let ?c = "drop 2 enc"
  have dvd: "16 dvd length ?c"
    using assms(1) by (auto simp: decrypt_key_def salted_consts Let_def split: if_splits)
  have "length key \<le> length ?c - 1"
    using assms(1) mppe.length_buffer_dec [OF dvd]
    by (auto simp: decrypt_key_def salted_consts Let_def split: if_splits)
  moreover have "length ?c \<le> 240" using multiple_16_below [OF dvd] assms(2) by simp
  ultimately show ?thesis by linarith
qed

lemma decrypt_tunnel_bounds:
  assumes "TunnelPassword_decrypt md5 enc secret ra = Inr (tag, pw)" "length enc \<le> 253"
  shows "tag \<le> 0x1F \<and> length pw \<le> 239"
proof -
  let ?c = "drop 3 enc"
  have dvd: "16 dvd length ?c" and tag: "tag \<le> 0x1F"
    using assms(1) by (auto simp: TunnelPassword_decrypt_def salted_consts Let_def not_less numeral_3_eq_3 split: if_splits)
  have "length pw \<le> length ?c - 1"
    using assms(1) tunnel.length_buffer_dec [OF dvd]
    by (auto simp: TunnelPassword_decrypt_def salted_consts Let_def numeral_3_eq_3 split: if_splits)
  moreover have "length ?c \<le> 240" using multiple_16_below [OF dvd] assms(2) by simp
  ultimately show ?thesis using tag by linarith
qed

section \<open>Salts\<close>

definition salt_word :: "u16 \<Rightarrow> nat \<Rightarrow> u16" where
  "salt_word base i = 0x8000 OR ((base + word_of_nat i) AND 0x7FFF)"

lemma generate_salts_eq:
  "generate_salts rnd n = map (\<lambda>i. (ucast (drop_bit 8 (salt_word (rnd AND 0x7FFF) i)), ucast (salt_word (rnd AND 0x7FFF) i))) [0..<n]"
  by (simp add: generate_salts_def salt_word_def Let_def)

lemma bit7_imp: "bit (x :: u8) 7 \<Longrightarrow> x AND 0x80 \<noteq> 0"
proof
  assume "bit x 7" "x AND 0x80 = 0"
  then have "\<not> bit (x AND 0x80) 7" by simp
  with \<open>bit x 7\<close> show False by (simp add: bit_and_iff)
qed

lemma salt_word_msb: "(ucast (drop_bit 8 (salt_word b i)) :: u8) AND 0x80 \<noteq> 0"
  by (rule bit7_imp) (simp add: salt_word_def bit_simps)

lemma mask15: "(w :: u16) AND 0x7FFF = take_bit 15 w"
  by (simp add: take_bit_eq_mask mask_eq_exp_minus_1)

lemma unat_mask15: "unat ((w :: u16) AND 0x7FFF) = unat w mod 32768"
  unfolding mask15 unsigned_take_bit_eq by (simp add: take_bit_eq_mod)

lemma unat_salt_word: "i < 32768 \<Longrightarrow> unat (salt_word b i AND 0x7FFF) = (unat b + i) mod 32768"
proof -
  assume i: "i < 32768"
  have "salt_word b i AND 0x7FFF = (b + word_of_nat i) AND 0x7FFF"
    unfolding salt_word_def by (rule bit_word_eqI) (auto simp: bit_simps mask15)
  then have "unat (salt_word b i AND 0x7FFF) = unat (b + word_of_nat i) mod 32768"
    by (simp only: unat_mask15)
  also have "\<dots> = ((unat b + i) mod 65536) mod 32768"
    using i by (simp add: unat_word_ariths unat_of_nat)
  also have "\<dots> = (unat b + i) mod 32768" by (simp add: mod_mod_cancel)
  finally show ?thesis .
qed

lemma salt_word_inj: "inj_on (salt_word b) {..<32768}"
proof (rule linorder_inj_onI')
  fix i j :: nat
  assume ij: "i \<in> {..<32768}" "j \<in> {..<32768}" "i < j"
  show "salt_word b i \<noteq> salt_word b j"
  proof
    assume "salt_word b i = salt_word b j"
    then have "(unat b + j) mod 32768 = (unat b + i) mod 32768"
      using ij unat_salt_word [of i b] unat_salt_word [of j b] by simp
    then have "32768 dvd j - i" using ij by (simp add: mod_eq_dvd_iff_nat)
    with ij show False by (auto dest: dvd_imp_le)
  qed
qed

lemma generate_salts_distinct: "n \<le> 32768 \<Longrightarrow> distinct (generate_salts rnd n)"
proof -
  assume n: "n \<le> 32768"
  let ?w = "salt_word (rnd AND 0x7FFF)"
  have "inj_on (\<lambda>i. (ucast (drop_bit 8 (?w i)) :: u8, ucast (?w i) :: u8)) {0..<n}"
  proof (rule inj_onI)
    fix i j
    assume ij: "i \<in> {0..<n}" "j \<in> {0..<n}"
      and "(ucast (drop_bit 8 (?w i)) :: u8, ucast (?w i) :: u8) = (ucast (drop_bit 8 (?w j)), ucast (?w j))"
    then have "?w i = ?w j" by (metis prod.inject u16_from_to_be_bytes)
    with ij n show "i = j" by (auto dest: inj_onD [OF salt_word_inj])
  qed
  then show ?thesis by (simp add: generate_salts_eq distinct_map)
qed

lemma generate_salts_msb: "s \<in> set (generate_salts rnd n) \<Longrightarrow> fst s AND 0x80 \<noteq> 0"
  using salt_word_msb by (auto simp: generate_salts_eq)

lemma length_generate_salts [simp]: "length (generate_salts rnd n) = n"
  by (simp add: generate_salts_def Let_def)

section \<open>Attributes in a packet\<close>

lemma encrypt_key_attribute_exists:
  assumes "length key \<le> 239" "fst s AND 0x80 \<noteq> 0"
  shows "\<exists>v a. encrypt_key_attribute md5 vt key secret ra s = Inr a \<and> to_attribute v = Inr a \<and>
     vendor_id v = MICROSOFT_VENDOR_ID \<and> vendor_type v = vt \<and> decrypt_key md5 (vendor_value v) secret ra = Inr key
     \<and> take 2 (vendor_value v) = salt_bytes s"
proof -
  obtain enc where enc: "encrypt_key md5 key secret ra s = Inr enc"
    using assms by (simp add: encrypt_key_Inr_iff)
  note dec = decrypt_encrypt_key [OF enc]
  moreover have "(length key + 16) div 16 \<le> 15" using assms(1) by simp
  ultimately have len: "length enc \<le> 242" by simp
  let ?v = "\<lparr>vendor_id = MICROSOFT_VENDOR_ID, vendor_type = vt, vendor_value = enc\<rparr>"
  have v: "VendorSpecific_new MICROSOFT_VENDOR_ID vt enc = Inr ?v"
    using len by (simp add: VendorSpecific_new_def salted_consts)
  obtain a where a: "to_attribute ?v = Inr a"
    using len by (simp add: to_attribute_def Attribute_new_def encode_value_def attr_consts)
  have "take 2 enc = salt_bytes s" using enc by (cases s) (auto simp: encrypt_key_Inr_iff salt_bytes_def)
  then show ?thesis
    using enc v a dec by (intro exI [of _ ?v] exI [of _ a]) (simp add: encrypt_key_attribute_def)
qed

lemma find_vendor_attributes_two:
  assumes "to_attribute v1 = Inr a1" "to_attribute v2 = Inr a2"
  shows "find_vendor_attributes (p\<lparr>pkt_attributes := pkt_attributes p @ [a1, a2]\<rparr>) vid ty =
     find_vendor_attributes p vid ty @ filter (\<lambda>v. vendor_id v = vid \<and> vendor_type v = ty) [v1, v2]"
proof -
  have "p\<lparr>pkt_attributes := pkt_attributes p @ [a1, a2]\<rparr> = add_attribute (add_attribute p a1) a2"
    by (simp add: add_attribute_def)
  then show ?thesis
    by (simp add: find_vendor_attributes_snoc [OF assms(1)] find_vendor_attributes_snoc [OF assms(2)])
qed

lemma to_attributes_delivered:
  assumes "length (send_key keys) \<le> 239" "length (recv_key keys) \<le> 239"
    and "find_vendor_attributes p MICROSOFT_VENDOR_ID MS_MPPE_SEND_KEY = []"
    and "find_vendor_attributes p MICROSOFT_VENDOR_ID MS_MPPE_RECV_KEY = []"
  shows "\<exists>v1 a1 v2 a2. to_attributes md5 rnd keys secret ra = Inr [a1, a2]
     \<and> to_attribute v1 = Inr a1 \<and> to_attribute v2 = Inr a2
     \<and> vendor_id v1 = MICROSOFT_VENDOR_ID \<and> vendor_type v1 = MS_MPPE_SEND_KEY
     \<and> vendor_id v2 = MICROSOFT_VENDOR_ID \<and> vendor_type v2 = MS_MPPE_RECV_KEY
     \<and> take 2 (vendor_value v1) = salt_bytes (generate_salts rnd 2 ! 0) \<and> take 2 (vendor_value v2) = salt_bytes (generate_salts rnd 2 ! 1)
     \<and> from_packet md5 (p\<lparr>pkt_attributes := pkt_attributes p @ [a1, a2]\<rparr>) secret ra = Inr (Some keys)"
proof -
  let ?salts = "generate_salts rnd 2"
  have neq: "?salts ! 0 \<noteq> ?salts ! 1"
    using generate_salts_distinct [of 2 rnd] by (simp add: nth_eq_iff_index_eq)
  have salts: "fst (?salts ! i) AND 0x80 \<noteq> 0" if "i < 2" for i
    using generate_salts_msb [of "?salts ! i" rnd 2] that by simp
  obtain v1 a1 where 1: "encrypt_key_attribute md5 MS_MPPE_SEND_KEY (send_key keys) secret ra (?salts ! 0) = Inr a1"
      "to_attribute v1 = Inr a1" "vendor_id v1 = MICROSOFT_VENDOR_ID" "vendor_type v1 = MS_MPPE_SEND_KEY"
      "decrypt_key md5 (vendor_value v1) secret ra = Inr (send_key keys)" "take 2 (vendor_value v1) = salt_bytes (?salts ! 0)"
    using encrypt_key_attribute_exists [OF assms(1), of "?salts ! 0" md5 MS_MPPE_SEND_KEY secret ra] salts by auto
  obtain v2 a2 where 2: "encrypt_key_attribute md5 MS_MPPE_RECV_KEY (recv_key keys) secret ra (?salts ! 1) = Inr a2"
      "to_attribute v2 = Inr a2" "vendor_id v2 = MICROSOFT_VENDOR_ID" "vendor_type v2 = MS_MPPE_RECV_KEY"
      "decrypt_key md5 (vendor_value v2) secret ra = Inr (recv_key keys)" "take 2 (vendor_value v2) = salt_bytes (?salts ! 1)"
    using encrypt_key_attribute_exists [OF assms(2), of "?salts ! 1" md5 MS_MPPE_RECV_KEY secret ra] salts by auto
  have "to_attributes md5 rnd keys secret ra = Inr [a1, a2]"
    using 1 2 neq by (simp add: to_attributes_def to_attributes_with_salts_def Let_def)
  moreover have "from_packet md5 (p\<lparr>pkt_attributes := pkt_attributes p @ [a1, a2]\<rparr>) secret ra = Inr (Some keys)"
    using 1 2 assms(3,4)
    by (simp add: from_packet_def find_vendor_attributes_two [OF 1(2) 2(2)] MS_MPPE_SEND_KEY_def MS_MPPE_RECV_KEY_def)
  ultimately show ?thesis using 1 2 by blast
qed

lemma tunnel_attribute_cases:
  "case TunnelPassword_to_attribute_with_salt md5 tp secret ra s of
     Inr a \<Rightarrow> TunnelPassword_from_attribute md5 a secret ra = Inr tp \<and> attribute_ok a
   | Inl e \<Rightarrow> tunnel_tag tp > 0x1F \<or> length (tunnel_password tp) > 239 \<or> fst s AND 0x80 = 0"
proof (cases "TunnelPassword_encrypt md5 (tunnel_tag tp) (tunnel_password tp) secret ra s")
  case (Inl e)
  then show ?thesis
    by (auto simp: TunnelPassword_to_attribute_with_salt_def TunnelPassword_encrypt_def salted_consts Let_def split: if_splits)
next
  case (Inr enc)
  note dec = decrypt_encrypt_tunnel [OF Inr]
  have "length (tunnel_password tp) \<le> 239" using Inr by (simp add: encrypt_tunnel_Inr_iff)
  then have "(length (tunnel_password tp) + 16) div 16 \<le> 15" by simp
  with dec have "length enc \<le> 243" by simp
  then show ?thesis
    using Inr dec
    by (simp add: TunnelPassword_to_attribute_with_salt_def TunnelPassword_from_attribute_def Attribute_new_def
        attribute_ok_def attr_consts)
qed

section \<open>Properties\<close>

text \<open>
  MS-MPPE key encryption: every key of at most 239 octets encrypts under a salt with its
  most significant bit set, the result is the salt and whole blocks, and decrypting it under the
  same secret and Request Authenticator gives the key back.
\<close>

theorem mppe_key_roundtrip:
  assumes "length key \<le> MAX_KEY_LENGTH" "fst s AND 0x80 \<noteq> 0"
  shows "\<exists>enc. encrypt_key md5 key secret ra s = Inr enc \<and> decrypt_key md5 enc secret ra = Inr key
     \<and> length enc = 2 + 16 * ((length key + 16) div 16) \<and> take 2 enc = salt_bytes s"
proof -
  have "length key \<le> 239" using assms(1) by (simp add: salted_consts)
  then obtain enc where "encrypt_key md5 key secret ra s = Inr enc" "take 2 enc = salt_bytes s"
    using assms(2) by (cases s) (auto simp: encrypt_key_Inr_iff salt_bytes_def)
  then show ?thesis using decrypt_encrypt_key by blast
qed

theorem mppe_key_roundtrip_witness:
  "\<exists>enc. encrypt_key (\<lambda>m. arr16_of (take 16 m)) [1, 2, 3] [7] (arr16_of [4]) (0x80, 5) = Inr enc
     \<and> decrypt_key (\<lambda>m. arr16_of (take 16 m)) enc [7] (arr16_of [4]) = Inr [1, 2, 3]"
  using mppe_key_roundtrip [of "[1, 2, 3]" "(0x80, 5)" "\<lambda>m. arr16_of (take 16 m)" "[7]" "arr16_of [4]"]
  by (auto simp: salted_consts)

text \<open>
  C18. Delivering an MSK: from any MSK of 64 octets or more, whatever the random number, the two
  key attributes are built without error, and a packet that had no MS-MPPE key and gets them
  yields exactly the two keys, which are the first 64 octets of the MSK, receive key first.
\<close>

theorem mppe_msk_delivered:
  assumes "MIN_MSK_LENGTH \<le> length msk"
    and "find_vendor_attributes p MICROSOFT_VENDOR_ID MS_MPPE_SEND_KEY = []"
    and "find_vendor_attributes p MICROSOFT_VENDOR_ID MS_MPPE_RECV_KEY = []"
  shows "\<exists>keys as. from_msk msk = Inr keys \<and> to_attributes md5 rnd keys secret ra = Inr as
     \<and> from_packet md5 (p\<lparr>pkt_attributes := pkt_attributes p @ as\<rparr>) secret ra = Inr (Some keys)
     \<and> recv_key keys @ send_key keys = take 64 msk"
proof -
  let ?keys = "\<lparr>send_key = drop 32 (take 64 msk), recv_key = take 32 msk\<rparr>"
  have "from_msk msk = Inr ?keys" and len: "64 \<le> length msk"
    using assms(1) by (simp_all add: from_msk_def MIN_MSK_LENGTH_def MPPE_KEY_LENGTH_def)
  moreover have "recv_key ?keys @ send_key ?keys = take 64 msk"
    using append_take_drop_id [of 32 "take 64 msk"] len by (simp add: min_def)
  moreover have "\<exists>as. to_attributes md5 rnd ?keys secret ra = Inr as
      \<and> from_packet md5 (p\<lparr>pkt_attributes := pkt_attributes p @ as\<rparr>) secret ra = Inr (Some ?keys)"
    using to_attributes_delivered [OF _ _ assms(2,3), of ?keys md5 rnd secret ra] len by auto
  ultimately show ?thesis by blast
qed

theorem mppe_msk_delivered_witness:
  "\<exists>keys as. from_msk (replicate 64 9) = Inr keys \<and> to_attributes (\<lambda>m. arr16_of (take 16 m)) 77 keys [7] (arr16_of [4]) = Inr as
     \<and> from_packet (\<lambda>m. arr16_of (take 16 m)) (Packet_new AccessAccept 1 (arr16_of []) \<lparr>pkt_attributes := as\<rparr>) [7] (arr16_of [4])
         = Inr (Some keys)"
  using mppe_msk_delivered [of "replicate 64 9" "Packet_new AccessAccept 1 (arr16_of [])" "\<lambda>m. arr16_of (take 16 m)" 77 "[7]" "arr16_of [4]"]
  by (auto simp: MIN_MSK_LENGTH_def MPPE_KEY_LENGTH_def find_vendor_attributes_def Packet_new_def List.map_filter_def)

text \<open>
  Whatever the random base, the generated salts are as many as asked for, all have their
  most significant bit set, and are pairwise distinct up to the 32768 there are.
\<close>

theorem generate_salts_valid:
  assumes "count \<le> 32768"
  shows "length (generate_salts rnd count) = count \<and> distinct (generate_salts rnd count)
     \<and> list_all (\<lambda>s. fst s AND 0x80 \<noteq> 0) (generate_salts rnd count)"
  using generate_salts_distinct [OF assms] generate_salts_msb by (auto simp: list_all_iff)

theorem generate_salts_valid_witness: "distinct (generate_salts 0x7FFF 3)"
  using generate_salts_valid [of 3 "0x7FFF"] by simp

text \<open>
  Tunnel-Password: an attribute built from a password decrypts to the same tag and password,
  and building it fails for nothing but a tag above 0x1F, a password over 239 octets or a salt
  without its most significant bit.
\<close>

theorem tunnel_password_roundtrip:
  "case TunnelPassword_to_attribute_with_salt md5 tp secret ra s of
     Inr a \<Rightarrow> TunnelPassword_from_attribute md5 a secret ra = Inr tp \<and> attribute_ok a
   | Inl e \<Rightarrow> tunnel_tag tp > 0x1F \<or> length (tunnel_password tp) > 239 \<or> fst s AND 0x80 = 0"
  by (rule tunnel_attribute_cases)

end
