(* ===== verification/Accounting_Codes.thy ===== *)
theory Accounting_Codes
  imports Packet_Codec
begin

text \<open>
  The 32-bit enums of RADIUS accounting (\<open>accounting.rs\<close>) and dynamic authorization
  (\<open>dynauth.rs\<close>), each an interpretation of \<open>wire_enum\<close>. Constructors carry a prefix for the enum
  they belong to, since the program reuses names across enums.
\<close>

section \<open>Accounting\<close>

datatype AcctStatusType =
    StatusStart | StatusStop | StatusInterimUpdate | StatusAccountingOn | StatusAccountingOff

fun AcctStatusType_as_u32 :: "AcctStatusType \<Rightarrow> u32" where
  "AcctStatusType_as_u32 StatusStart = 1"
| "AcctStatusType_as_u32 StatusStop = 2"
| "AcctStatusType_as_u32 StatusInterimUpdate = 3"
| "AcctStatusType_as_u32 StatusAccountingOn = 7"
| "AcctStatusType_as_u32 StatusAccountingOff = 8"

definition AcctStatusType_from_u32 :: "u32 \<Rightarrow> AcctStatusType option" where
  "AcctStatusType_from_u32 v = map_of
    [(1, StatusStart), (2, StatusStop), (3, StatusInterimUpdate), (7, StatusAccountingOn),
     (8, StatusAccountingOff)] v"

lemma AcctStatusType_from_u32_as: "AcctStatusType_from_u32 (AcctStatusType_as_u32 e) = Some e"
  by (cases e) (simp_all add: AcctStatusType_from_u32_def)

lemma AcctStatusType_as_u32_of: "AcctStatusType_from_u32 v = Some e \<Longrightarrow> AcctStatusType_as_u32 e = v"
  unfolding AcctStatusType_from_u32_def by (drule map_of_SomeD) auto

interpretation AcctStatusType: wire_enum AcctStatusType_as_u32 AcctStatusType_from_u32
  by unfold_locales (simp_all add: AcctStatusType_from_u32_as AcctStatusType_as_u32_of)

fun is_session_status :: "AcctStatusType \<Rightarrow> bool" where
  "is_session_status StatusStart = True"
| "is_session_status StatusStop = True"
| "is_session_status StatusInterimUpdate = True"
| "is_session_status _ = False"

fun is_nas_status :: "AcctStatusType \<Rightarrow> bool" where
  "is_nas_status StatusAccountingOn = True"
| "is_nas_status StatusAccountingOff = True"
| "is_nas_status _ = False"

datatype AcctTerminateCause =
    CauseUserRequest | CauseLostCarrier | CauseLostService | CauseIdleTimeout |
    CauseSessionTimeout | CauseAdminReset | CauseAdminReboot | CausePortError | CauseNasError |
    CauseNasRequest | CauseNasReboot | CausePortUnneeded | CausePortPreempted |
    CausePortSuspended | CauseServiceUnavailable | CauseCallback | CauseUserError |
    CauseHostRequest

fun AcctTerminateCause_as_u32 :: "AcctTerminateCause \<Rightarrow> u32" where
  "AcctTerminateCause_as_u32 CauseUserRequest = 1"
| "AcctTerminateCause_as_u32 CauseLostCarrier = 2"
| "AcctTerminateCause_as_u32 CauseLostService = 3"
| "AcctTerminateCause_as_u32 CauseIdleTimeout = 4"
| "AcctTerminateCause_as_u32 CauseSessionTimeout = 5"
| "AcctTerminateCause_as_u32 CauseAdminReset = 6"
| "AcctTerminateCause_as_u32 CauseAdminReboot = 7"
| "AcctTerminateCause_as_u32 CausePortError = 8"
| "AcctTerminateCause_as_u32 CauseNasError = 9"
| "AcctTerminateCause_as_u32 CauseNasRequest = 10"
| "AcctTerminateCause_as_u32 CauseNasReboot = 11"
| "AcctTerminateCause_as_u32 CausePortUnneeded = 12"
| "AcctTerminateCause_as_u32 CausePortPreempted = 13"
| "AcctTerminateCause_as_u32 CausePortSuspended = 14"
| "AcctTerminateCause_as_u32 CauseServiceUnavailable = 15"
| "AcctTerminateCause_as_u32 CauseCallback = 16"
| "AcctTerminateCause_as_u32 CauseUserError = 17"
| "AcctTerminateCause_as_u32 CauseHostRequest = 18"

definition AcctTerminateCause_from_u32 :: "u32 \<Rightarrow> AcctTerminateCause option" where
  "AcctTerminateCause_from_u32 v = map_of
    [(1, CauseUserRequest), (2, CauseLostCarrier), (3, CauseLostService),
     (4, CauseIdleTimeout), (5, CauseSessionTimeout), (6, CauseAdminReset),
     (7, CauseAdminReboot), (8, CausePortError), (9, CauseNasError), (10, CauseNasRequest),
     (11, CauseNasReboot), (12, CausePortUnneeded), (13, CausePortPreempted),
     (14, CausePortSuspended), (15, CauseServiceUnavailable), (16, CauseCallback),
     (17, CauseUserError), (18, CauseHostRequest)] v"

lemma AcctTerminateCause_from_u32_as: "AcctTerminateCause_from_u32 (AcctTerminateCause_as_u32 e) = Some e"
  by (cases e) (simp_all add: AcctTerminateCause_from_u32_def)

lemma AcctTerminateCause_as_u32_of: "AcctTerminateCause_from_u32 v = Some e \<Longrightarrow> AcctTerminateCause_as_u32 e = v"
  unfolding AcctTerminateCause_from_u32_def by (drule map_of_SomeD) auto

interpretation AcctTerminateCause: wire_enum AcctTerminateCause_as_u32 AcctTerminateCause_from_u32
  by unfold_locales (simp_all add: AcctTerminateCause_from_u32_as AcctTerminateCause_as_u32_of)

datatype AcctAuthentic =
    AuthenticRadius | AuthenticLocal | AuthenticRemote

fun AcctAuthentic_as_u32 :: "AcctAuthentic \<Rightarrow> u32" where
  "AcctAuthentic_as_u32 AuthenticRadius = 1"
| "AcctAuthentic_as_u32 AuthenticLocal = 2"
| "AcctAuthentic_as_u32 AuthenticRemote = 3"

definition AcctAuthentic_from_u32 :: "u32 \<Rightarrow> AcctAuthentic option" where
  "AcctAuthentic_from_u32 v = map_of
    [(1, AuthenticRadius), (2, AuthenticLocal), (3, AuthenticRemote)] v"

lemma AcctAuthentic_from_u32_as: "AcctAuthentic_from_u32 (AcctAuthentic_as_u32 e) = Some e"
  by (cases e) (simp_all add: AcctAuthentic_from_u32_def)

lemma AcctAuthentic_as_u32_of: "AcctAuthentic_from_u32 v = Some e \<Longrightarrow> AcctAuthentic_as_u32 e = v"
  unfolding AcctAuthentic_from_u32_def by (drule map_of_SomeD) auto

interpretation AcctAuthentic: wire_enum AcctAuthentic_as_u32 AcctAuthentic_from_u32
  by unfold_locales (simp_all add: AcctAuthentic_from_u32_as AcctAuthentic_as_u32_of)

datatype AccountingError =
    MissingAttribute string
  | InvalidAttributeValue string string
  | InvalidStatusType u32
  | InvalidTerminateCause u32
  | SessionNotFound string
  | DuplicateSession string
  | SessionLimitExceeded string nat nat

section \<open>Dynamic authorization\<close>

datatype ErrorCause =
    ErrorResidualSessionContextRemoved | ErrorInvalidEapPacket | ErrorUnsupportedAttribute |
    ErrorMissingAttribute | ErrorNasIdentificationMismatch | ErrorInvalidRequest |
    ErrorUnsupportedService | ErrorUnsupportedExtension | ErrorInvalidAttributeValue |
    ErrorAdministrativelyProhibited | ErrorRequestNotRoutable | ErrorSessionContextNotFound |
    ErrorSessionContextNotRemovable | ErrorOtherProxyProcessingError |
    ErrorResourcesUnavailable | ErrorRequestInitiated | ErrorMultipleSessionSelectionUnsupported

fun ErrorCause_as_u32 :: "ErrorCause \<Rightarrow> u32" where
  "ErrorCause_as_u32 ErrorResidualSessionContextRemoved = 201"
| "ErrorCause_as_u32 ErrorInvalidEapPacket = 202"
| "ErrorCause_as_u32 ErrorUnsupportedAttribute = 401"
| "ErrorCause_as_u32 ErrorMissingAttribute = 402"
| "ErrorCause_as_u32 ErrorNasIdentificationMismatch = 403"
| "ErrorCause_as_u32 ErrorInvalidRequest = 404"
| "ErrorCause_as_u32 ErrorUnsupportedService = 405"
| "ErrorCause_as_u32 ErrorUnsupportedExtension = 406"
| "ErrorCause_as_u32 ErrorInvalidAttributeValue = 407"
| "ErrorCause_as_u32 ErrorAdministrativelyProhibited = 501"
| "ErrorCause_as_u32 ErrorRequestNotRoutable = 502"
| "ErrorCause_as_u32 ErrorSessionContextNotFound = 503"
| "ErrorCause_as_u32 ErrorSessionContextNotRemovable = 504"
| "ErrorCause_as_u32 ErrorOtherProxyProcessingError = 505"
| "ErrorCause_as_u32 ErrorResourcesUnavailable = 506"
| "ErrorCause_as_u32 ErrorRequestInitiated = 507"
| "ErrorCause_as_u32 ErrorMultipleSessionSelectionUnsupported = 508"

definition ErrorCause_from_u32 :: "u32 \<Rightarrow> ErrorCause option" where
  "ErrorCause_from_u32 v = map_of
    [(201, ErrorResidualSessionContextRemoved), (202, ErrorInvalidEapPacket),
     (401, ErrorUnsupportedAttribute), (402, ErrorMissingAttribute),
     (403, ErrorNasIdentificationMismatch), (404, ErrorInvalidRequest),
     (405, ErrorUnsupportedService), (406, ErrorUnsupportedExtension),
     (407, ErrorInvalidAttributeValue), (501, ErrorAdministrativelyProhibited),
     (502, ErrorRequestNotRoutable), (503, ErrorSessionContextNotFound),
     (504, ErrorSessionContextNotRemovable), (505, ErrorOtherProxyProcessingError),
     (506, ErrorResourcesUnavailable), (507, ErrorRequestInitiated),
     (508, ErrorMultipleSessionSelectionUnsupported)] v"

lemma ErrorCause_from_u32_as: "ErrorCause_from_u32 (ErrorCause_as_u32 e) = Some e"
  by (cases e) (simp_all add: ErrorCause_from_u32_def)

lemma ErrorCause_as_u32_of: "ErrorCause_from_u32 v = Some e \<Longrightarrow> ErrorCause_as_u32 e = v"
  unfolding ErrorCause_from_u32_def by (drule map_of_SomeD) auto

interpretation ErrorCause: wire_enum ErrorCause_as_u32 ErrorCause_from_u32
  by unfold_locales (simp_all add: ErrorCause_from_u32_as ErrorCause_as_u32_of)

lemma status_partition: "is_session_status t \<noteq> is_nas_status t"
  by (cases t) simp_all

end
