(* ===== verification/Known_Answers.thy ===== *)
theory Known_Answers
  imports Packet_Codec
begin

text \<open>
  The known-answer packets of \<open>kat.rs\<close>: the packets as the module builds them and the canonical
  octets it publishes for each, in hexadecimal. The properties evaluate the codec on them.
\<close>

definition KAT_AUTHENTICATOR :: arr16 where
  "KAT_AUTHENTICATOR = arr16_of (str_bytes (''RADIUS-KAT-VEC1'' @ [CHR 0x00]))"

definition VLAN_ACCESS_ACCEPT :: string where
  "VLAN_ACCESS_ACCEPT =
     ''020700255241444955532d4b41542d564543310040060100000d4106010000065105013432''"

definition FILTER_ID_ACCESS_ACCEPT :: string where
  "FILTER_ID_ACCESS_ACCEPT =
     ''020800245241444955532d4b41542d56454331000b1051756172616e74696e652d41434c''"

definition FRAGMENTED_EAP_ACCESS_REQUEST :: string where
  "FRAGMENTED_EAP_ACCESS_REQUEST =
     ''0109014b5241444955532d4b41542d56454331000107616c6963654fff000102030405060708090a0b0c0d0e'' @
     ''0f101112131415161718191a1b1c1d1e1f202122232425262728292a2b2c2d2e2f303132333435363738393a'' @
     ''3b3c3d3e3f404142434445464748494a4b4c4d4e4f505152535455565758595a5b5c5d5e5f60616263646566'' @
     ''6768696a6b6c6d6e6f707172737475767778797a7b7c7d7e7f808182838485868788898a8b8c8d8e8f909192'' @
     ''939495969798999a9b9c9d9e9fa0a1a2a3a4a5a6a7a8a9aaabacadaeafb0b1b2b3b4b5b6b7b8b9babbbcbdbe'' @
     ''bfc0c1c2c3c4c5c6c7c8c9cacbcccdcecfd0d1d2d3d4d5d6d7d8d9dadbdcdddedfe0e1e2e3e4e5e6e7e8e9ea'' @
     ''ebecedeeeff0f1f2f3f4f5f6f7f8f9fa00014f3102030405060708090a0b0c0d0e0f10111213141516171819'' @
     ''1a1b1c1d1e1f202122232425262728292a2b2c2d2e2f30''"

text \<open>\<open>unwrap\<close> of a result the code knows to be \<open>Ok\<close>.\<close>

definition vlan_access_accept :: Packet where
  "vlan_access_accept =
     (let p = Packet_new AccessAccept 0x07 KAT_AUTHENTICATOR;
          p = add_attribute p (projr (Attribute_new 64 [0x01, 0x00, 0x00, 0x0D]));
          p = add_attribute p (projr (Attribute_new 65 [0x01, 0x00, 0x00, 0x06]));
          tpg = [0x01] @ str_bytes ''42''
      in add_attribute p (projr (Attribute_new 81 tpg)))"

definition filter_id_access_accept :: Packet where
  "filter_id_access_accept =
     add_attribute (Packet_new AccessAccept 0x08 KAT_AUTHENTICATOR)
       (projr (Attribute_string (AttributeType_as_u8 FilterId) ''Quarantine-ACL''))"

definition fragmented_eap_access_request :: Packet where
  "fragmented_eap_access_request =
     (let p = Packet_new AccessRequest 0x09 KAT_AUTHENTICATOR;
          p = add_attribute p (projr (Attribute_string (AttributeType_as_u8 UserName) ''alice''));
          eap = map (\<lambda>i. as_u8 (i mod 251)) [0..<300]
      in foldl (\<lambda>p chunk. add_attribute p (projr (Attribute_new (AttributeType_as_u8 EapMessage) chunk))) p
           (chunks 253 eap))"

text \<open>Reading a hexadecimal string, two digits per octet.\<close>

definition hex_digit :: "char \<Rightarrow> u8" where
  "hex_digit c = (let n = of_char c in if n \<le> 57 then n - 48 else n - 87)"

fun hex_bytes :: "string \<Rightarrow> bytes" where
  "hex_bytes (a # b # s) = (16 * hex_digit a + hex_digit b) # hex_bytes s"
| "hex_bytes _ = []"

text \<open>The payload of the third packet, counted up in octets for the evaluation.\<close>

fun count_up :: "u8 \<Rightarrow> nat \<Rightarrow> bytes" where
  "count_up w 0 = []"
| "count_up w (Suc n) = w # count_up (w + 1) n"

lemma count_up_eq: "count_up (as_u8 k) n = map as_u8 [k..<k + n]"
proof (induction n arbitrary: k)
  case (Suc n)
  have "as_u8 k + 1 = as_u8 (Suc k)" by simp
  moreover have "[k..<k + Suc n] = k # [Suc k..<Suc k + n]" by (simp add: upt_conv_Cons del: upt_Suc)
  ultimately show ?case using Suc [of "Suc k"] by (simp only: count_up.simps list.map)
qed simp

lemma eap_payload_eq: "map (\<lambda>i. as_u8 (i mod 251)) [0..<300] = count_up 0 251 @ count_up 0 49"
proof -
  have "[0..<300] = [0..<251] @ map (\<lambda>i. i + 251) [0..<49]"
    using upt_add_eq_append [of 0 251 49] map_add_upt [of 251 49] by simp
  moreover have "map (\<lambda>i. as_u8 (i mod 251)) [0..<251] = map as_u8 [0..<251]"
    by (rule map_cong) auto
  moreover have "map (\<lambda>i. as_u8 ((i + 251) mod 251)) [0..<49] = map as_u8 [0..<49]"
    by (rule map_cong) auto
  ultimately show ?thesis
    using count_up_eq [of 0 251] count_up_eq [of 0 49] by (simp add: comp_def)
qed

section \<open>Properties\<close>

text \<open>
  Each known-answer packet encodes to exactly its published vector, and each vector decodes
  to exactly its packet.
\<close>

theorem known_answers_exact:
  "Packet_encode vlan_access_accept = Inr (hex_bytes VLAN_ACCESS_ACCEPT)
   \<and> Packet_encode filter_id_access_accept = Inr (hex_bytes FILTER_ID_ACCESS_ACCEPT)
   \<and> Packet_encode fragmented_eap_access_request = Inr (hex_bytes FRAGMENTED_EAP_ACCESS_REQUEST)
   \<and> Packet_decode (hex_bytes VLAN_ACCESS_ACCEPT) = Inr vlan_access_accept
   \<and> Packet_decode (hex_bytes FILTER_ID_ACCESS_ACCEPT) = Inr filter_id_access_accept
   \<and> Packet_decode (hex_bytes FRAGMENTED_EAP_ACCESS_REQUEST) = Inr fragmented_eap_access_request"
proof (intro conjI)
  show vlan: "Packet_encode vlan_access_accept = Inr (hex_bytes VLAN_ACCESS_ACCEPT)"
    by code_simp
  show filter: "Packet_encode filter_id_access_accept = Inr (hex_bytes FILTER_ID_ACCESS_ACCEPT)"
    by code_simp
  show eap: "Packet_encode fragmented_eap_access_request = Inr (hex_bytes FRAGMENTED_EAP_ACCESS_REQUEST)"
    unfolding fragmented_eap_access_request_def eap_payload_eq by code_simp
  show "Packet_decode (hex_bytes VLAN_ACCESS_ACCEPT) = Inr vlan_access_accept"
    using Packet_decode_bytes [of vlan_access_accept "[]"] vlan by (simp add: Packet_encode_Inr_iff)
  show "Packet_decode (hex_bytes FILTER_ID_ACCESS_ACCEPT) = Inr filter_id_access_accept"
    using Packet_decode_bytes [of filter_id_access_accept "[]"] filter by (simp add: Packet_encode_Inr_iff)
  show "Packet_decode (hex_bytes FRAGMENTED_EAP_ACCESS_REQUEST) = Inr fragmented_eap_access_request"
    using Packet_decode_bytes [of fragmented_eap_access_request "[]"] eap by (simp add: Packet_encode_Inr_iff)
qed

end
