(* ===== verification/Eap_Packet.thy ===== *)
theory Eap_Packet
  imports Packet_Codec
begin

text \<open>
  The EAP packet layer of \<open>eap.rs\<close>: codes, types, packets and their encoding, the EAP-MD5 method,
  and the transport of EAP packets in EAP-Message attributes (RFC 3579).
\<close>

section \<open>Codes and types\<close>

datatype EapCode =
    EapRequest | EapResponse | EapSuccess | EapFailure

fun EapCode_as_u8 :: "EapCode \<Rightarrow> u8" where
  "EapCode_as_u8 EapRequest = 1"
| "EapCode_as_u8 EapResponse = 2"
| "EapCode_as_u8 EapSuccess = 3"
| "EapCode_as_u8 EapFailure = 4"

definition EapCode_from_u8 :: "u8 \<Rightarrow> EapCode option" where
  "EapCode_from_u8 v = map_of
    [(1, EapRequest), (2, EapResponse), (3, EapSuccess), (4, EapFailure)] v"

lemma EapCode_from_u8_as: "EapCode_from_u8 (EapCode_as_u8 e) = Some e"
  by (cases e) (simp_all add: EapCode_from_u8_def)

lemma EapCode_as_u8_of: "EapCode_from_u8 v = Some e \<Longrightarrow> EapCode_as_u8 e = v"
  unfolding EapCode_from_u8_def by (drule map_of_SomeD) auto

interpretation EapCode: wire_enum EapCode_as_u8 EapCode_from_u8
  by unfold_locales (simp_all add: EapCode_from_u8_as EapCode_as_u8_of)

datatype EapType =
    EapIdentity | EapNotification | EapNak | EapMd5Challenge | EapOneTimePassword |
    EapGenericTokenCard | EapTls | EapTtls | EapPeap | EapMsChapV2 | EapTeap

fun EapType_as_u8 :: "EapType \<Rightarrow> u8" where
  "EapType_as_u8 EapIdentity = 1"
| "EapType_as_u8 EapNotification = 2"
| "EapType_as_u8 EapNak = 3"
| "EapType_as_u8 EapMd5Challenge = 4"
| "EapType_as_u8 EapOneTimePassword = 5"
| "EapType_as_u8 EapGenericTokenCard = 6"
| "EapType_as_u8 EapTls = 13"
| "EapType_as_u8 EapTtls = 21"
| "EapType_as_u8 EapPeap = 25"
| "EapType_as_u8 EapMsChapV2 = 26"
| "EapType_as_u8 EapTeap = 55"

definition EapType_from_u8 :: "u8 \<Rightarrow> EapType option" where
  "EapType_from_u8 v = map_of
    [(1, EapIdentity), (2, EapNotification), (3, EapNak), (4, EapMd5Challenge),
     (5, EapOneTimePassword), (6, EapGenericTokenCard), (13, EapTls), (21, EapTtls),
     (25, EapPeap), (26, EapMsChapV2), (55, EapTeap)] v"

lemma EapType_from_u8_as: "EapType_from_u8 (EapType_as_u8 e) = Some e"
  by (cases e) (simp_all add: EapType_from_u8_def)

lemma EapType_as_u8_of: "EapType_from_u8 v = Some e \<Longrightarrow> EapType_as_u8 e = v"
  unfolding EapType_from_u8_def by (drule map_of_SomeD) auto

interpretation EapType: wire_enum EapType_as_u8 EapType_from_u8
  by unfold_locales (simp_all add: EapType_from_u8_as EapType_as_u8_of)

section \<open>Packets\<close>

datatype EapError =
    EapError_PacketTooShort nat nat
  | EapError_InvalidCode u8
  | EapError_InvalidLength nat
  | EapError_UnknownType u8
  | EapError_FragmentationNotSupported
  | EapError_SessionNotFound
  | EapError_InvalidState
  | EapError_AuthenticationFailed
  | EapError_InvalidChallengeLength nat
  | EapError_InvalidResponseFormat
  | EapError_Phase2LimitExceeded string
  | EapError_EncodingError string
  | EapError_TlsError string
  | EapError_CertificateError string
  | EapError_IoError string

record EapPacket =
  eap_code :: EapCode
  eap_identifier :: u8
  eap_type :: "EapType option"
  eap_data :: bytes

definition EapPacket_new :: "EapCode \<Rightarrow> u8 \<Rightarrow> EapType option \<Rightarrow> bytes \<Rightarrow> EapPacket" where
  "EapPacket_new c i ty d = \<lparr>eap_code = c, eap_identifier = i, eap_type = ty, eap_data = d\<rparr>"

definition identity_request :: "u8 \<Rightarrow> string \<Rightarrow> EapPacket" where
  "identity_request i message =
     \<lparr>eap_code = EapRequest, eap_identifier = i, eap_type = Some EapIdentity, eap_data = str_bytes message\<rparr>"

definition identity_response :: "u8 \<Rightarrow> string \<Rightarrow> EapPacket" where
  "identity_response i identity =
     \<lparr>eap_code = EapResponse, eap_identifier = i, eap_type = Some EapIdentity, eap_data = str_bytes identity\<rparr>"

definition EapPacket_success :: "u8 \<Rightarrow> EapPacket" where
  "EapPacket_success i = \<lparr>eap_code = EapSuccess, eap_identifier = i, eap_type = None, eap_data = []\<rparr>"

definition EapPacket_failure :: "u8 \<Rightarrow> EapPacket" where
  "EapPacket_failure i = \<lparr>eap_code = EapFailure, eap_identifier = i, eap_type = None, eap_data = []\<rparr>"

definition is_req_resp :: "EapCode \<Rightarrow> bool" where
  "is_req_resp c \<longleftrightarrow> c = EapRequest \<or> c = EapResponse"

definition EapPacket_from_bytes :: "bytes \<Rightarrow> EapError + EapPacket" where
  "EapPacket_from_bytes bs =
     (if length bs < 4 then Inl (EapError_PacketTooShort 4 (length bs))
      else res_bind (ok_or (EapCode_from_u8 (bs ! 0)) (EapError_InvalidCode (bs ! 0))) (\<lambda>code.
        let identifier = bs ! 1; len = unat (u16_from_be_bytes (bs ! 2) (bs ! 3))
        in if len < 4 then Inl (EapError_InvalidLength len)
           else if length bs < len then Inl (EapError_PacketTooShort len (length bs))
           else res_bind
             (if is_req_resp code then
                (if len < 5 then Inl (EapError_InvalidLength len)
                 else Inr (EapType_from_u8 (bs ! 4), drop 5 (take len bs)))
              else Inr (None, [])) (\<lambda>(ty, data).
             Inr \<lparr>eap_code = code, eap_identifier = identifier, eap_type = ty, eap_data = data\<rparr>)))"

definition EapPacket_length :: "EapPacket \<Rightarrow> nat" where
  "EapPacket_length p = (if is_req_resp (eap_code p) then 4 + 1 + length (eap_data p) else 4)"

definition EapPacket_to_bytes :: "EapPacket \<Rightarrow> bytes" where
  "EapPacket_to_bytes p =
     (let len = (if is_req_resp (eap_code p) then 4 + 1 + length (eap_data p) else 4)
      in [EapCode_as_u8 (eap_code p)] @ [eap_identifier p] @ u16_to_be_bytes (word_of_nat len)
         @ (case eap_type p of Some ty \<Rightarrow> [EapType_as_u8 ty] @ eap_data p | None \<Rightarrow> []))"

section \<open>EAP-MD5\<close>

definition MD5_CHALLENGE_SIZE :: nat where
  "MD5_CHALLENGE_SIZE = 16"

definition MD5_RESPONSE_SIZE :: nat where
  "MD5_RESPONSE_SIZE = 16"

definition create_challenge :: "u8 \<Rightarrow> bytes \<Rightarrow> string \<Rightarrow> EapPacket" where
  "create_challenge identifier challenge message =
     EapPacket_new EapRequest identifier (Some EapMd5Challenge)
       ([as_u8 (length challenge)] @ challenge @ str_bytes message)"

definition parse_challenge :: "EapPacket \<Rightarrow> EapError + (bytes \<times> string)" where
  "parse_challenge p =
     (if eap_type p \<noteq> Some EapMd5Challenge then Inl EapError_InvalidResponseFormat
      else if eap_data p = [] then Inl (EapError_InvalidChallengeLength 0)
      else let value_size = unat (eap_data p ! 0)
        in if length (eap_data p) < 1 + value_size then Inl (EapError_InvalidChallengeLength (length (eap_data p)))
           else let challenge = drop 1 (take (1 + value_size) (eap_data p));
                    message = (if length (eap_data p) > 1 + value_size
                      then bytes_str (from_utf8_lossy (drop (1 + value_size) (eap_data p))) else [])
                in Inr (challenge, message))"

definition create_response :: "u8 \<Rightarrow> arr16 \<Rightarrow> string \<Rightarrow> EapPacket" where
  "create_response identifier response_hash name =
     EapPacket_new EapResponse identifier (Some EapMd5Challenge)
       ([as_u8 MD5_RESPONSE_SIZE] @ bytes16 response_hash @ str_bytes name)"

definition parse_response :: "EapPacket \<Rightarrow> EapError + (arr16 \<times> string)" where
  "parse_response p =
     (if eap_type p \<noteq> Some EapMd5Challenge then Inl EapError_InvalidResponseFormat
      else if eap_data p = [] then Inl (EapError_InvalidChallengeLength 0)
      else let value_size = unat (eap_data p ! 0)
        in if value_size \<noteq> MD5_RESPONSE_SIZE then Inl (EapError_InvalidChallengeLength value_size)
           else if length (eap_data p) < 1 + MD5_RESPONSE_SIZE
           then Inl (EapError_PacketTooShort (1 + MD5_RESPONSE_SIZE) (length (eap_data p)))
           else let response_hash = arr16_of (drop 1 (take (1 + MD5_RESPONSE_SIZE) (eap_data p)));
                    name = (if length (eap_data p) > 1 + MD5_RESPONSE_SIZE
                      then bytes_str (from_utf8_lossy (drop (1 + MD5_RESPONSE_SIZE) (eap_data p))) else [])
                in Inr (response_hash, name))"

definition compute_response_hash :: "(bytes \<Rightarrow> arr16) \<Rightarrow> u8 \<Rightarrow> string \<Rightarrow> bytes \<Rightarrow> arr16" where
  "compute_response_hash md5 identifier password challenge = md5 ([identifier] @ str_bytes password @ challenge)"

definition verify_response :: "(bytes \<Rightarrow> arr16) \<Rightarrow> u8 \<Rightarrow> string \<Rightarrow> bytes \<Rightarrow> arr16 \<Rightarrow> bool" where
  "verify_response md5 identifier password challenge response_hash \<longleftrightarrow>
     compute_response_hash md5 identifier password challenge = response_hash"

section \<open>EAP over RADIUS\<close>

text \<open>The \<open>Display\<close> text of a \<open>PacketError\<close>.\<close>

fun PacketError_fmt :: "PacketError \<Rightarrow> string" where
  "PacketError_fmt (InvalidLength n) = ''Invalid packet length: '' @ show_nat n"
| "PacketError_fmt (InvalidCode c) = ''Invalid packet code: '' @ show_nat (unat c)"
| "PacketError_fmt (Io UnexpectedEof) = ''IO error: failed to fill whole buffer''"
| "PacketError_fmt (AttributeError msg) = ''Attribute error: '' @ msg"
| "PacketError_fmt (PacketTooLarge n) = ''Packet too large: '' @ show_nat n @ '' bytes''"

text \<open>The \<open>while offset < eap_bytes.len()\<close> loop.\<close>

function eap_message_attributes :: "bytes \<Rightarrow> nat \<Rightarrow> EapError + Attribute list" where
  "eap_message_attributes eap_bytes offset =
     (if offset < length eap_bytes then
        let chunk_len = min Attribute_MAX_VALUE_LENGTH (length eap_bytes - offset);
            chunk = take chunk_len (drop offset eap_bytes)
        in res_bind (map_err (\<lambda>e. EapError_EncodingError (''Failed to create EAP-Message attribute: '' @ PacketError_fmt e))
             (Attribute_new (AttributeType_as_u8 EapMessage) chunk)) (\<lambda>attr.
           res_bind (eap_message_attributes eap_bytes (offset + chunk_len)) (\<lambda>attributes.
           Inr (attr # attributes)))
      else Inr [])"
  by pat_completeness auto
termination
  by (relation "measure (\<lambda>(bs, offset). length bs - offset)") (auto simp: attr_consts)

definition eap_to_radius_attributes :: "EapPacket \<Rightarrow> EapError + Attribute list" where
  "eap_to_radius_attributes p = eap_message_attributes (EapPacket_to_bytes p) 0"

definition eap_from_radius_packet :: "Packet \<Rightarrow> EapError + EapPacket option" where
  "eap_from_radius_packet p =
     (let eap_bytes = foldl (\<lambda>bs a. if attr_type a = AttributeType_as_u8 EapMessage then bs @ attr_value a else bs)
            [] (pkt_attributes p)
      in if eap_bytes = [] then Inr None
         else res_bind (EapPacket_from_bytes eap_bytes) (\<lambda>e. Inr (Some e)))"

definition add_eap_to_radius_packet :: "Packet \<Rightarrow> EapPacket \<Rightarrow> EapError + Packet" where
  "add_eap_to_radius_packet p e =
     res_bind (eap_to_radius_attributes e) (\<lambda>attrs. Inr (foldl add_attribute p attrs))"

declare eap_message_attributes.simps [simp del]

section \<open>The packet codec\<close>

lemma eap_header_cases:
  assumes "4 \<le> length (bs :: bytes)"
  obtains c i h l rest where "bs = c # i # h # l # rest"
proof -
  from assms have "2 \<le> length bs" by simp
  then obtain c i r where 1: "bs = c # i # r" by (rule list_ge2E)
  with assms have "2 \<le> length r" by simp
  then obtain h l rest where "r = h # l # rest" by (rule list_ge2E)
  with 1 that show ?thesis by blast
qed

text \<open>What the parser makes of a four-octet header and the octets after it.\<close>

lemma EapPacket_from_bytes_header:
  "EapPacket_from_bytes (c # i # h # l # rest) =
     (let len = unat (u16_from_be_bytes h l)
      in case EapCode_from_u8 c of
           None \<Rightarrow> Inl (EapError_InvalidCode c)
         | Some code \<Rightarrow>
             if len < 4 then Inl (EapError_InvalidLength len)
             else if 4 + length rest < len then Inl (EapError_PacketTooShort len (4 + length rest))
             else if \<not> is_req_resp code
             then Inr \<lparr>eap_code = code, eap_identifier = i, eap_type = None, eap_data = []\<rparr>
             else if len < 5 then Inl (EapError_InvalidLength len)
             else Inr \<lparr>eap_code = code, eap_identifier = i, eap_type = EapType_from_u8 (hd rest),
                       eap_data = take (len - 5) (tl rest)\<rparr>)"
proof -
  have d: "drop 5 (take n (c # i # h # l # rest)) = take (n - 5) (tl rest)" for n
    by (cases rest) (simp_all add: drop_take)
  have "rest ! 0 = hd rest" if "rest \<noteq> []" using that by (simp add: hd_conv_nth)
  then show ?thesis
    by (cases "rest = []") (auto simp: EapPacket_from_bytes_def Let_def d split: option.split)
qed

text \<open>The packets the encoder writes consistently: what the constructors of the program build.\<close>

definition eap_wf :: "EapPacket \<Rightarrow> bool" where
  "eap_wf p \<longleftrightarrow> (if is_req_resp (eap_code p)
     then eap_type p \<noteq> None \<and> length (eap_data p) \<le> 65530
     else eap_type p = None \<and> eap_data p = [])"

lemma EapPacket_to_bytes_eq:
  "length (eap_data p) \<le> 65530 \<Longrightarrow> EapPacket_to_bytes p =
     [EapCode_as_u8 (eap_code p), eap_identifier p, len_hi (EapPacket_length p), len_lo (EapPacket_length p)]
     @ (case eap_type p of Some ty \<Rightarrow> EapType_as_u8 ty # eap_data p | None \<Rightarrow> [])"
  by (simp add: EapPacket_to_bytes_def EapPacket_length_def Let_def u16_to_be_bytes_len
      del: of_nat_Suc of_nat_add split: option.split)

lemma EapPacket_from_to_bytes: "eap_wf p \<Longrightarrow> EapPacket_from_bytes (EapPacket_to_bytes p @ junk) = Inr p"
proof -
  assume wf: "eap_wf p"
  then have len: "length (eap_data p) \<le> 65530" "EapPacket_length p < 65536"
    by (auto simp: eap_wf_def EapPacket_length_def split: if_splits)
  show ?thesis
  proof (cases "is_req_resp (eap_code p)")
    case True
    with wf obtain ty where "eap_type p = Some ty" by (auto simp: eap_wf_def)
    with True len show ?thesis
      by (cases p) (simp add: EapPacket_to_bytes_eq EapPacket_from_bytes_header EapCode_from_u8_as EapType_from_u8_as
          unat_u16_len EapPacket_length_def Let_def)
  next
    case False
    with wf len show ?thesis
      by (cases p) (simp add: EapPacket_to_bytes_eq EapPacket_from_bytes_header EapCode_from_u8_as
          unat_u16_len EapPacket_length_def eap_wf_def Let_def)
  qed
qed

lemma EapPacket_to_from_bytes:
  assumes "EapPacket_from_bytes bs = Inr p" "eap_type p = Some ty"
  shows "eap_wf p \<and> (\<exists>junk. bs = EapPacket_to_bytes p @ junk)"
proof -
  have "4 \<le> length bs" using assms(1) by (auto simp: EapPacket_from_bytes_def split: if_splits)
  then obtain c i h l rest where bs: "bs = c # i # h # l # rest" by (rule eap_header_cases)
  let ?n = "unat (u16_from_be_bytes h l)"
  from assms obtain code where c: "EapCode_from_u8 c = Some code" "is_req_resp code"
      and n: "5 \<le> ?n" "?n \<le> 4 + length rest"
      and t: "EapType_from_u8 (hd rest) = Some ty"
      and p: "p = \<lparr>eap_code = code, eap_identifier = i, eap_type = Some ty, eap_data = take (?n - 5) (tl rest)\<rparr>"
    by (auto simp: bs EapPacket_from_bytes_header Let_def split: option.splits if_splits)
  then obtain r where r: "rest = EapType_as_u8 ty # r"
    using EapType_as_u8_of [OF t] by (cases rest) auto
  have "?n \<le> 65535" using unat_u8_le [of h] unat_u8_le [of l] by (simp add: unat_u16_from_be_bytes)
  with c n have wf: "eap_wf p" and len: "length (eap_data p) \<le> 65530" "EapPacket_length p = ?n"
    by (simp_all add: p r eap_wf_def EapPacket_length_def)
  moreover have "len_hi ?n = h" "len_lo ?n = l" by (simp_all add: be_simps)
  ultimately have "bs = EapPacket_to_bytes p @ drop (?n - 5) r"
    using EapCode_as_u8_of [OF c(1)] by (simp add: EapPacket_to_bytes_eq) (simp add: p bs r)
  with wf show ?thesis by blast
qed

section \<open>EAP-Message attributes\<close>

lemma eap_message_attributes_chunks:
  "eap_message_attributes bs off =
     Inr (map (\<lambda>c. \<lparr>attr_type = AttributeType_as_u8 EapMessage, attr_value = c\<rparr>) (chunks 253 (drop off bs)))"
proof (induction bs off rule: eap_message_attributes.induct)
  case (1 bs off)
  show ?case
  proof (cases "off < length bs")
    case True
    let ?n = "min 253 (length bs - off)"
    have c: "chunks 253 (drop off bs) = take ?n (drop off bs) # chunks 253 (drop (off + ?n) bs)"
      using True by (intro chunks_drop_step) simp_all
    have "Attribute_new (AttributeType_as_u8 EapMessage) (take ?n (drop off bs)) =
        Inr \<lparr>attr_type = AttributeType_as_u8 EapMessage, attr_value = take ?n (drop off bs)\<rparr>"
      by (simp add: Attribute_new_def attr_consts)
    with True 1 show ?thesis
      by (subst eap_message_attributes.simps) (simp add: attr_consts Let_def c)
  qed (simp add: eap_message_attributes.simps)
qed

lemma foldl_eap_bytes:
  "foldl (\<lambda>bs a. if attr_type a = ty then bs @ attr_value a else bs) acc as =
     acc @ concat (map attr_value (filter (\<lambda>a. attr_type a = ty) as))"
  by (induction as arbitrary: acc) auto

lemma foldl_add_attribute: "foldl add_attribute p as = p\<lparr>pkt_attributes := pkt_attributes p @ as\<rparr>"
  by (induction as arbitrary: p) (simp_all add: add_attribute_def)

section \<open>Properties\<close>

text \<open>
  EAP packets with a known type: a buffer parses to such a packet exactly when the packet is
  a Request or Response that fits the 16-bit length field and the buffer starts with its encoding.
\<close>

theorem eap_parse_iff_encoding:
  assumes "eap_type p = Some ty"
  shows "EapPacket_from_bytes bs = Inr p \<longleftrightarrow>
     is_req_resp (eap_code p) \<and> EapPacket_length p \<le> 65535 \<and> (\<exists>junk. bs = EapPacket_to_bytes p @ junk)"
proof
  assume "EapPacket_from_bytes bs = Inr p"
  from EapPacket_to_from_bytes [OF this assms]
  show "is_req_resp (eap_code p) \<and> EapPacket_length p \<le> 65535 \<and> (\<exists>junk. bs = EapPacket_to_bytes p @ junk)"
    using assms by (auto simp: eap_wf_def EapPacket_length_def split: if_splits)
next
  assume r: "is_req_resp (eap_code p) \<and> EapPacket_length p \<le> 65535 \<and> (\<exists>junk. bs = EapPacket_to_bytes p @ junk)"
  then have "eap_wf p" using assms by (auto simp: eap_wf_def EapPacket_length_def)
  with r show "EapPacket_from_bytes bs = Inr p" by (auto simp: EapPacket_from_to_bytes)
qed

theorem eap_parse_iff_encoding_witness:
  "EapPacket_from_bytes (EapPacket_to_bytes (identity_response 3 ''bob'') @ [1, 2]) = Inr (identity_response 3 ''bob'')"
  using eap_parse_iff_encoding [of "identity_response 3 ''bob''" EapIdentity
      "EapPacket_to_bytes (identity_response 3 ''bob'') @ [1, 2]"]
  by (simp add: identity_response_def is_req_resp_def EapPacket_length_def)

text \<open>
  EAP over RADIUS: adding a well-formed EAP packet to a RADIUS packet without EAP-Message
  attributes never fails, appends attributes of 1 to 253 octets whose values are the EAP octets in
  order, and extracting from the result gives the same EAP packet.
\<close>

theorem eap_over_radius_roundtrip:
  assumes "eap_wf e" and "find_attribute p (AttributeType_as_u8 EapMessage) = None"
  shows "\<exists>as. add_eap_to_radius_packet p e = Inr (p\<lparr>pkt_attributes := pkt_attributes p @ as\<rparr>)
     \<and> eap_from_radius_packet (p\<lparr>pkt_attributes := pkt_attributes p @ as\<rparr>) = Inr (Some e)
     \<and> concat (map attr_value as) = EapPacket_to_bytes e
     \<and> list_all (\<lambda>a. attr_type a = 79 \<and> attribute_ok a \<and> attr_value a \<noteq> []) as"
proof -
  let ?as = "map (\<lambda>c. \<lparr>attr_type = AttributeType_as_u8 EapMessage, attr_value = c\<rparr>) (chunks 253 (EapPacket_to_bytes e))"
  have add: "add_eap_to_radius_packet p e = Inr (p\<lparr>pkt_attributes := pkt_attributes p @ ?as\<rparr>)"
    by (simp add: add_eap_to_radius_packet_def eap_to_radius_attributes_def eap_message_attributes_chunks foldl_add_attribute)
  have val: "concat (map attr_value ?as) = EapPacket_to_bytes e" by (simp add: comp_def)
  have "filter (\<lambda>a. attr_type a = AttributeType_as_u8 EapMessage) (pkt_attributes p) = []"
    using assms(2) by (auto simp: find_attribute_def find_None_iff filter_empty_conv)
  then have "foldl (\<lambda>bs a. if attr_type a = AttributeType_as_u8 EapMessage then bs @ attr_value a else bs) []
      (pkt_attributes p @ ?as) = EapPacket_to_bytes e"
    by (simp only: foldl_eap_bytes) (simp add: comp_def)
  moreover have "EapPacket_to_bytes e \<noteq> []" by (simp add: EapPacket_to_bytes_def Let_def)
  ultimately have "eap_from_radius_packet (p\<lparr>pkt_attributes := pkt_attributes p @ ?as\<rparr>) = Inr (Some e)"
    using EapPacket_from_to_bytes [OF assms(1), of "[]"] by (simp add: eap_from_radius_packet_def)
  moreover have "list_all (\<lambda>a. attr_type a = 79 \<and> attribute_ok a \<and> attr_value a \<noteq> []) ?as"
    using chunks_length_le by (fastforce simp: list_all_iff attribute_ok_def attr_consts)
  ultimately show ?thesis using add val by blast
qed

theorem eap_over_radius_roundtrip_witness:
  "\<exists>p'. add_eap_to_radius_packet (Packet_new AccessChallenge 1 (arr16_of [])) (identity_request 4 ''hello'') = Inr p'
     \<and> eap_from_radius_packet p' = Inr (Some (identity_request 4 ''hello''))"
  using eap_over_radius_roundtrip [of "identity_request 4 ''hello''" "Packet_new AccessChallenge 1 (arr16_of [])"]
  by (auto simp: identity_request_def eap_wf_def is_req_resp_def find_attribute_def Packet_new_def)

text \<open>
  EAP-MD5: a packet is accepted for an identifier, password and challenge exactly when it is
  an MD5-Challenge packet whose data is the size octet 16 and the MD5 of identifier, password and
  challenge, followed by any name; and parsing a challenge gives back what was put into it.
\<close>

theorem eap_md5_accepts_exactly:
  "((\<exists>h name. parse_response p = Inr (h, name) \<and> verify_response md5 i pw ch h) \<longleftrightarrow>
      eap_type p = Some EapMd5Challenge \<and> (\<exists>name. eap_data p = 16 # bytes16 (compute_response_hash md5 i pw ch) @ name))
   \<and> (length ch \<le> 255 \<and> valid_utf8 (str_bytes msg) \<longrightarrow> parse_challenge (create_challenge i ch msg) = Inr (ch, msg))"
proof
  show "(\<exists>h name. parse_response p = Inr (h, name) \<and> verify_response md5 i pw ch h) \<longleftrightarrow>
      eap_type p = Some EapMd5Challenge \<and> (\<exists>name. eap_data p = 16 # bytes16 (compute_response_hash md5 i pw ch) @ name)"
  proof (cases "eap_type p = Some EapMd5Challenge \<and> eap_data p \<noteq> []")
    case False
    then show ?thesis by (auto simp: parse_response_def)
  next
    case True
    then obtain v rest where d: "eap_data p = v # rest" by (cases "eap_data p") auto
    have "rest = take 16 rest @ drop 16 rest" by simp
    then have "(length rest \<ge> 16 \<and> take 16 rest = bytes16 h) \<longleftrightarrow> (\<exists>name. rest = bytes16 h @ name)" for h
      by (metis append_eq_conv_conj length_append length_bytes16 le_add1)
    moreover have "unat v = 16 \<longleftrightarrow> v = 16" by (simp add: word_unat_eq_iff)
    moreover have "arr16_of (take 16 rest) = h \<longleftrightarrow> take 16 rest = bytes16 h" if "length rest \<ge> 16" for h
      using that by (simp add: arr16_eq_iff)
    ultimately show ?thesis using True
      by (auto simp: parse_response_def verify_response_def d MD5_RESPONSE_SIZE_def Let_def not_less)
  qed
next
  show "length ch \<le> 255 \<and> valid_utf8 (str_bytes msg) \<longrightarrow> parse_challenge (create_challenge i ch msg) = Inr (ch, msg)"
    by (auto simp: parse_challenge_def create_challenge_def EapPacket_new_def Let_def)
qed

theorem eap_md5_accepts_exactly_witness:
  "parse_challenge (create_challenge 9 [1, 2, 3] ''srv'') = Inr ([1, 2, 3], ''srv'')"
proof -
  have "valid_utf8 (str_bytes ''srv'')"
    by (rule valid_utf8_ascii) (simp add: str_bytes_def of_char_def)
  then show ?thesis
    using eap_md5_accepts_exactly [of "create_challenge 9 [1, 2, 3] ''srv''" "\<lambda>_. arr16_of []" 9 "[]" "[1, 2, 3]" "''srv''"]
    by simp
qed

text \<open>
  A Request or Response whose type is not one of the enum's (the parser maps any other type
  octet to \<open>None\<close>) is written with a length that counts a type octet and the data, but without
  them: no receiver can parse what the encoder writes for it.
\<close>

theorem eap_untyped_request_unparseable:
  assumes "is_req_resp c" "length d \<le> 65530"
  shows "EapPacket_from_bytes (EapPacket_to_bytes (EapPacket_new c i None d)) =
     Inl (EapError_PacketTooShort (5 + length d) 4)"
  using assms
  by (simp add: EapPacket_to_bytes_eq EapPacket_new_def EapPacket_from_bytes_header EapCode_from_u8_as
      EapPacket_length_def unat_u16_len Let_def)

theorem eap_untyped_request_unparseable_witness:
  "is_req_resp EapResponse \<and> length [1 :: u8, 2] \<le> 65530
   \<and> EapPacket_from_bytes (EapPacket_to_bytes (EapPacket_new EapResponse 7 None [1, 2])) = Inl (EapError_PacketTooShort 7 4)"
  using eap_untyped_request_unparseable [of EapResponse "[1, 2]" 7] by (simp add: is_req_resp_def)

end
