(* ===== verification/Eap_Tls_Fragments.thy ===== *)
theory Eap_Tls_Fragments
  imports Eap_Packet
begin

text \<open>
  The EAP-TLS framing of \<open>eap.rs\<close> (module \<open>eap_tls\<close>): flags, the packet codec, the fragment
  assembler, the fragmenter, key derivation and the per-session context. The fragmenter's loop
  does not end for every argument, so it is a \<open>partial_function (option)\<close> whose value \<open>None\<close> is
  non-termination. HMAC-SHA256 is a parameter with a 32-octet result.
\<close>

section \<open>Flags\<close>

datatype TlsFlags = TlsFlags (flags_byte: u8)

definition LENGTH_INCLUDED :: u8 where
  "LENGTH_INCLUDED = 0x80"

definition MORE_FRAGMENTS :: u8 where
  "MORE_FRAGMENTS = 0x40"

definition START :: u8 where
  "START = 0x20"

definition TlsFlags_new :: "bool \<Rightarrow> bool \<Rightarrow> bool \<Rightarrow> TlsFlags" where
  "TlsFlags_new length_included more_fragments start =
     (let flags = 0;
          flags = (if length_included then flags OR LENGTH_INCLUDED else flags);
          flags = (if more_fragments then flags OR MORE_FRAGMENTS else flags);
          flags = (if start then flags OR START else flags)
      in TlsFlags flags)"

definition TlsFlags_from_u8 :: "u8 \<Rightarrow> TlsFlags" where
  "TlsFlags_from_u8 value = TlsFlags (value AND 0xE0)"

definition TlsFlags_as_u8 :: "TlsFlags \<Rightarrow> u8" where
  "TlsFlags_as_u8 f = flags_byte f"

definition length_included :: "TlsFlags \<Rightarrow> bool" where
  "length_included f \<longleftrightarrow> flags_byte f AND LENGTH_INCLUDED \<noteq> 0"

definition more_fragments :: "TlsFlags \<Rightarrow> bool" where
  "more_fragments f \<longleftrightarrow> flags_byte f AND MORE_FRAGMENTS \<noteq> 0"

definition flag_start :: "TlsFlags \<Rightarrow> bool" where
  "flag_start f \<longleftrightarrow> flags_byte f AND START \<noteq> 0"

section \<open>Packets\<close>

record EapTlsPacket =
  tls_flags :: TlsFlags
  tls_message_length :: "u32 option"
  tls_data :: bytes

definition EapTlsPacket_new :: "TlsFlags \<Rightarrow> u32 option \<Rightarrow> bytes \<Rightarrow> EapTlsPacket" where
  "EapTlsPacket_new f len d = \<lparr>tls_flags = f, tls_message_length = len, tls_data = d\<rparr>"

definition EapTlsPacket_start :: EapTlsPacket where
  "EapTlsPacket_start = \<lparr>tls_flags = TlsFlags_new False False True, tls_message_length = None, tls_data = []\<rparr>"

definition from_eap_data :: "bytes \<Rightarrow> EapError + EapTlsPacket" where
  "from_eap_data data =
     (if data = [] then Inl (EapError_PacketTooShort 1 0)
      else let flags = TlsFlags_from_u8 (data ! 0)
        in res_bind
          (if length_included flags then
             (if length data < 5 then Inl (EapError_PacketTooShort 5 (length data))
              else Inr (Some (u32_from_be_bytes (data ! 1) (data ! 2) (data ! 3) (data ! 4)), 5))
           else Inr (None, 1)) (\<lambda>(len, offset).
          Inr \<lparr>tls_flags = flags, tls_message_length = len,
               tls_data = (if offset < length data then drop offset data else [])\<rparr>))"

definition to_eap_data :: "EapTlsPacket \<Rightarrow> bytes" where
  "to_eap_data p =
     [TlsFlags_as_u8 (tls_flags p)]
     @ (case tls_message_length p of Some len \<Rightarrow> u32_to_be_bytes len | None \<Rightarrow> [])
     @ tls_data p"

definition to_eap_request :: "EapTlsPacket \<Rightarrow> u8 \<Rightarrow> EapPacket" where
  "to_eap_request p identifier = EapPacket_new EapRequest identifier (Some EapTls) (to_eap_data p)"

definition to_eap_response :: "EapTlsPacket \<Rightarrow> u8 \<Rightarrow> EapPacket" where
  "to_eap_response p identifier = EapPacket_new EapResponse identifier (Some EapTls) (to_eap_data p)"

section \<open>The fragment assembler\<close>

record TlsFragmentAssembler =
  expected_length :: "u32 option"
  fragments :: bytes

definition MAX_MESSAGE_LENGTH :: nat where
  "MAX_MESSAGE_LENGTH = 64 * 1024"

definition Assembler_new :: TlsFragmentAssembler where
  "Assembler_new = \<lparr>expected_length = None, fragments = []\<rparr>"

definition Assembler_reset :: "TlsFragmentAssembler \<Rightarrow> TlsFragmentAssembler" where
  "Assembler_reset a = a\<lparr>expected_length := None, fragments := []\<rparr>"

definition check_fragment :: "TlsFragmentAssembler \<Rightarrow> EapTlsPacket \<Rightarrow> EapError + unit" where
  "check_fragment a p =
     (let first = (fragments a = [] \<and> expected_length a = None)
      in if more_fragments (tls_flags p) \<and> tls_data p = [] then Inl (EapError_InvalidLength 0)
         else if first \<and> more_fragments (tls_flags p) \<and> \<not> length_included (tls_flags p)
         then Inl (EapError_InvalidLength 0)
         else let announced = unat (case tls_message_length p of Some n \<Rightarrow> n | None \<Rightarrow> 0)
           in if length_included (tls_flags p) \<and> (announced = 0 \<or> announced > MAX_MESSAGE_LENGTH)
              then Inl (EapError_InvalidLength announced)
              else let limit = (case expected_length a of
                         Some expected \<Rightarrow> unat expected
                       | None \<Rightarrow> if first \<and> length_included (tls_flags p) then announced else MAX_MESSAGE_LENGTH);
                       total = length (fragments a) + length (tls_data p)
                in if total > limit then Inl (EapError_InvalidLength total) else Inr ())"

definition add_fragment :: "TlsFragmentAssembler \<Rightarrow> EapTlsPacket \<Rightarrow> (EapError + bytes option) \<times> TlsFragmentAssembler" where
  "add_fragment a p =
     (case check_fragment a p of
        Inl e \<Rightarrow> (Inl e, Assembler_reset a)
      | Inr _ \<Rightarrow>
          let a = (if length_included (tls_flags p) \<and> expected_length a = None
                   then a\<lparr>expected_length := tls_message_length p\<rparr> else a);
              a = a\<lparr>fragments := fragments a @ tls_data p\<rparr>
          in if \<not> more_fragments (tls_flags p) then
               (case expected_length a of
                  Some expected \<Rightarrow>
                    if length (fragments a) \<noteq> unat expected
                    then (Inl (EapError_InvalidLength (length (fragments a))), Assembler_reset a)
                    else (Inr (Some (fragments a)), a\<lparr>fragments := [], expected_length := None\<rparr>)
                | None \<Rightarrow> (Inr (Some (fragments a)), a\<lparr>fragments := [], expected_length := None\<rparr>))
             else (Inr None, a))"

section \<open>The fragmenter\<close>

datatype LengthFlagPolicy = Always | FragmentedOnly

partial_function (option) fragment_loop ::
    "bytes \<Rightarrow> nat \<Rightarrow> nat \<Rightarrow> bool \<Rightarrow> nat \<Rightarrow> EapTlsPacket list \<Rightarrow> EapTlsPacket list option" where
  "fragment_loop data first_fragment_size subsequent_fragment_size length_on_first offset packets =
     (if offset < length data then
        let is_first = (offset = 0);
            remaining = length data - offset;
            fragment_size = (if is_first then min first_fragment_size remaining else min subsequent_fragment_size remaining);
            more = (offset + fragment_size < length data);
            fragment_data = take fragment_size (drop offset data);
            packet = (if is_first \<and> length_on_first
              then EapTlsPacket_new (TlsFlags_new True more False) (Some (word_of_nat (length data))) fragment_data
              else EapTlsPacket_new (TlsFlags_new False more False) None fragment_data)
        in fragment_loop data first_fragment_size subsequent_fragment_size length_on_first
             (offset + fragment_size) (packets @ [packet])
      else Some packets)"

definition fragment_tls_message_with :: "bytes \<Rightarrow> nat \<Rightarrow> LengthFlagPolicy \<Rightarrow> EapTlsPacket list option" where
  "fragment_tls_message_with data max_fragment_size policy =
     (let subsequent_fragment_size = max_fragment_size - 1;
          length_on_first = (case policy of Always \<Rightarrow> True | FragmentedOnly \<Rightarrow> length data > subsequent_fragment_size);
          first_fragment_size = (if length_on_first then max_fragment_size - 5 else subsequent_fragment_size)
      in fragment_loop data first_fragment_size subsequent_fragment_size length_on_first 0 [])"

definition fragment_tls_message :: "bytes \<Rightarrow> nat \<Rightarrow> EapTlsPacket list option" where
  "fragment_tls_message data max_fragment_size = fragment_tls_message_with data max_fragment_size Always"

section \<open>Key derivation\<close>

function prf_loop :: "(bytes \<Rightarrow> bytes \<Rightarrow> arr32) \<Rightarrow> bytes \<Rightarrow> bytes \<Rightarrow> nat \<Rightarrow> bytes \<Rightarrow> bytes \<Rightarrow> bytes" where
  "prf_loop hmac_sha256 secret label_seed output_len a output =
     (if length output < output_len then
        let a = bytes32 (hmac_sha256 secret a);
            result = bytes32 (hmac_sha256 secret (a @ label_seed))
        in prf_loop hmac_sha256 secret label_seed output_len a (output @ result)
      else output)"
  by pat_completeness auto
termination
  by (relation "measure (\<lambda>(h, s, l, n, a, out). n - length out)") auto

definition tls_prf_sha256 :: "(bytes \<Rightarrow> bytes \<Rightarrow> arr32) \<Rightarrow> bytes \<Rightarrow> bytes \<Rightarrow> bytes \<Rightarrow> nat \<Rightarrow> bytes" where
  "tls_prf_sha256 hmac_sha256 secret lab seed output_len =
     (let label_seed = lab @ seed
      in take output_len (prf_loop hmac_sha256 secret label_seed output_len label_seed []))"

definition derive_keys :: "(bytes \<Rightarrow> bytes \<Rightarrow> arr32) \<Rightarrow> bytes \<Rightarrow> bytes \<Rightarrow> bytes \<Rightarrow> bytes \<times> bytes" where
  "derive_keys hmac_sha256 master_secret client_random server_random =
     (let key_material = tls_prf_sha256 hmac_sha256 master_secret (str_bytes ''client EAP encryption'')
            (client_random @ server_random) 128
      in (take 64 key_material, drop 64 (take 128 key_material)))"

section \<open>The session context\<close>

datatype TlsHandshakeState =
  Initial | Started | Handshaking | CertificateExchange | KeyExchange | Complete | Failed

record EapTlsContext =
  handshake_state :: TlsHandshakeState
  assembler :: TlsFragmentAssembler
  outgoing_fragments :: "EapTlsPacket list"
  current_fragment_index :: nat
  length_flag_policy :: LengthFlagPolicy
  client_random :: "arr32 option"
  server_random :: "arr32 option"
  master_secret :: "bytes option"
  msk :: "bytes option"
  emsk :: "bytes option"

definition EapTlsContext_new :: EapTlsContext where
  "EapTlsContext_new = \<lparr>handshake_state = Initial, assembler = Assembler_new, outgoing_fragments = [],
     current_fragment_index = 0, length_flag_policy = Always, client_random = None, server_random = None,
     master_secret = None, msk = None, emsk = None\<rparr>"

definition EapTlsContext_reset :: "EapTlsContext \<Rightarrow> EapTlsContext" where
  "EapTlsContext_reset c = c\<lparr>handshake_state := Initial, assembler := Assembler_reset (assembler c),
     outgoing_fragments := [], current_fragment_index := 0, client_random := None, server_random := None,
     master_secret := None, msk := None, emsk := None\<rparr>"

definition has_pending_fragments :: "EapTlsContext \<Rightarrow> bool" where
  "has_pending_fragments c \<longleftrightarrow> current_fragment_index c < length (outgoing_fragments c)"

definition get_next_fragment :: "EapTlsContext \<Rightarrow> EapTlsPacket option \<times> EapTlsContext" where
  "get_next_fragment c =
     (if has_pending_fragments c
      then (Some (outgoing_fragments c ! current_fragment_index c),
            c\<lparr>current_fragment_index := current_fragment_index c + 1\<rparr>)
      else (None, c))"

definition queue_tls_data :: "EapTlsContext \<Rightarrow> bytes \<Rightarrow> nat \<Rightarrow> EapTlsContext option" where
  "queue_tls_data c data max_fragment_size =
     (case fragment_tls_message_with data max_fragment_size (length_flag_policy c) of
        None \<Rightarrow> None
      | Some ps \<Rightarrow> Some (c\<lparr>outgoing_fragments := ps, current_fragment_index := 0\<rparr>))"

definition process_incoming :: "EapTlsContext \<Rightarrow> EapTlsPacket \<Rightarrow> (EapError + bytes option) \<times> EapTlsContext" where
  "process_incoming c p =
     (if flag_start (tls_flags p)
      then (Inr None, c\<lparr>handshake_state := Started, assembler := Assembler_reset (assembler c)\<rparr>)
      else (case add_fragment (assembler c) p of (r, a) \<Rightarrow> (r, c\<lparr>assembler := a\<rparr>)))"

definition derive_session_keys :: "(bytes \<Rightarrow> bytes \<Rightarrow> arr32) \<Rightarrow> EapTlsContext \<Rightarrow> EapError + EapTlsContext" where
  "derive_session_keys hmac_sha256 c =
     res_bind (ok_or (master_secret c) EapError_InvalidState) (\<lambda>ms.
     res_bind (ok_or (client_random c) EapError_InvalidState) (\<lambda>cr.
     res_bind (ok_or (server_random c) EapError_InvalidState) (\<lambda>sr.
       case derive_keys hmac_sha256 ms (bytes32 cr) (bytes32 sr) of
         (m, e) \<Rightarrow> Inr (c\<lparr>msk := Some m, emsk := Some e\<rparr>))))"

declare prf_loop.simps [simp del]

lemmas flag_consts = LENGTH_INCLUDED_def MORE_FRAGMENTS_def START_def

section \<open>The packet codec\<close>

lemma TlsFlags_new_bits [simp]:
  "length_included (TlsFlags_new l m s) = l"
  "more_fragments (TlsFlags_new l m s) = m"
  "flag_start (TlsFlags_new l m s) = s"
  by (cases l; cases m; cases s; simp add: TlsFlags_new_def length_included_def more_fragments_def flag_start_def flag_consts)+

lemma length_included_from_u8: "length_included (TlsFlags_from_u8 b) \<longleftrightarrow> b AND 0x80 \<noteq> 0"
  by (simp add: length_included_def TlsFlags_from_u8_def LENGTH_INCLUDED_def and.assoc)

text \<open>Packets the parser produces: no reserved flag bit, and a length exactly when L is set.\<close>

definition tls_packet_ok :: "EapTlsPacket \<Rightarrow> bool" where
  "tls_packet_ok p \<longleftrightarrow> flags_byte (tls_flags p) AND 0xE0 = flags_byte (tls_flags p) \<and>
     (length_included (tls_flags p) \<longleftrightarrow> tls_message_length p \<noteq> None)"

lemma TlsFlags_masked: "flags_byte f AND 0xE0 = flags_byte f \<Longrightarrow> TlsFlags_from_u8 (flags_byte f) = f"
  by (cases f) (simp add: TlsFlags_from_u8_def)

lemma from_to_eap_data: "tls_packet_ok p \<Longrightarrow> from_eap_data (to_eap_data p) = Inr p"
  by (cases p; cases "tls_message_length p")
    (auto simp: from_eap_data_def to_eap_data_def tls_packet_ok_def TlsFlags_as_u8_def TlsFlags_masked Let_def
      u32_to_be_bytes_def u32_from_to_be_bytes)

lemma TlsFlags_new_masked [simp]: "flags_byte (TlsFlags_new l m s) AND 0xE0 = flags_byte (TlsFlags_new l m s)"
  by (cases l; cases m; cases s; simp add: TlsFlags_new_def flag_consts)

section \<open>Reassembly\<close>

lemma Assembler_reset_new [simp]: "Assembler_reset a = Assembler_new"
  by (simp add: Assembler_reset_def Assembler_new_def)

text \<open>
  What the assembler holds between calls: nothing, or a message with an announced length within
  the bound that the buffered data has not passed.
\<close>

definition assembler_inv :: "TlsFragmentAssembler \<Rightarrow> bool" where
  "assembler_inv a \<longleftrightarrow> (case expected_length a of
     None \<Rightarrow> fragments a = []
   | Some n \<Rightarrow> 0 < unat n \<and> unat n \<le> MAX_MESSAGE_LENGTH \<and> length (fragments a) \<le> unat n)"

lemma assembler_inv_new [simp]: "assembler_inv Assembler_new"
  by (simp add: assembler_inv_def Assembler_new_def)

lemma assembler_inv_bound: "assembler_inv a \<Longrightarrow> length (fragments a) \<le> MAX_MESSAGE_LENGTH"
  by (auto simp: assembler_inv_def split: option.splits)

lemma add_fragment_step:
  assumes "assembler_inv a"
  shows "case add_fragment a p of
     (Inl e, a') \<Rightarrow> a' = Assembler_new
   | (Inr (Some m), a') \<Rightarrow> a' = Assembler_new \<and> m = fragments a @ tls_data p \<and> length m \<le> MAX_MESSAGE_LENGTH
   | (Inr None, a') \<Rightarrow> assembler_inv a' \<and> fragments a' = fragments a @ tls_data p \<and> tls_data p \<noteq> []"
proof (cases "check_fragment a p")
  case (Inl e)
  then show ?thesis by (simp add: add_fragment_def)
next
  case (Inr u)
  with assms show ?thesis
    by (cases "expected_length a"; cases "tls_message_length p";
        auto simp: add_fragment_def check_fragment_def assembler_inv_def Let_def Assembler_new_def
          split: if_splits)
qed

text \<open>Feeding a sequence of packets: the results in order and the final assembler.\<close>

fun feed :: "TlsFragmentAssembler \<Rightarrow> EapTlsPacket list \<Rightarrow> (EapError + bytes option) list \<times> TlsFragmentAssembler" where
  "feed a [] = ([], a)"
| "feed a (p # ps) = (case add_fragment a p of (r, a') \<Rightarrow> case feed a' ps of (rs, a'') \<Rightarrow> (r # rs, a''))"

text \<open>The packets for the fragments after the first one.\<close>

fun later_fragments :: "bytes list \<Rightarrow> EapTlsPacket list" where
  "later_fragments [] = []"
| "later_fragments (c # cs) = EapTlsPacket_new (TlsFlags_new False (cs \<noteq> []) False) None c # later_fragments cs"

lemma length_later_fragments [simp]: "length (later_fragments cs) = length cs"
  by (induction cs) simp_all

lemma feed_later_fragments:
  assumes "cs \<noteq> []" "\<forall>c \<in> set cs. c \<noteq> []" "length fr + length (concat cs) = unat n"
  shows "feed \<lparr>expected_length = Some n, fragments = fr\<rparr> (later_fragments cs) =
     (replicate (length cs - 1) (Inr None) @ [Inr (Some (fr @ concat cs))], Assembler_new)"
  using assms
proof (induction cs arbitrary: fr)
  case (Cons c cs)
  show ?case
  proof (cases cs)
    case Nil
    with Cons.prems show ?thesis
      by (simp add: add_fragment_def check_fragment_def EapTlsPacket_new_def Assembler_new_def Let_def)
  next
    case (Cons c' cs')
    with Cons.prems have "feed \<lparr>expected_length = Some n, fragments = fr @ c\<rparr> (later_fragments cs) =
       (replicate (length cs - 1) (Inr None) @ [Inr (Some ((fr @ c) @ concat cs))], Assembler_new)"
      by (intro Cons.IH) simp_all
    with Cons Cons.prems show ?thesis
      by (simp add: add_fragment_def check_fragment_def EapTlsPacket_new_def Let_def)
  qed
qed simp

section \<open>Fragmentation\<close>

lemma fragment_loop_later:
  assumes "0 < sub" "0 < off"
  shows "fragment_loop d fi sub lof off acc = Some (acc @ later_fragments (chunks sub (drop off d)))"
  using assms(2)
proof (induction "length d - off" arbitrary: off acc rule: less_induct)
  case less
  show ?case
  proof (cases "off < length d")
    case False
    then show ?thesis by (simp add: fragment_loop.simps)
  next
    case True
    let ?n = "min sub (length d - off)"
    let ?p = "EapTlsPacket_new (TlsFlags_new False (off + ?n < length d) False) None (take ?n (drop off d))"
    have "fragment_loop d fi sub lof off acc = fragment_loop d fi sub lof (off + ?n) (acc @ [?p])"
      using True less.prems by (subst fragment_loop.simps) (simp add: Let_def)
    also have "\<dots> = Some ((acc @ [?p]) @ later_fragments (chunks sub (drop (off + ?n) d)))"
      using True assms(1) by (intro less.hyps) auto
    also have "(acc @ [?p]) @ later_fragments (chunks sub (drop (off + ?n) d)) =
        acc @ later_fragments (chunks sub (drop off d))"
      using assms(1) by (simp add: chunks_drop_step [OF assms(1) True] not_le)
    finally show ?thesis .
  qed
qed

lemma fragment_loop_first:
  assumes "0 < fi" "0 < sub" "d \<noteq> []"
  shows "fragment_loop d fi sub lof 0 [] =
     Some (EapTlsPacket_new (TlsFlags_new lof (fi < length d) False) (if lof then Some (word_of_nat (length d)) else None) (take fi d)
           # later_fragments (chunks sub (drop fi d)))"
proof -
  have "(min fi (length d) < length d) = (fi < length d)" "take (min fi (length d)) d = take fi d"
    "drop (min fi (length d)) d = drop fi d" by (auto simp: min_def)
  moreover have "0 < min fi (length d)" using assms by simp
  ultimately show ?thesis
    using assms(2,3) by (subst fragment_loop.simps) (simp add: Let_def fragment_loop_later)
qed

text \<open>Without room for a single octet in the first packet the loop never advances.\<close>

lemma fragment_loop_stuck:
  assumes "d \<noteq> []"
  shows "fragment_loop d 0 sub lof 0 acc = None"
proof -
  have "\<not> (d' \<noteq> [] \<and> fi = 0 \<and> off = 0)" if "fragment_loop d' fi sub lof off acc = Some r" for d' fi sub lof off acc r
    using that
  proof (rule fragment_loop.raw_induct [where P = "\<lambda>d fi sub lof off acc r. \<not> (d \<noteq> [] \<and> fi = 0 \<and> off = 0)", rotated], goal_cases)
    case (1 f d fi sub lof off acc r)
    show ?case
    proof
      assume "d \<noteq> [] \<and> fi = 0 \<and> off = 0"
      with 1(2) have "\<exists>acc'. f d 0 sub lof 0 acc' = Some r" by (auto simp: Let_def)
      with 1(1) \<open>d \<noteq> [] \<and> fi = 0 \<and> off = 0\<close> show False by blast
    qed
  qed
  from this [of d 0 sub lof 0 acc] assms show ?thesis
    by (cases "fragment_loop d 0 sub lof 0 acc") auto
qed

lemma later_fragments_size:
  "p \<in> set (later_fragments cs) \<Longrightarrow> \<exists>c \<in> set cs. length (to_eap_data p) = 1 + length c"
  by (induction cs) (auto simp: to_eap_data_def EapTlsPacket_new_def)

section \<open>Properties\<close>

text \<open>
  C11. Fragmentation and reassembly, for both length-flag policies: from a limit of 6 octets up,
  the fragmenter returns for every message of 1 to 65536 octets; no packet's data exceeds the
  limit; and a fresh assembler fed the packets in order answers \<open>None\<close> until the last, then the
  message itself, and is empty again.
\<close>

theorem tls_fragments_reassemble:
  assumes "6 \<le> max_size" "d \<noteq> []" "length d \<le> MAX_MESSAGE_LENGTH"
  shows "\<exists>ps. fragment_tls_message_with d max_size policy = Some ps
     \<and> feed Assembler_new ps = (replicate (length ps - 1) (Inr None) @ [Inr (Some d)], Assembler_new)
     \<and> list_all (\<lambda>p. length (to_eap_data p) \<le> max_size \<and> from_eap_data (to_eap_data p) = Inr p) ps"
proof -
  let ?sub = "max_size - 1"
  define lof where "lof = (case policy of Always \<Rightarrow> True | FragmentedOnly \<Rightarrow> length d > ?sub)"
  define fi where "fi = (if lof then max_size - 5 else ?sub)"
  define cs where "cs = chunks ?sub (drop fi d)"
  let ?n = "word_of_nat (length d) :: u32"
  let ?p = "EapTlsPacket_new (TlsFlags_new lof (fi < length d) False) (if lof then Some ?n else None) (take fi d)"
  have pos: "0 < fi" "0 < ?sub" using assms(1) by (auto simp: fi_def)
  have n: "unat ?n = length d" using assms(3) by (simp add: unat_of_nat MAX_MESSAGE_LENGTH_def)
  have cs: "concat cs = drop fi d" "\<forall>c \<in> set cs. c \<noteq> [] \<and> length c \<le> ?sub" "cs = [] \<longleftrightarrow> \<not> fi < length d"
    using pos(2) chunks_length_le by (auto simp: cs_def not_less)
  have res: "fragment_tls_message_with d max_size policy = Some (?p # later_fragments cs)"
    unfolding cs_def fragment_loop_first [OF pos assms(2), of lof, symmetric]
    by (simp add: fragment_tls_message_with_def lof_def fi_def Let_def del: One_nat_def)
  have one: "lof" if "fi < length d"
    using that by (auto simp: fi_def lof_def split: LengthFlagPolicy.splits if_splits)
  have "feed Assembler_new (?p # later_fragments cs) =
      (replicate (length cs) (Inr None) @ [Inr (Some d)], Assembler_new)"
  proof (cases "fi < length d")
    case True
    with cs have "cs \<noteq> []" by simp
    then have "feed \<lparr>expected_length = Some ?n, fragments = take fi d\<rparr> (later_fragments cs) =
        (replicate (length cs - 1) (Inr None) @ [Inr (Some (take fi d @ concat cs))], Assembler_new)"
      using cs True n by (intro feed_later_fragments) auto
    moreover have "add_fragment Assembler_new ?p = (Inr None, \<lparr>expected_length = Some ?n, fragments = take fi d\<rparr>)"
      using True one [OF True] assms(2,3) pos n
      by (simp add: add_fragment_def check_fragment_def Assembler_new_def EapTlsPacket_new_def Let_def)
    ultimately show ?thesis using \<open>cs \<noteq> []\<close> cs(1) by (cases cs) simp_all
  next
    case False
    then have "cs = []" using cs(3) by simp
    with False assms(2,3) n show ?thesis
      by (simp add: add_fragment_def check_fragment_def Assembler_new_def EapTlsPacket_new_def Let_def)
  qed
  moreover have "list_all (\<lambda>p. length (to_eap_data p) \<le> max_size) (?p # later_fragments cs)"
    using assms(1) cs(2) later_fragments_size [of _ cs]
    by (fastforce simp: list_all_iff to_eap_data_def EapTlsPacket_new_def fi_def)
  moreover have "list_all tls_packet_ok (?p # later_fragments cs)"
  proof -
    have "list_all tls_packet_ok (later_fragments cs)"
      by (induction cs) (simp_all add: tls_packet_ok_def EapTlsPacket_new_def)
    then show ?thesis by (simp add: tls_packet_ok_def EapTlsPacket_new_def)
  qed
  ultimately show ?thesis using res from_to_eap_data by (force simp: list_all_iff)
qed

theorem tls_fragments_reassemble_witness:
  "\<exists>ps. fragment_tls_message_with [1, 2, 3, 4, 5, 6, 7, 8, 9] 6 FragmentedOnly = Some ps
     \<and> feed Assembler_new ps = (replicate (length ps - 1) (Inr None) @ [Inr (Some [1, 2, 3, 4, 5, 6, 7, 8, 9])], Assembler_new)"
  using tls_fragments_reassemble [of 6 "[1, 2, 3, 4, 5, 6, 7, 8, 9]" FragmentedOnly]
  by (auto simp: MAX_MESSAGE_LENGTH_def)

text \<open>
  The assembler against an arbitrary peer: from an empty or consistent assembler, any packet
  either is refused and empties it, or completes a message of at most 64 KiB and empties it, or
  is kept, in which case it brought data and the assembler stays within its announced length.
\<close>

theorem tls_assembler_bounded:
  assumes "assembler_inv a"
  shows "assembler_inv (snd (add_fragment a p)) \<and> length (fragments (snd (add_fragment a p))) \<le> MAX_MESSAGE_LENGTH
     \<and> (case fst (add_fragment a p) of
          Inl e \<Rightarrow> snd (add_fragment a p) = Assembler_new
        | Inr (Some m) \<Rightarrow> snd (add_fragment a p) = Assembler_new \<and> m = fragments a @ tls_data p \<and> length m \<le> MAX_MESSAGE_LENGTH
        | Inr None \<Rightarrow> length (fragments a) < length (fragments (snd (add_fragment a p))))"
proof -
  obtain r a' where r: "add_fragment a p = (r, a')" by (cases "add_fragment a p")
  with add_fragment_step [OF assms, of p] have "assembler_inv a'"
    and "case r of Inl e \<Rightarrow> a' = Assembler_new
       | Inr (Some m) \<Rightarrow> a' = Assembler_new \<and> m = fragments a @ tls_data p \<and> length m \<le> MAX_MESSAGE_LENGTH
       | Inr None \<Rightarrow> length (fragments a) < length (fragments a')"
    by (auto split: sum.splits option.splits)
  then show ?thesis unfolding r fst_conv snd_conv using assembler_inv_bound [of a'] by blast
qed

theorem tls_assembler_bounded_witness:
  "assembler_inv (snd (add_fragment Assembler_new EapTlsPacket_start))"
  using tls_assembler_bounded [of Assembler_new EapTlsPacket_start] by simp

text \<open>
  C34. The fragmenter does not return for a non-empty message when the limit leaves no room for
  data next to the flags and the length field: at most 5 octets under the EAP-TLS policy.
\<close>

theorem fragment_diverges_below_6:
  assumes "max_size \<le> 5" "d \<noteq> []"
  shows "fragment_tls_message d max_size = None"
  using assms by (simp add: fragment_tls_message_def fragment_tls_message_with_def Let_def fragment_loop_stuck)

theorem fragment_diverges_below_6_witness: "fragment_tls_message [1] 5 = None"
  by (rule fragment_diverges_below_6) simp_all

section \<open>Keys and the context\<close>

lemma prf_loop_ge: "n \<le> length (prf_loop h s ls n a out)"
proof (induction h s ls n a out rule: prf_loop.induct)
  case (1 h s ls n a out)
  then show ?case by (subst prf_loop.simps) (simp add: Let_def not_less)
qed

lemma length_tls_prf: "length (tls_prf_sha256 h s l sd n) = n"
  by (simp add: tls_prf_sha256_def Let_def min_absorb2 prf_loop_ge)

lemma derive_keys_lengths:
  "length (fst (derive_keys h ms cr sr)) = 64 \<and> length (snd (derive_keys h ms cr sr)) = 64"
  by (simp add: derive_keys_def length_tls_prf Let_def)

text \<open>Calling \<open>get_next_fragment\<close> \<open>n\<close> times.\<close>

fun drain :: "nat \<Rightarrow> EapTlsContext \<Rightarrow> EapTlsPacket option list \<times> EapTlsContext" where
  "drain 0 c = ([], c)"
| "drain (Suc n) c = (case get_next_fragment c of (r, c') \<Rightarrow> case drain n c' of (rs, c'') \<Rightarrow> (r # rs, c''))"

lemma drain_from:
  "current_fragment_index c \<le> length (outgoing_fragments c) \<Longrightarrow>
   n = length (outgoing_fragments c) - current_fragment_index c \<Longrightarrow>
   drain n c = (map Some (drop (current_fragment_index c) (outgoing_fragments c)),
     c\<lparr>current_fragment_index := length (outgoing_fragments c)\<rparr>)"
proof (induction n arbitrary: c)
  case (Suc n)
  let ?i = "current_fragment_index c" and ?f = "outgoing_fragments c"
  have i: "?i < length ?f" using Suc.prems by simp
  let ?c = "c\<lparr>current_fragment_index := ?i + 1\<rparr>"
  have "drain n ?c = (map Some (drop (?i + 1) ?f), c\<lparr>current_fragment_index := length ?f\<rparr>)"
    by (subst Suc.IH) (use Suc.prems i in simp_all)
  with i show ?case
    by (simp add: get_next_fragment_def has_pending_fragments_def Cons_nth_drop_Suc [symmetric])
qed simp

text \<open>
  The outgoing queue: after queueing a message, as many calls of \<open>get_next_fragment\<close> as there
  are fragments return the fragments of the message in order, and then nothing is pending.
\<close>

theorem queued_fragments_sent_in_order:
  assumes "fragment_tls_message_with d max_size (length_flag_policy c) = Some ps"
  shows "\<exists>c'. queue_tls_data c d max_size = Some c' \<and> fst (drain (length ps) c') = map Some ps
     \<and> \<not> has_pending_fragments (snd (drain (length ps) c'))"
proof -
  let ?c = "c\<lparr>outgoing_fragments := ps, current_fragment_index := 0\<rparr>"
  have q: "queue_tls_data c d max_size = Some ?c" using assms by (simp add: queue_tls_data_def)
  have "drain (length ps) ?c = (map Some (drop 0 ps), ?c\<lparr>current_fragment_index := length ps\<rparr>)"
    by (subst drain_from) simp_all
  then have "fst (drain (length ps) ?c) = map Some ps" "\<not> has_pending_fragments (snd (drain (length ps) ?c))"
    by (simp_all add: has_pending_fragments_def)
  with q show ?thesis by blast
qed

theorem queued_fragments_sent_in_order_witness:
  "\<exists>ps c'. fragment_tls_message_with [1, 2, 3] 6 Always = Some ps \<and> queue_tls_data EapTlsContext_new [1, 2, 3] 6 = Some c'
     \<and> fst (drain (length ps) c') = map Some ps"
proof -
  obtain ps where "fragment_tls_message_with [1, 2, 3] 6 (length_flag_policy EapTlsContext_new) = Some ps"
    by (simp add: fragment_tls_message_with_def Let_def EapTlsContext_new_def fragment_loop_first)
  then show ?thesis
    using queued_fragments_sent_in_order [of "[1, 2, 3]" 6 EapTlsContext_new ps] by (auto simp: EapTlsContext_new_def)
qed

end
