(* ===== verification/Eap_Session.thy ===== *)
theory Eap_Session
  imports Eap_Packet
begin

text \<open>
  EAP sessions of \<open>eap.rs\<close>: the state machine of \<open>EapState\<close> and the operations of \<open>EapSession\<close>.
  Wall-clock time is an argument of every operation that reads it.
\<close>

section \<open>The state machine\<close>

datatype EapState =
    StateInitialize | StateIdentityRequested | StateIdentityReceived | StateMethodRequested
  | StateChallengeRequested | StateResponseReceived | StateSuccess | StateFailure | StateTimeout

definition is_terminal :: "EapState \<Rightarrow> bool" where
  "is_terminal s \<longleftrightarrow> s = StateSuccess \<or> s = StateFailure \<or> s = StateTimeout"

fun can_transition_to :: "EapState \<Rightarrow> EapState \<Rightarrow> bool" where
  "can_transition_to StateInitialize StateIdentityRequested = True"
| "can_transition_to StateIdentityRequested StateIdentityReceived = True"
| "can_transition_to StateIdentityRequested StateFailure = True"
| "can_transition_to StateIdentityRequested StateTimeout = True"
| "can_transition_to StateIdentityReceived StateMethodRequested = True"
| "can_transition_to StateIdentityReceived StateFailure = True"
| "can_transition_to StateMethodRequested StateChallengeRequested = True"
| "can_transition_to StateMethodRequested StateFailure = True"
| "can_transition_to StateMethodRequested StateTimeout = True"
| "can_transition_to StateChallengeRequested StateResponseReceived = True"
| "can_transition_to StateChallengeRequested StateFailure = True"
| "can_transition_to StateChallengeRequested StateTimeout = True"
| "can_transition_to StateResponseReceived StateSuccess = True"
| "can_transition_to StateResponseReceived StateFailure = True"
| "can_transition_to StateResponseReceived StateChallengeRequested = True"
| "can_transition_to s n = (if is_terminal s then False else False)"

section \<open>Sessions\<close>

record EapSession =
  session_id :: string
  eap_state :: EapState
  current_identifier :: u8
  eap_method :: "EapType option"
  identity :: "string option"
  last_request :: "EapPacket option"
  sess_challenge :: "bytes option"
  created_at :: u64
  last_activity :: u64
  attempt_count :: u32
  lru_seq :: u64
  outstanding_identifier :: "u8 option"
  peer_binding :: bytes

definition EapSession_new :: "u64 \<Rightarrow> string \<Rightarrow> EapSession" where
  "EapSession_new now sid = \<lparr>session_id = sid, eap_state = StateInitialize, current_identifier = 0,
     eap_method = None, identity = None, last_request = None, sess_challenge = None, created_at = now,
     last_activity = now, attempt_count = 0, lru_seq = 0, outstanding_identifier = None, peer_binding = []\<rparr>"

definition update_activity :: "u64 \<Rightarrow> EapSession \<Rightarrow> EapSession" where
  "update_activity now s = s\<lparr>last_activity := now\<rparr>"

definition session_transition :: "u64 \<Rightarrow> EapSession \<Rightarrow> EapState \<Rightarrow> EapError + EapSession" where
  "session_transition now s new_state =
     (if \<not> can_transition_to (eap_state s) new_state then Inl EapError_InvalidState
      else Inr (update_activity now (s\<lparr>eap_state := new_state\<rparr>)))"

definition seed_identifier_after :: "EapSession \<Rightarrow> u8 \<Rightarrow> EapSession" where
  "seed_identifier_after s response_identifier = s\<lparr>current_identifier := response_identifier + 1\<rparr>"

definition next_identifier :: "u64 \<Rightarrow> EapSession \<Rightarrow> u8 \<times> EapSession" where
  "next_identifier now s =
     (let i = current_identifier s
      in (i, update_activity now (s\<lparr>current_identifier := current_identifier s + 1, outstanding_identifier := Some i\<rparr>)))"

text \<open>\<open>saturating_sub\<close> on \<open>u64\<close>.\<close>

definition sat_sub :: "u64 \<Rightarrow> u64 \<Rightarrow> u64" where
  "sat_sub a b = (if a < b then 0 else a - b)"

definition is_timed_out_at :: "EapSession \<Rightarrow> u64 \<Rightarrow> u64 \<Rightarrow> bool" where
  "is_timed_out_at s now_secs timeout_seconds \<longleftrightarrow> sat_sub now_secs (last_activity s) > timeout_seconds"

definition session_age :: "u64 \<Rightarrow> EapSession \<Rightarrow> u64" where
  "session_age now s = now - created_at s"

definition increment_attempts :: "u64 \<Rightarrow> EapSession \<Rightarrow> EapSession" where
  "increment_attempts now s = update_activity now (s\<lparr>attempt_count := attempt_count s + 1\<rparr>)"

definition is_max_attempts_exceeded :: "EapSession \<Rightarrow> u32 \<Rightarrow> bool" where
  "is_max_attempts_exceeded s max_attempts \<longleftrightarrow> attempt_count s \<ge> max_attempts"

section \<open>Runs of the state machine\<close>

text \<open>A sequence of \<open>transition\<close> calls, ending at the first refusal.\<close>

fun transitions :: "u64 \<Rightarrow> EapSession \<Rightarrow> EapState list \<Rightarrow> EapError + EapSession" where
  "transitions now s [] = Inr s"
| "transitions now s (n # ns) = res_bind (session_transition now s n) (\<lambda>s. transitions now s ns)"

fun legal_run :: "EapState \<Rightarrow> EapState list \<Rightarrow> bool" where
  "legal_run s [] = True"
| "legal_run s (n # ns) \<longleftrightarrow> can_transition_to s n \<and> legal_run n ns"

lemma transitions_iff:
  "(\<exists>s'. transitions now s ns = Inr s' \<and> eap_state s' = t) \<longleftrightarrow> legal_run (eap_state s) ns \<and> last (eap_state s # ns) = t"
  by (induction ns arbitrary: s) (simp_all add: session_transition_def update_activity_def)

lemma can_transition_cases:
  "can_transition_to StateInitialize n \<longleftrightarrow> n = StateIdentityRequested"
  "can_transition_to StateIdentityRequested n \<longleftrightarrow> n \<in> {StateIdentityReceived, StateFailure, StateTimeout}"
  "can_transition_to StateIdentityReceived n \<longleftrightarrow> n \<in> {StateMethodRequested, StateFailure}"
  "can_transition_to StateMethodRequested n \<longleftrightarrow> n \<in> {StateChallengeRequested, StateFailure, StateTimeout}"
  "can_transition_to StateChallengeRequested n \<longleftrightarrow> n \<in> {StateResponseReceived, StateFailure, StateTimeout}"
  "can_transition_to StateResponseReceived n \<longleftrightarrow> n \<in> {StateSuccess, StateFailure, StateChallengeRequested}"
  by (cases n; simp)+

lemma terminal_final: "is_terminal s \<Longrightarrow> \<not> can_transition_to s n"
  by (cases s; cases n; simp add: is_terminal_def)

lemma legal_run_terminal: "is_terminal s \<Longrightarrow> legal_run s ns \<longleftrightarrow> ns = []"
  by (cases ns) (simp_all add: terminal_final)

text \<open>Runs that end in Success, one step at a time.\<close>

definition success_run :: "EapState \<Rightarrow> EapState list \<Rightarrow> bool" where
  "success_run s ns \<longleftrightarrow> legal_run s ns \<and> last (s # ns) = StateSuccess"

lemma success_run_simps:
  "success_run StateInitialize ns \<longleftrightarrow> (\<exists>ms. ns = StateIdentityRequested # ms \<and> success_run StateIdentityRequested ms)"
  "success_run StateIdentityRequested ns \<longleftrightarrow> (\<exists>ms. ns = StateIdentityReceived # ms \<and> success_run StateIdentityReceived ms)"
  "success_run StateIdentityReceived ns \<longleftrightarrow> (\<exists>ms. ns = StateMethodRequested # ms \<and> success_run StateMethodRequested ms)"
  "success_run StateMethodRequested ns \<longleftrightarrow> (\<exists>ms. ns = StateChallengeRequested # ms \<and> success_run StateChallengeRequested ms)"
  "success_run StateChallengeRequested ns \<longleftrightarrow> (\<exists>ms. ns = StateResponseReceived # ms \<and> success_run StateResponseReceived ms)"
  "success_run StateResponseReceived ns \<longleftrightarrow> ns = [StateSuccess]
     \<or> (\<exists>ms. ns = StateChallengeRequested # ms \<and> success_run StateChallengeRequested ms)"
  by (cases ns; auto simp: success_run_def can_transition_cases legal_run_terminal is_terminal_def)+

lemma success_run_from_response:
  "success_run StateResponseReceived ns \<longleftrightarrow>
     (\<exists>k. ns = concat (replicate k [StateChallengeRequested, StateResponseReceived]) @ [StateSuccess])"
proof
  assume "success_run StateResponseReceived ns"
  then show "\<exists>k. ns = concat (replicate k [StateChallengeRequested, StateResponseReceived]) @ [StateSuccess]"
  proof (induction ns rule: length_induct)
    case (1 ns)
    from 1(2) have "ns = [StateSuccess] \<or> (\<exists>ms. ns = StateChallengeRequested # StateResponseReceived # ms
        \<and> success_run StateResponseReceived ms)"
      unfolding success_run_simps(6) [of ns] success_run_simps(5) by blast
    then consider "ns = [StateSuccess]"
      | ms where "ns = StateChallengeRequested # StateResponseReceived # ms" "success_run StateResponseReceived ms"
      by blast
    then show ?case
    proof cases
      case 1
      then show ?thesis by (intro exI [of _ 0]) simp
    next
      case (2 ms)
      from 2(1) have "length ms < length ns" by simp
      with 1(1) 2(2) obtain k where "ms = concat (replicate k [StateChallengeRequested, StateResponseReceived]) @ [StateSuccess]"
        by blast
      with 2 show ?thesis by (intro exI [of _ "Suc k"]) simp
    qed
  qed
next
  assume "\<exists>k. ns = concat (replicate k [StateChallengeRequested, StateResponseReceived]) @ [StateSuccess]"
  then obtain k where "ns = concat (replicate k [StateChallengeRequested, StateResponseReceived]) @ [StateSuccess]" ..
  then show "success_run StateResponseReceived ns"
  proof (induction k arbitrary: ns)
    case 0
    then show ?case unfolding success_run_simps(6) [of ns] by simp
  next
    case (Suc k)
    let ?ms = "concat (replicate k [StateChallengeRequested, StateResponseReceived]) @ [StateSuccess]"
    have "success_run StateResponseReceived ?ms" by (rule Suc.IH) (rule refl)
    then have "success_run StateChallengeRequested (StateResponseReceived # ?ms)"
      unfolding success_run_simps(5) by blast
    moreover have "ns = StateChallengeRequested # StateResponseReceived # ?ms" using Suc.prems by simp
    ultimately show ?case unfolding success_run_simps(6) [of ns] by blast
  qed
qed

section \<open>Properties\<close>

text \<open>
  C31. A fresh session reaches Success in one way only: identity requested, identity received,
  method requested, then one or more challenge/response rounds, then Success; every such sequence
  of transitions is accepted.
\<close>

theorem success_only_through_rounds:
  "(\<exists>s. transitions now (EapSession_new t sid) ns = Inr s \<and> eap_state s = StateSuccess) \<longleftrightarrow>
     (\<exists>k. ns = [StateIdentityRequested, StateIdentityReceived, StateMethodRequested]
        @ concat (replicate (Suc k) [StateChallengeRequested, StateResponseReceived]) @ [StateSuccess])"
proof -
  have "(\<exists>s. transitions now (EapSession_new t sid) ns = Inr s \<and> eap_state s = StateSuccess) \<longleftrightarrow> success_run StateInitialize ns"
    by (simp add: transitions_iff EapSession_new_def success_run_def)
  also have "\<dots> \<longleftrightarrow> (\<exists>k. ns = [StateIdentityRequested, StateIdentityReceived, StateMethodRequested]
        @ concat (replicate (Suc k) [StateChallengeRequested, StateResponseReceived]) @ [StateSuccess])"
    unfolding success_run_simps(1-5) success_run_from_response by auto
  finally show ?thesis .
qed

end
