(* ===== verification/Eap_Session_Manager.thy ===== *)
theory Eap_Session_Manager
  imports Eap_Session "HOL-Library.Finite_Map"
begin

text \<open>
  \<open>EapSessionManager\<close> of \<open>eap.rs\<close> with its two maps: the sessions by identifier (a \<open>HashMap\<close>) and
  the least-recently-used order (a \<open>BTreeMap\<close> from sequence number to identifier, read in
  ascending order). The invariant ties the two together; every operation keeps it, and eviction
  is characterised from it.
\<close>

section \<open>The session manager\<close>

datatype ResponseClaim = Claimed | UnknownSession | BindingMismatch | IdentifierMismatch

datatype EvictionReason = EvictIdle | EvictCapacity

record EapSessionManager =
  mgr_sessions :: "(string, EapSession) fmap"
  mgr_lru :: "(u64, string) fmap"
  mgr_next_seq :: u64
  mgr_default_timeout :: u64
  mgr_max_attempts :: u32
  mgr_max_sessions :: nat

definition DEFAULT_IDLE_TIMEOUT_SECS :: u64 where
  "DEFAULT_IDLE_TIMEOUT_SECS = 120"

definition DEFAULT_MAX_SESSIONS :: nat where
  "DEFAULT_MAX_SESSIONS = 4096"

definition Manager_with_config :: "u64 \<Rightarrow> u32 \<Rightarrow> EapSessionManager" where
  "Manager_with_config timeout_seconds max_attempts =
     \<lparr>mgr_sessions = fmempty, mgr_lru = fmempty, mgr_next_seq = 1, mgr_default_timeout = timeout_seconds,
      mgr_max_attempts = max_attempts, mgr_max_sessions = DEFAULT_MAX_SESSIONS\<rparr>"

definition Manager_new :: EapSessionManager where
  "Manager_new = Manager_with_config 300 3"

definition set_idle_timeout_secs :: "EapSessionManager \<Rightarrow> u64 \<Rightarrow> EapSessionManager" where
  "set_idle_timeout_secs m t = m\<lparr>mgr_default_timeout := t\<rparr>"

definition set_max_sessions :: "EapSessionManager \<Rightarrow> nat \<Rightarrow> EapSessionManager" where
  "set_max_sessions m n = m\<lparr>mgr_max_sessions := max n 1\<rparr>"

definition touch :: "u64 \<Rightarrow> EapSessionManager \<Rightarrow> string \<Rightarrow> EapSessionManager" where
  "touch now m sid =
     (case fmlookup (mgr_sessions m) sid of
        None \<Rightarrow> m
      | Some s \<Rightarrow>
          let lru = fmdrop (lru_seq s) (mgr_lru m);
              seq = mgr_next_seq m;
              s = update_activity now (s\<lparr>lru_seq := seq\<rparr>)
          in m\<lparr>mgr_sessions := fmupd sid s (mgr_sessions m), mgr_lru := fmupd seq sid lru,
               mgr_next_seq := mgr_next_seq m + 1\<rparr>)"

definition remove_session :: "EapSessionManager \<Rightarrow> string \<Rightarrow> EapSession option \<times> EapSessionManager" where
  "remove_session m sid =
     (case fmlookup (mgr_sessions m) sid of
        None \<Rightarrow> (None, m)
      | Some s \<Rightarrow> (Some s, m\<lparr>mgr_sessions := fmdrop sid (mgr_sessions m), mgr_lru := fmdrop (lru_seq s) (mgr_lru m)\<rparr>))"

definition create_session :: "u64 \<Rightarrow> EapSessionManager \<Rightarrow> string \<Rightarrow> EapSessionManager" where
  "create_session now m sid =
     (let m = (case fmlookup (mgr_sessions m) sid of
                 Some old \<Rightarrow> m\<lparr>mgr_sessions := fmdrop sid (mgr_sessions m), mgr_lru := fmdrop (lru_seq old) (mgr_lru m)\<rparr>
               | None \<Rightarrow> m);
          m = m\<lparr>mgr_sessions := fmupd sid (EapSession_new now sid) (mgr_sessions m)\<rparr>
      in touch now m sid)"

definition get_session :: "EapSessionManager \<Rightarrow> string \<Rightarrow> EapSession option" where
  "get_session m sid = fmlookup (mgr_sessions m) sid"

text \<open>
  \<open>get_session_mut\<close> hands out a mutable reference; here it returns the session, and what the
  caller writes through the reference is stored with \<open>write_session\<close>.
\<close>

definition get_session_mut :: "u64 \<Rightarrow> EapSessionManager \<Rightarrow> string \<Rightarrow> EapSession option \<times> EapSessionManager" where
  "get_session_mut now m sid = (let m = touch now m sid in (fmlookup (mgr_sessions m) sid, m))"

definition write_session :: "EapSessionManager \<Rightarrow> string \<Rightarrow> EapSession \<Rightarrow> EapSessionManager" where
  "write_session m sid s = m\<lparr>mgr_sessions := fmupd sid s (mgr_sessions m)\<rparr>"

definition claim_response :: "EapSessionManager \<Rightarrow> string \<Rightarrow> bytes \<Rightarrow> u8 \<Rightarrow> ResponseClaim \<times> EapSessionManager" where
  "claim_response m sid binding identifier =
     (case fmlookup (mgr_sessions m) sid of
        None \<Rightarrow> (UnknownSession, m)
      | Some s \<Rightarrow>
          if peer_binding s \<noteq> binding then (BindingMismatch, m)
          else if outstanding_identifier s \<noteq> Some identifier then (IdentifierMismatch, m)
          else (Claimed, m\<lparr>mgr_sessions := fmupd sid (s\<lparr>outstanding_identifier := None\<rparr>) (mgr_sessions m)\<rparr>))"

definition get_or_create_session :: "u64 \<Rightarrow> EapSessionManager \<Rightarrow> string \<Rightarrow> EapSession option \<times> EapSessionManager" where
  "get_or_create_session now m sid =
     (let m = (if fmlookup (mgr_sessions m) sid = None then create_session now m sid else m)
      in get_session_mut now m sid)"

text \<open>The LRU order, oldest first, and its stale prefix: up to the first entry whose session is live.\<close>

definition lru_entries :: "EapSessionManager \<Rightarrow> (u64 \<times> string) list" where
  "lru_entries m = map (\<lambda>seq. (seq, the (fmlookup (mgr_lru m) seq))) (sorted_list_of_fset (fmdom (mgr_lru m)))"

definition stale_entry :: "EapSessionManager \<Rightarrow> u64 \<Rightarrow> u64 \<times> string \<Rightarrow> bool" where
  "stale_entry m now_secs = (\<lambda>(seq, sid). case fmlookup (mgr_sessions m) sid of
     Some s \<Rightarrow> is_timed_out_at s now_secs (mgr_default_timeout m)
   | None \<Rightarrow> True)"

fun drop_stale :: "(u64 \<times> string) list \<Rightarrow> EapSessionManager \<Rightarrow> (string \<times> EvictionReason) list \<Rightarrow>
    (string \<times> EvictionReason) list \<times> EapSessionManager" where
  "drop_stale [] m evicted = (evicted, m)"
| "drop_stale ((seq, sid) # stale) m evicted =
     (let present = (fmlookup (mgr_sessions m) sid \<noteq> None);
          m = m\<lparr>mgr_lru := fmdrop seq (mgr_lru m), mgr_sessions := fmdrop sid (mgr_sessions m)\<rparr>
      in drop_stale stale m (if present then evicted @ [(sid, EvictIdle)] else evicted))"

definition evict_idle_at :: "EapSessionManager \<Rightarrow> u64 \<Rightarrow> (string \<times> EvictionReason) list \<times> EapSessionManager" where
  "evict_idle_at m now_secs = drop_stale (takeWhile (stale_entry m now_secs) (lru_entries m)) m []"

definition session_count :: "EapSessionManager \<Rightarrow> nat" where
  "session_count m = fcard (fmdom (mgr_sessions m))"

lemma fcard_fmdrop_less: "fmlookup m k \<noteq> None \<Longrightarrow> fcard (fmdom (fmdrop k m)) < fcard (fmdom m)"
  unfolding fmdom_drop by (rule fcard_fminus1_less) (auto simp: fmlookup_dom_iff)

lemma fcard_fmdrop_le: "fcard (fmdom (fmdrop k m)) \<le> fcard (fmdom m)"
  by (rule fcard_mono) auto

lemma set_lru_entries: "(seq, sid) \<in> set (lru_entries m) \<longleftrightarrow> fmlookup (mgr_lru m) seq = Some sid"
  by (auto simp: lru_entries_def fmlookup_dom_iff)

lemma pop_first_less:
  "lru_entries m = (seq, sid) # es \<Longrightarrow>
     fcard (fmdom (fmdrop seq (mgr_lru m))) + fcard (fmdom (fmdrop sid (mgr_sessions m)))
     < fcard (fmdom (mgr_lru m)) + fcard (fmdom (mgr_sessions m))"
  using set_lru_entries [of seq sid m] fcard_fmdrop_less [of "mgr_lru m" seq] fcard_fmdrop_le [of sid "mgr_sessions m"]
  by (auto simp del: fmdom_drop)

text \<open>
  The capacity loop. \<open>pick\<close> stands for \<open>HashMap::keys().next()\<close>, whose order is unspecified; it is
  consulted only when the LRU order is empty, and a value that is not a key (which \<open>HashMap\<close>
  never yields) ends the loop.
\<close>

function evict_capacity :: "((string, EapSession) fmap \<Rightarrow> string) \<Rightarrow> EapSessionManager \<Rightarrow> (string \<times> EvictionReason) list \<Rightarrow>
    (string \<times> EvictionReason) list \<times> EapSessionManager" where
  "evict_capacity pick m evicted =
     (if session_count m < mgr_max_sessions m then (evicted, m)
      else case lru_entries m of
        (seq, sid) # _ \<Rightarrow>
          let present = (fmlookup (mgr_sessions m) sid \<noteq> None);
              m = m\<lparr>mgr_lru := fmdrop seq (mgr_lru m), mgr_sessions := fmdrop sid (mgr_sessions m)\<rparr>
          in evict_capacity pick m (if present then evicted @ [(sid, EvictCapacity)] else evicted)
      | [] \<Rightarrow>
          let sid = pick (mgr_sessions m)
          in if fmlookup (mgr_sessions m) sid = None then (evicted, m)
             else evict_capacity pick (m\<lparr>mgr_sessions := fmdrop sid (mgr_sessions m)\<rparr>) (evicted @ [(sid, EvictCapacity)]))"
  by pat_completeness auto
termination
  by (relation "measure (\<lambda>(pick, m, ev). fcard (fmdom (mgr_lru m)) + fcard (fmdom (mgr_sessions m)))")
    (auto simp: pop_first_less fcard_fmdrop_less simp del: fmdom_drop)

declare evict_capacity.simps [simp del]

definition evict_at :: "((string, EapSession) fmap \<Rightarrow> string) \<Rightarrow> EapSessionManager \<Rightarrow> u64 \<Rightarrow>
    (string \<times> EvictionReason) list \<times> EapSessionManager" where
  "evict_at pick m now_secs = (case evict_idle_at m now_secs of (evicted, m) \<Rightarrow> evict_capacity pick m evicted)"

definition cleanup_timed_out :: "u64 \<Rightarrow> EapSessionManager \<Rightarrow> nat \<times> EapSessionManager" where
  "cleanup_timed_out now m =
     (let before_count = fcard (fmdom (mgr_sessions m));
          ss = fmfilter (\<lambda>sid. \<not> is_timed_out_at (the (fmlookup (mgr_sessions m) sid)) now (mgr_default_timeout m)) (mgr_sessions m);
          m = m\<lparr>mgr_sessions := ss, mgr_lru := fmfilter (\<lambda>seq. the (fmlookup (mgr_lru m) seq) |\<in>| fmdom ss) (mgr_lru m)\<rparr>
      in (before_count - fcard (fmdom (mgr_sessions m)), m))"

definition cleanup_terminal :: "EapSessionManager \<Rightarrow> nat \<times> EapSessionManager" where
  "cleanup_terminal m =
     (let before_count = fcard (fmdom (mgr_sessions m));
          ss = fmfilter (\<lambda>sid. \<not> is_terminal (eap_state (the (fmlookup (mgr_sessions m) sid)))) (mgr_sessions m);
          m = m\<lparr>mgr_sessions := ss, mgr_lru := fmfilter (\<lambda>seq. the (fmlookup (mgr_lru m) seq) |\<in>| fmdom ss) (mgr_lru m)\<rparr>
      in (before_count - fcard (fmdom (mgr_sessions m)), m))"

section \<open>The manager's invariant\<close>

text \<open>
  The two maps describe each other: every LRU entry names a live session that carries its
  sequence number, and every session has its entry. Sequence numbers handed out stay below the
  next one and above 0, the number of a session that has not been entered yet.
\<close>

definition mgr_inv :: "EapSessionManager \<Rightarrow> bool" where
  "mgr_inv m \<longleftrightarrow>
     (\<forall>seq sid. fmlookup (mgr_lru m) seq = Some sid \<longrightarrow>
        (\<exists>s. fmlookup (mgr_sessions m) sid = Some s \<and> lru_seq s = seq)) \<and>
     (\<forall>sid s. fmlookup (mgr_sessions m) sid = Some s \<longrightarrow>
        fmlookup (mgr_lru m) (lru_seq s) = Some sid \<and> session_id s = sid) \<and>
     (\<forall>seq sid. fmlookup (mgr_lru m) seq = Some sid \<longrightarrow> 0 < seq \<and> seq < mgr_next_seq m) \<and>
     0 < mgr_next_seq m \<and> 1 \<le> mgr_max_sessions m"

lemma mgr_invD:
  assumes "mgr_inv m"
  shows "fmlookup (mgr_lru m) seq = Some sid \<Longrightarrow> \<exists>s. fmlookup (mgr_sessions m) sid = Some s \<and> lru_seq s = seq"
    and "fmlookup (mgr_sessions m) sid = Some s \<Longrightarrow> fmlookup (mgr_lru m) (lru_seq s) = Some sid"
    and "fmlookup (mgr_sessions m) sid = Some s \<Longrightarrow> session_id s = sid"
    and "fmlookup (mgr_lru m) seq = Some sid \<Longrightarrow> 0 < seq"
    and "fmlookup (mgr_lru m) seq = Some sid \<Longrightarrow> seq < mgr_next_seq m"
    and "0 < mgr_next_seq m" and "1 \<le> mgr_max_sessions m"
  using assms unfolding mgr_inv_def by blast+

lemma mgr_inv_init: "mgr_inv (Manager_with_config t a)"
  by (simp add: mgr_inv_def Manager_with_config_def DEFAULT_MAX_SESSIONS_def)

text \<open>Sequence numbers do not wrap as long as the last one is not in use.\<close>

lemma seq_Suc_greater: "(w :: u64) \<noteq> - 1 \<Longrightarrow> w < w + 1"
proof -
  assume "w \<noteq> - 1"
  then have "w + 1 \<noteq> 0" by (metis add_eq_0_iff2)
  moreover have u: "unat (w + 1) = (unat w + 1) mod 2 ^ 64" by (simp add: unat_word_ariths)
  ultimately have "unat w + 1 \<noteq> 2 ^ 64" by (metis mod_self unat_eq_zero)
  moreover have "unat w < 2 ^ LENGTH(64)" by (rule unsigned_less)
  ultimately have "unat w + 1 < 2 ^ 64" by simp
  then show ?thesis using u by (simp add: word_less_nat_alt)
qed

lemma mgr_invI:
  assumes "\<And>seq sid. fmlookup (mgr_lru m) seq = Some sid \<Longrightarrow> \<exists>s. fmlookup (mgr_sessions m) sid = Some s \<and> lru_seq s = seq"
    and "\<And>sid s. fmlookup (mgr_sessions m) sid = Some s \<Longrightarrow> fmlookup (mgr_lru m) (lru_seq s) = Some sid"
    and "\<And>sid s. fmlookup (mgr_sessions m) sid = Some s \<Longrightarrow> session_id s = sid"
    and "\<And>seq sid. fmlookup (mgr_lru m) seq = Some sid \<Longrightarrow> 0 < seq \<and> seq < mgr_next_seq m"
    and "0 < mgr_next_seq m" and "1 \<le> mgr_max_sessions m"
  shows "mgr_inv m"
  using assms unfolding mgr_inv_def by blast

lemma touch_lookup:
  assumes "fmlookup (mgr_sessions m) sid = Some s"
  shows "fmlookup (mgr_sessions (touch now m sid)) k =
      (if k = sid then Some (s\<lparr>lru_seq := mgr_next_seq m, last_activity := now\<rparr>) else fmlookup (mgr_sessions m) k)"
    and "fmlookup (mgr_lru (touch now m sid)) q =
      (if q = mgr_next_seq m then Some sid else if q = lru_seq s then None else fmlookup (mgr_lru m) q)"
    and "mgr_next_seq (touch now m sid) = mgr_next_seq m + 1"
    and "mgr_max_sessions (touch now m sid) = mgr_max_sessions m"
  using assms by (auto simp: touch_def Let_def update_activity_def)

text \<open>
  Touching a session keeps the invariant, also when the session has just been stored with
  sequence number 0 and no LRU entry.
\<close>

lemma touch_inv:
  assumes s: "fmlookup (mgr_sessions m) sid = Some s" "session_id s = sid"
    and lru: "\<And>q k. fmlookup (mgr_lru m) q = Some k \<Longrightarrow> q \<noteq> lru_seq s \<Longrightarrow>
        k \<noteq> sid \<and> (\<exists>t. fmlookup (mgr_sessions m) k = Some t \<and> lru_seq t = q)"
    and ses: "\<And>k t. fmlookup (mgr_sessions m) k = Some t \<Longrightarrow> k \<noteq> sid \<Longrightarrow>
        fmlookup (mgr_lru m) (lru_seq t) = Some k \<and> lru_seq t \<noteq> lru_seq s \<and> session_id t = k"
    and bound: "\<And>q k. fmlookup (mgr_lru m) q = Some k \<Longrightarrow> 0 < q \<and> q < mgr_next_seq m"
    and pos: "0 < mgr_next_seq m" "1 \<le> mgr_max_sessions m" "mgr_next_seq m \<noteq> - 1"
  shows "mgr_inv (touch now m sid)"
proof (rule mgr_invI, goal_cases)
  case (1 q k)
  then show ?case using lru [of q k] by (auto simp: touch_lookup [OF s(1)] split: if_splits)
next
  case (2 k t)
  then show ?case using ses [of k t] bound [of "lru_seq t" k] by (auto simp: touch_lookup [OF s(1)] split: if_splits)
next
  case (3 k t)
  then show ?case using ses [of k t] s(2) by (auto simp: touch_lookup [OF s(1)] split: if_splits)
next
  case (4 q k)
  then show ?case
    using bound [of q k] seq_Suc_greater [OF pos(3)] pos(1)
    by (auto simp: touch_lookup [OF s(1)] split: if_splits)
next
  case 5
  then show ?case using seq_Suc_greater [OF pos(3)] pos(1) by (auto simp: touch_lookup [OF s(1)])
next
  case 6
  then show ?case using pos by (simp add: touch_lookup [OF s(1)])
qed

lemma touch_mgr_inv:
  assumes inv: "mgr_inv m" and "mgr_next_seq m \<noteq> - 1"
  shows "mgr_inv (touch now m sid)"
proof (cases "fmlookup (mgr_sessions m) sid")
  case None
  then show ?thesis using inv by (simp add: touch_def)
next
  case (Some s)
  show ?thesis
  proof (rule touch_inv [OF Some])
    show "session_id s = sid" by (rule mgr_invD(3) [OF inv Some])
    show "k \<noteq> sid \<and> (\<exists>t. fmlookup (mgr_sessions m) k = Some t \<and> lru_seq t = q)"
      if "fmlookup (mgr_lru m) q = Some k" "q \<noteq> lru_seq s" for q k
      using mgr_invD(1) [OF inv that(1)] that(2) Some by auto
    show "fmlookup (mgr_lru m) (lru_seq t) = Some k \<and> lru_seq t \<noteq> lru_seq s \<and> session_id t = k"
      if "fmlookup (mgr_sessions m) k = Some t" "k \<noteq> sid" for k t
      using mgr_invD(2,3) [OF inv that(1)] mgr_invD(2) [OF inv Some] that(2) by auto
  qed (use mgr_invD [OF inv] assms(2) in auto)
qed

text \<open>Dropping a session together with its LRU entry.\<close>

definition drop_entry :: "EapSessionManager \<Rightarrow> u64 \<Rightarrow> string \<Rightarrow> EapSessionManager" where
  "drop_entry m seq sid = m\<lparr>mgr_lru := fmdrop seq (mgr_lru m), mgr_sessions := fmdrop sid (mgr_sessions m)\<rparr>"

lemma drop_entry_fields [simp]:
  "fmlookup (mgr_sessions (drop_entry m seq sid)) k = (if k = sid then None else fmlookup (mgr_sessions m) k)"
  "fmlookup (mgr_lru (drop_entry m seq sid)) q = (if q = seq then None else fmlookup (mgr_lru m) q)"
  "mgr_next_seq (drop_entry m seq sid) = mgr_next_seq m"
  "mgr_max_sessions (drop_entry m seq sid) = mgr_max_sessions m"
  "mgr_default_timeout (drop_entry m seq sid) = mgr_default_timeout m"
  by (simp_all add: drop_entry_def)

lemma drop_entry_inv:
  assumes inv: "mgr_inv m" and seq: "fmlookup (mgr_lru m) seq = Some sid"
  shows "mgr_inv (drop_entry m seq sid)"
proof (rule mgr_invI, goal_cases)
  case (1 q k)
  then show ?case using mgr_invD(1) [OF inv, of q k] mgr_invD(1) [OF inv seq] by (auto split: if_splits)
next
  case (2 k t)
  then show ?case using mgr_invD(2) [OF inv, of k t] mgr_invD(1) [OF inv seq] seq by (auto split: if_splits)
qed (use mgr_invD [OF inv] in \<open>auto split: if_splits\<close>)

lemma remove_session_eq:
  "fmlookup (mgr_sessions m) sid = Some s \<Longrightarrow> remove_session m sid = (Some s, drop_entry m (lru_seq s) sid)"
  by (simp add: remove_session_def drop_entry_def)

lemma remove_session_inv: "mgr_inv m \<Longrightarrow> mgr_inv (snd (remove_session m sid))"
proof (cases "fmlookup (mgr_sessions m) sid")
  case (Some s)
  assume "mgr_inv m"
  then show ?thesis using drop_entry_inv mgr_invD(2) [OF _ Some] by (simp add: remove_session_eq [OF Some])
qed (simp add: remove_session_def)

lemma create_session_inv:
  assumes inv: "mgr_inv m" and seq: "mgr_next_seq m \<noteq> - 1"
  shows "mgr_inv (create_session now m sid)"
proof -
  define m1 where "m1 = snd (remove_session m sid)"
  define m2 where "m2 = m1\<lparr>mgr_sessions := fmupd sid (EapSession_new now sid) (mgr_sessions m1)\<rparr>"
  have inv1: "mgr_inv m1" unfolding m1_def by (rule remove_session_inv [OF inv])
  have none: "fmlookup (mgr_sessions m1) sid = None" and next1: "mgr_next_seq m1 = mgr_next_seq m"
    by (auto simp: m1_def remove_session_def split: option.split)
  have "create_session now m sid = touch now m2 sid"
    by (cases "fmlookup (mgr_sessions m) sid") (auto simp: create_session_def m2_def m1_def remove_session_def Let_def)
  moreover have "mgr_inv (touch now m2 sid)"
  proof (rule touch_inv)
    show "fmlookup (mgr_sessions m2) sid = Some (EapSession_new now sid)" by (simp add: m2_def)
    show "session_id (EapSession_new now sid) = sid" by (simp add: EapSession_new_def)
    show "k \<noteq> sid \<and> (\<exists>t. fmlookup (mgr_sessions m2) k = Some t \<and> lru_seq t = q)"
      if "fmlookup (mgr_lru m2) q = Some k" for q k
      using mgr_invD(1) [OF inv1, of q k] that none by (auto simp: m2_def)
    show "fmlookup (mgr_lru m2) (lru_seq t) = Some k \<and> lru_seq t \<noteq> lru_seq (EapSession_new now sid) \<and> session_id t = k"
      if "fmlookup (mgr_sessions m2) k = Some t" "k \<noteq> sid" for k t
      using mgr_invD(2,3) [OF inv1, of k t] mgr_invD(4) [OF inv1, of "lru_seq t" k] that
      by (auto simp: m2_def EapSession_new_def)
  qed (use mgr_invD [OF inv1] seq next1 in \<open>auto simp: m2_def\<close>)
  ultimately show ?thesis by simp
qed

lemma write_session_inv:
  assumes "mgr_inv m" "fmlookup (mgr_sessions m) sid = Some old" "lru_seq s = lru_seq old" "session_id s = sid"
  shows "mgr_inv (write_session m sid s)"
proof (rule mgr_invI, goal_cases)
  case (1 q k)
  then show ?case using mgr_invD(1) [OF assms(1), of q k] assms by (auto simp: write_session_def)
qed (use mgr_invD [OF assms(1)] assms in \<open>auto simp: write_session_def split: if_splits\<close>)

lemma claim_response_inv: "mgr_inv m \<Longrightarrow> mgr_inv (snd (claim_response m sid b i))"
  by (cases "fmlookup (mgr_sessions m) sid")
    (auto simp: claim_response_def mgr_invD(3) intro!: write_session_inv [unfolded write_session_def])

lemma get_or_create_session_inv:
  assumes "mgr_inv m" "mgr_next_seq m \<noteq> - 1" "mgr_next_seq m + 1 \<noteq> - 1"
  shows "mgr_inv (snd (get_or_create_session now m sid))"
proof (cases "fmlookup (mgr_sessions m) sid")
  case None
  then have "mgr_next_seq (create_session now m sid) = mgr_next_seq m + 1"
    by (simp add: create_session_def touch_lookup(3))
  with None assms show ?thesis
    by (simp add: get_or_create_session_def get_session_mut_def Let_def touch_mgr_inv create_session_inv)
next
  case (Some s)
  with assms show ?thesis by (simp add: get_or_create_session_def get_session_mut_def Let_def touch_mgr_inv)
qed

lemma cleanup_inv:
  assumes inv: "mgr_inv m"
  shows "mgr_inv (m\<lparr>mgr_sessions := fmfilter P (mgr_sessions m),
     mgr_lru := fmfilter (\<lambda>seq. the (fmlookup (mgr_lru m) seq) |\<in>| fmdom (fmfilter P (mgr_sessions m))) (mgr_lru m)\<rparr>)"
    (is "mgr_inv ?m")
proof (rule mgr_invI, goal_cases)
  case (1 q k)
  then show ?case using mgr_invD(1) [OF inv, of q k] by (auto simp: fmlookup_dom_iff split: if_splits)
next
  case (2 k t)
  then show ?case using mgr_invD(2) [OF inv, of k t] by (auto simp: fmlookup_dom_iff split: if_splits)
qed (use mgr_invD [OF inv] in \<open>auto split: if_splits\<close>)

section \<open>Eviction\<close>

lemma drop_stale_spec:
  assumes "mgr_inv m" "\<forall>(seq, sid) \<in> set st. fmlookup (mgr_lru m) seq = Some sid" "distinct (map fst st)"
    and "drop_stale st m ev = (ev', m')"
  shows "mgr_inv m' \<and> ev' = ev @ map (\<lambda>(seq, sid). (sid, EvictIdle)) st
     \<and> (\<forall>k. fmlookup (mgr_sessions m') k = (if k \<in> snd ` set st then None else fmlookup (mgr_sessions m) k))
     \<and> mgr_max_sessions m' = mgr_max_sessions m \<and> mgr_next_seq m' = mgr_next_seq m"
  using assms
proof (induction st arbitrary: m ev)
  case (Cons e st)
  obtain seq sid where e: "e = (seq, sid)" by (cases e)
  have lru: "fmlookup (mgr_lru m) seq = Some sid" using Cons.prems(2) e by simp
  have pres: "fmlookup (mgr_sessions m) sid \<noteq> None" using mgr_invD(1) [OF Cons.prems(1) lru] by auto
  let ?m = "drop_entry m seq sid"
  have "\<forall>(q, k) \<in> set st. fmlookup (mgr_lru ?m) q = Some k"
    using Cons.prems(2,3) by (force simp: e)
  moreover have "drop_stale st ?m (ev @ [(sid, EvictIdle)]) = (ev', m')"
    using Cons.prems(4) pres by (simp add: e drop_entry_def)
  ultimately show ?case
    using Cons.IH [of ?m "ev @ [(sid, EvictIdle)]"] drop_entry_inv [OF Cons.prems(1) lru] Cons.prems(3)
    by (auto simp: e)
qed simp

lemma lru_entries_distinct: "distinct (map fst (lru_entries m))"
  by (simp add: lru_entries_def comp_def sorted_list_of_fset.rep_eq)

lemma lru_entries_sorted: "sorted (map fst (lru_entries m))"
  by (simp add: lru_entries_def comp_def sorted_list_of_fset.rep_eq)

lemma evict_idle_at_spec:
  assumes inv: "mgr_inv m" and "evict_idle_at m now = (ev, m')"
  shows "mgr_inv m' \<and> mgr_max_sessions m' = mgr_max_sessions m \<and> mgr_next_seq m' = mgr_next_seq m
     \<and> (\<forall>k. fmlookup (mgr_sessions m') k = (if k \<in> fst ` set ev then None else fmlookup (mgr_sessions m) k))
     \<and> (\<forall>(sid, r) \<in> set ev. r = EvictIdle \<and> (\<exists>s. fmlookup (mgr_sessions m) sid = Some s
          \<and> is_timed_out_at s now (mgr_default_timeout m)))"
proof -
  let ?st = "takeWhile (stale_entry m now) (lru_entries m)"
  have st: "\<forall>(seq, sid) \<in> set ?st. fmlookup (mgr_lru m) seq = Some sid \<and> stale_entry m now (seq, sid)"
    using set_lru_entries by (auto dest: set_takeWhileD)
  then have st1: "\<forall>(seq, sid) \<in> set ?st. fmlookup (mgr_lru m) seq = Some sid" by auto
  have "map fst (lru_entries m) = map fst ?st @ map fst (dropWhile (stale_entry m now) (lru_entries m))"
    by (simp flip: map_append)
  then have "distinct (map fst ?st)" using lru_entries_distinct [of m] by simp
  from drop_stale_spec [OF inv st1 this, of "[]" ev m'] assms(2)
  have spec: "mgr_inv m'" "ev = map (\<lambda>(seq, sid). (sid, EvictIdle)) ?st"
      "\<forall>k. fmlookup (mgr_sessions m') k = (if k \<in> snd ` set ?st then None else fmlookup (mgr_sessions m) k)"
      "mgr_max_sessions m' = mgr_max_sessions m" "mgr_next_seq m' = mgr_next_seq m"
    by (simp_all add: evict_idle_at_def)
  have "\<exists>s. fmlookup (mgr_sessions m) sid = Some s \<and> is_timed_out_at s now (mgr_default_timeout m)"
    if "(seq, sid) \<in> set ?st" for seq sid
    using st that mgr_invD(1) [OF inv, of seq sid] by (fastforce simp: stale_entry_def)
  moreover have "fst ` set ev = snd ` set ?st" unfolding spec(2) by (force simp: image_iff)
  ultimately show ?thesis using spec by (auto simp: spec(2))
qed

lemma lru_entries_nonempty:
  assumes inv: "mgr_inv m" and "mgr_max_sessions m \<le> session_count m"
  shows "lru_entries m \<noteq> []"
proof -
  have "0 < fcard (fmdom (mgr_sessions m))" using assms mgr_invD(7) [OF inv] by (simp add: session_count_def)
  then have "fmdom (mgr_sessions m) \<noteq> {||}" by (metis fcard_fempty less_irrefl)
  then obtain sid s where "fmlookup (mgr_sessions m) sid = Some s" by (auto simp: fmlookup_dom_iff)
  then have "(lru_seq s, sid) \<in> set (lru_entries m)" using mgr_invD(2) [OF inv] by (simp add: set_lru_entries)
  then show ?thesis by auto
qed

lemma lru_first_least:
  assumes inv: "mgr_inv m" and "lru_entries m = (seq, sid) # es" and k: "fmlookup (mgr_sessions m) k = Some t" "k \<noteq> sid"
  shows "seq < lru_seq t"
proof -
  have "(lru_seq t, k) \<in> set (lru_entries m)" using mgr_invD(2) [OF inv k(1)] by (simp add: set_lru_entries)
  then have "(lru_seq t, k) \<in> set es" using assms(2) k(2) by auto
  moreover have "sorted (seq # map fst es)" "distinct (seq # map fst es)"
    using lru_entries_sorted [of m] lru_entries_distinct [of m] assms(2) by simp_all
  ultimately show ?thesis by (force simp: order_le_less)
qed

lemma evict_capacity_spec:
  assumes "mgr_inv m" "evict_capacity pick m ev = (ev', m')"
  shows "mgr_inv m' \<and> session_count m' < mgr_max_sessions m' \<and> mgr_max_sessions m' = mgr_max_sessions m
     \<and> mgr_next_seq m' = mgr_next_seq m
     \<and> (\<exists>ids. ev' = ev @ map (\<lambda>sid. (sid, EvictCapacity)) ids
         \<and> (\<forall>k. fmlookup (mgr_sessions m') k = (if k \<in> set ids then None else fmlookup (mgr_sessions m) k))
         \<and> (\<forall>sid \<in> set ids. \<exists>s. fmlookup (mgr_sessions m) sid = Some s \<and>
              (\<forall>k t. fmlookup (mgr_sessions m') k = Some t \<longrightarrow> lru_seq s < lru_seq t))
         \<and> (session_count m < mgr_max_sessions m \<longrightarrow> ids = []))"
  using assms
proof (induction pick m ev rule: evict_capacity.induct)
  case (1 pick m ev)
  show ?case
  proof (cases "session_count m < mgr_max_sessions m")
    case True
    with 1(4) show ?thesis
      using \<open>mgr_inv m\<close> by (subst (asm) evict_capacity.simps) (auto intro!: exI [of _ "[]"])
  next
    case False
    then obtain seq sid es where e: "lru_entries m = (seq, sid) # es"
      using lru_entries_nonempty [OF \<open>mgr_inv m\<close>] by (cases "lru_entries m") auto
    let ?m = "drop_entry m seq sid"
    have lru: "fmlookup (mgr_lru m) seq = Some sid" using set_lru_entries [of seq sid m] e by simp
    then obtain s where s: "fmlookup (mgr_sessions m) sid = Some s" "lru_seq s = seq"
      using mgr_invD(1) [OF \<open>mgr_inv m\<close>] by blast
    have inv: "mgr_inv ?m" by (rule drop_entry_inv [OF \<open>mgr_inv m\<close> lru])
    have eq: "evict_capacity pick ?m (ev @ [(sid, EvictCapacity)]) = (ev', m')"
      using 1(4) False e s by (subst (asm) evict_capacity.simps) (simp add: drop_entry_def)
    have pres: "(fmlookup (mgr_sessions m) sid \<noteq> None) = True" using s by simp
    note IH = "1.IH"(2) [OF False e refl refl refl, folded drop_entry_def, unfolded pres if_True, OF inv eq]
    then obtain ids where ids: "ev' = (ev @ [(sid, EvictCapacity)]) @ map (\<lambda>sid. (sid, EvictCapacity)) ids"
        "\<forall>k. fmlookup (mgr_sessions m') k = (if k \<in> set ids then None else fmlookup (mgr_sessions ?m) k)"
        "\<forall>sid \<in> set ids. \<exists>s. fmlookup (mgr_sessions ?m) sid = Some s \<and>
           (\<forall>k t. fmlookup (mgr_sessions m') k = Some t \<longrightarrow> lru_seq s < lru_seq t)"
      by blast
    have "\<forall>k t. fmlookup (mgr_sessions m') k = Some t \<longrightarrow> lru_seq s < lru_seq t"
      using lru_first_least [OF \<open>mgr_inv m\<close> e] ids(2) s(2) by (auto split: if_splits)
    moreover have "\<forall>sid' \<in> set ids. \<exists>s. fmlookup (mgr_sessions m) sid' = Some s \<and>
           (\<forall>k t. fmlookup (mgr_sessions m') k = Some t \<longrightarrow> lru_seq s < lru_seq t)"
      using ids(3) by (auto split: if_splits)
    moreover have "\<forall>k. fmlookup (mgr_sessions m') k = (if k \<in> set (sid # ids) then None else fmlookup (mgr_sessions m) k)"
      using ids(2) by auto
    ultimately show ?thesis
    proof (intro conjI exI [of _ "sid # ids"])
      show "ev' = ev @ map (\<lambda>sid. (sid, EvictCapacity)) (sid # ids)" using ids(1) by simp
      show "session_count m < mgr_max_sessions m \<longrightarrow> sid # ids = []" using False by simp
    qed (use IH s(1) in \<open>simp_all\<close>)
  qed
qed

section \<open>Statistics\<close>

record SessionStats =
  stats_total :: nat
  stats_initialize :: nat
  stats_identity_requested :: nat
  stats_identity_received :: nat
  stats_method_requested :: nat
  stats_challenge_requested :: nat
  stats_response_received :: nat
  stats_success :: nat
  stats_failure :: nat
  stats_timeout :: nat

text \<open>The loop adds one to the counter of each session's state; the order does not matter.\<close>

definition count_state :: "EapSessionManager \<Rightarrow> EapState \<Rightarrow> nat" where
  "count_state m st = fcard (ffilter (\<lambda>sid. eap_state (the (fmlookup (mgr_sessions m) sid)) = st) (fmdom (mgr_sessions m)))"

definition manager_stats :: "EapSessionManager \<Rightarrow> SessionStats" where
  "manager_stats m = \<lparr>stats_total = fcard (fmdom (mgr_sessions m)),
     stats_initialize = count_state m StateInitialize,
     stats_identity_requested = count_state m StateIdentityRequested,
     stats_identity_received = count_state m StateIdentityReceived,
     stats_method_requested = count_state m StateMethodRequested,
     stats_challenge_requested = count_state m StateChallengeRequested,
     stats_response_received = count_state m StateResponseReceived,
     stats_success = count_state m StateSuccess,
     stats_failure = count_state m StateFailure,
     stats_timeout = count_state m StateTimeout\<rparr>"

section \<open>Histories\<close>

text \<open>
  One call of the manager. \<open>via_ref\<close> is what a caller does through the reference it got from
  \<open>get_session_mut\<close>: anything but changing the session's identifier or LRU number.
\<close>

inductive mgr_step :: "EapSessionManager \<Rightarrow> EapSessionManager \<Rightarrow> bool" where
  create: "mgr_step m (create_session now m sid)"
| remove: "mgr_step m (snd (remove_session m sid))"
| get_mut: "mgr_step m (snd (get_session_mut now m sid))"
| get_or_create: "mgr_step m (snd (get_or_create_session now m sid))"
| via_ref: "fmlookup (mgr_sessions m) sid = Some old \<Longrightarrow> lru_seq s = lru_seq old \<Longrightarrow> session_id s = session_id old
    \<Longrightarrow> mgr_step m (write_session m sid s)"
| claim: "mgr_step m (snd (claim_response m sid b i))"
| evict_idle: "mgr_step m (snd (evict_idle_at m now))"
| evict: "mgr_step m (snd (evict_at pick m now))"
| timed_out: "mgr_step m (snd (cleanup_timed_out now m))"
| terminal: "mgr_step m (snd (cleanup_terminal m))"
| set_timeout: "mgr_step m (set_idle_timeout_secs m t)"
| set_max: "mgr_step m (set_max_sessions m n)"

text \<open>The managers a program can hold, before the 64-bit sequence number is used up.\<close>

inductive mgr_reachable :: "EapSessionManager \<Rightarrow> bool" where
  init: "mgr_reachable (Manager_with_config t a)"
| step: "mgr_reachable m \<Longrightarrow> mgr_step m m' \<Longrightarrow> mgr_next_seq m < 0xFFFFFFFFFFFFFFFE \<Longrightarrow> mgr_reachable m'"

lemma seq_room: "(w :: u64) < 0xFFFFFFFFFFFFFFFE \<Longrightarrow> w \<noteq> - 1 \<and> w + 1 \<noteq> - 1"
proof (intro conjI notI)
  have m1: "(- 1 :: u64) = 0xFFFFFFFFFFFFFFFF" by simp
  assume w: "w < 0xFFFFFFFFFFFFFFFE"
  show False if "w = - 1" using w that unfolding m1 by simp
  show False if "w + 1 = - 1"
  proof -
    have "w = - 1 - 1" using that by (metis add_diff_cancel_right')
    then have "w = 0xFFFFFFFFFFFFFFFE" by simp
    with w show False by simp
  qed
qed

lemma evict_at_spec:
  assumes inv: "mgr_inv m" and "evict_at pick m now = (ev, m')"
  obtains idle ids m1 where "evict_idle_at m now = (idle, m1)" "mgr_inv m1" "mgr_inv m'"
    "ev = idle @ map (\<lambda>sid. (sid, EvictCapacity)) ids" "session_count m' < mgr_max_sessions m'"
    "mgr_max_sessions m' = mgr_max_sessions m"
    "\<forall>k. fmlookup (mgr_sessions m') k = (if k \<in> set ids then None else fmlookup (mgr_sessions m1) k)"
    "\<forall>sid \<in> set ids. \<exists>s. fmlookup (mgr_sessions m1) sid = Some s \<and>
       (\<forall>k t. fmlookup (mgr_sessions m') k = Some t \<longrightarrow> lru_seq s < lru_seq t)"
    "session_count m1 < mgr_max_sessions m1 \<longrightarrow> ids = []"
proof -
  obtain idle m1 where i: "evict_idle_at m now = (idle, m1)" by (cases "evict_idle_at m now")
  then have "evict_capacity pick m1 idle = (ev, m')" using assms(2) by (simp add: evict_at_def)
  moreover have "mgr_inv m1" "mgr_max_sessions m1 = mgr_max_sessions m" using evict_idle_at_spec [OF inv i] by auto
  ultimately have "mgr_inv m1" "mgr_max_sessions m1 = mgr_max_sessions m" and
    spec: "mgr_inv m' \<and> session_count m' < mgr_max_sessions m' \<and> mgr_max_sessions m' = mgr_max_sessions m1
     \<and> mgr_next_seq m' = mgr_next_seq m1
     \<and> (\<exists>ids. ev = idle @ map (\<lambda>sid. (sid, EvictCapacity)) ids
         \<and> (\<forall>k. fmlookup (mgr_sessions m') k = (if k \<in> set ids then None else fmlookup (mgr_sessions m1) k))
         \<and> (\<forall>sid \<in> set ids. \<exists>s. fmlookup (mgr_sessions m1) sid = Some s \<and>
              (\<forall>k t. fmlookup (mgr_sessions m') k = Some t \<longrightarrow> lru_seq s < lru_seq t))
         \<and> (session_count m1 < mgr_max_sessions m1 \<longrightarrow> ids = []))"
    using evict_capacity_spec [of m1 pick idle ev m'] by simp_all
  then show ?thesis using i that by (elim conjE exE) simp
qed

lemma mgr_step_inv:
  assumes "mgr_step m m'" "mgr_inv m" "mgr_next_seq m \<noteq> - 1" "mgr_next_seq m + 1 \<noteq> - 1"
  shows "mgr_inv m'"
  using assms
proof (induction rule: mgr_step.induct)
  case (via_ref m sid old s)
  then show ?case by (intro write_session_inv) (auto simp: mgr_invD(3))
next
  case (evict_idle m now)
  then show ?case using evict_idle_at_spec [of m now] by (cases "evict_idle_at m now") auto
next
  case (evict m pick now)
  then show ?case using evict_at_spec [of m pick now "fst (evict_at pick m now)" "snd (evict_at pick m now)"] by simp
next
  case (timed_out m now)
  then show ?case using cleanup_inv [of m] by (simp add: cleanup_timed_out_def Let_def)
next
  case (terminal m)
  then show ?case using cleanup_inv [of m] by (simp add: cleanup_terminal_def Let_def)
next
  case (set_timeout m t)
  then show ?case by (simp add: mgr_inv_def set_idle_timeout_secs_def)
next
  case (set_max m n)
  then show ?case by (simp add: mgr_inv_def set_max_sessions_def)
next
  case (get_mut m now sid)
  then show ?case by (simp add: get_session_mut_def Let_def touch_mgr_inv)
qed (simp_all add: create_session_inv remove_session_inv get_or_create_session_inv claim_response_inv)

section \<open>Properties\<close>

text \<open>
  C12. In every manager a program can hold, the session map and the LRU order describe each
  other exactly: each LRU entry names a live session with that sequence number, each session has
  its entry and is stored under its own identifier.
\<close>

theorem session_manager_consistent:
  assumes "mgr_reachable m"
  shows "mgr_inv m"
  using assms
proof induction
  case (init t a)
  show ?case by (rule mgr_inv_init)
next
  case (step m m')
  with seq_room [of "mgr_next_seq m"] show ?case by (auto intro: mgr_step_inv)
qed

theorem session_manager_consistent_witness:
  "mgr_inv (create_session 7 (Manager_with_config 300 3) ''alice'')"
proof (rule session_manager_consistent, rule mgr_reachable.step)
  show "mgr_reachable (Manager_with_config 300 3)" by (rule mgr_reachable.init)
  show "mgr_step (Manager_with_config 300 3) (create_session 7 (Manager_with_config 300 3) ''alice'')"
    by (rule mgr_step.create)
  show "mgr_next_seq (Manager_with_config 300 3) < 0xFFFFFFFFFFFFFFFE" by (simp add: Manager_with_config_def)
qed



text \<open>
  A Response is claimed exactly when it comes from the session's own peer with the
  Identifier of the outstanding Request; a refusal changes nothing; and once claimed, no other
  Response is claimed for that session, whatever its binding and Identifier, while all other
  sessions and the LRU order stay as they were.
\<close>

theorem response_claimed_once:
  assumes "claim_response m sid b i = (r, m')"
  shows "(r = Claimed \<longleftrightarrow> (\<exists>s. fmlookup (mgr_sessions m) sid = Some s \<and> peer_binding s = b \<and> outstanding_identifier s = Some i))
     \<and> (r \<noteq> Claimed \<longrightarrow> m' = m)
     \<and> (r = Claimed \<longrightarrow> fst (claim_response m' sid b' i') \<noteq> Claimed)
     \<and> mgr_lru m' = mgr_lru m \<and> (k \<noteq> sid \<longrightarrow> fmlookup (mgr_sessions m') k = fmlookup (mgr_sessions m) k)"
  using assms by (auto simp: claim_response_def split: option.splits if_splits)

theorem response_claimed_once_witness:
  "fst (claim_response (write_session (Manager_with_config 300 3) ''a'' (snd (next_identifier 5 (EapSession_new 5 ''a'')))) ''a'' [] 0)
     = Claimed"
proof -
  let ?m = "write_session (Manager_with_config 300 3) ''a'' (snd (next_identifier 5 (EapSession_new 5 ''a'')))"
  obtain r m' where e: "claim_response ?m ''a'' [] 0 = (r, m')" by (cases "claim_response ?m ''a'' [] 0")
  then show ?thesis
    using response_claimed_once [OF e]
    by (simp add: write_session_def next_identifier_def update_activity_def EapSession_new_def Let_def)
qed

end
