(* ===== verification/Radsec_Frame.thy ===== *)
theory Radsec_Frame
  imports Packet_Codec
begin

text \<open>
  RADIUS packets on a RadSec stream (\<open>radsec_frame.rs\<close>), and the reading loop that the listener
  and the outbound link share: drain every complete frame, then read more octets.
\<close>

section \<open>Definitions\<close>

definition RADSEC_SECRET :: bytes where
  "RADSEC_SECRET = str_bytes ''radsec''"

definition RADIUS_HEADER_LEN :: nat where
  "RADIUS_HEADER_LEN = 20"

definition RADIUS_MIN_LEN :: nat where
  "RADIUS_MIN_LEN = RADIUS_HEADER_LEN"

definition RADIUS_MAX_LEN :: nat where
  "RADIUS_MAX_LEN = 4096"

datatype FrameError = BadRadiusLength nat

text \<open>\<open>take_frame\<close> returns its result and the buffer it leaves.\<close>

definition take_frame :: "bytes \<Rightarrow> (FrameError + bytes option) \<times> bytes" where
  "take_frame buf =
     (if length buf < RADIUS_HEADER_LEN then (Inr None, buf)
      else let len = unat (u16_from_be_bytes (buf ! 2) (buf ! 3))
           in if \<not> (RADIUS_MIN_LEN \<le> len \<and> len \<le> RADIUS_MAX_LEN) then (Inl (BadRadiusLength len), buf)
              else if length buf < len then (Inr None, buf)
              else (Inr (Some (take len buf)), drop len buf))"

lemmas frame_consts = RADIUS_HEADER_LEN_def RADIUS_MIN_LEN_def RADIUS_MAX_LEN_def

lemma take_frame_Some:
  "take_frame buf = (Inr (Some f), rest) \<Longrightarrow> buf = f @ rest \<and> 20 \<le> length f"
  by (auto simp: take_frame_def frame_consts Let_def split: if_splits)

text \<open>
  The loop \<open>while let Some(frame) = take_frame(&mut buf)?\<close>: the frames in order, then the error or
  the octets left over.
\<close>

function drain_frames :: "bytes \<Rightarrow> bytes list \<times> (FrameError + bytes)" where
  "drain_frames buf =
     (case take_frame buf of
        (Inl e, buf) \<Rightarrow> ([], Inl e)
      | (Inr None, buf) \<Rightarrow> ([], Inr buf)
      | (Inr (Some frame), buf) \<Rightarrow> (case drain_frames buf of (frames, r) \<Rightarrow> (frame # frames, r)))"
  by pat_completeness auto
termination
proof (relation "measure length")
  fix buf y r x frame
  assume "(r, y) = take_frame buf" "r = Inr x" "x = Some frame"
  then have "buf = frame @ y" "20 \<le> length frame" using take_frame_Some [of buf frame y] by simp_all
  then show "(y, buf) \<in> measure length" by auto
qed simp

declare drain_frames.simps [simp del]

text \<open>The reading loop over the chunks the stream delivers, in order; it stops at the first error.\<close>

fun read_stream :: "bytes \<Rightarrow> bytes list \<Rightarrow> bytes list \<times> (FrameError + bytes)" where
  "read_stream buf [] = drain_frames buf"
| "read_stream buf (rd # reads) =
     (case drain_frames buf of
        (frames, Inl e) \<Rightarrow> (frames, Inl e)
      | (frames, Inr buf) \<Rightarrow> (case read_stream (buf @ rd) reads of (ext, r) \<Rightarrow> (frames @ ext, r)))"

section \<open>Framing does not depend on the reads\<close>

text \<open>More octets do not change what was decided on the ones already there.\<close>

lemma take_frame_append:
  "take_frame buf = (Inr (Some f), rest) \<Longrightarrow> take_frame (buf @ ext) = (Inr (Some f), rest @ ext)"
  "take_frame buf = (Inl e, rest) \<Longrightarrow> fst (take_frame (buf @ ext)) = Inl e"
  by (auto simp: take_frame_def frame_consts Let_def nth_append split: if_splits)

lemma take_frame_None: "take_frame buf = (Inr None, rest) \<Longrightarrow> rest = buf"
  by (auto simp: take_frame_def Let_def split: if_splits)

lemma drain_frames_append:
  "drain_frames (buf @ ext) =
     (case drain_frames buf of
        (frames, Inl e) \<Rightarrow> (frames, Inl e)
      | (frames, Inr rest) \<Rightarrow> (case drain_frames (rest @ ext) of (gs, r) \<Rightarrow> (frames @ gs, r)))"
proof (induction buf rule: drain_frames.induct)
  case (1 buf)
  obtain r rest where t: "take_frame buf = (r, rest)" by fastforce
  show ?case
  proof (cases r)
    case (Inl e)
    with t take_frame_append(2) [of buf e rest ext] show ?thesis
      by (cases "take_frame (buf @ ext)") (simp add: drain_frames.simps [of buf] drain_frames.simps [of "buf @ ext"])
  next
    case (Inr x)
    show ?thesis
    proof (cases x)
      case None
      with t Inr take_frame_None [of buf rest] show ?thesis
        by (simp add: drain_frames.simps [of buf] split: prod.split)
    next
      case (Some f)
      from 1 [OF t [symmetric] Inr Some] t Inr Some take_frame_append(1) [of buf f rest ext] show ?thesis
        by (simp add: drain_frames.simps [of buf] drain_frames.simps [of "buf @ ext"] split: prod.split sum.split)
    qed
  qed
qed

lemma read_stream_eq_drain: "read_stream buf reads = drain_frames (buf @ concat reads)"
proof (induction reads arbitrary: buf)
  case (Cons c cs)
  show ?case
    by (simp add: drain_frames_append [of buf "c @ concat cs"] Cons.IH split: prod.split sum.split)
qed simp

text \<open>An encoded packet is a frame.\<close>

lemma take_frame_packet:
  assumes "Packet_encode p = Inr bs"
  shows "take_frame (bs @ ext) = (Inr (Some bs), ext)"
proof -
  from assms have ok: "packet_ok p" and bs: "bs = packet_bytes p" by (auto simp: res_simps)
  have "20 \<le> Packet_length p" by (simp add: Packet_length_eq)
  moreover have "Packet_length p \<le> 4096" using ok by (simp add: packet_ok_def pkt_consts)
  moreover have "(bs @ ext) ! 2 = len_hi (Packet_length p)" "(bs @ ext) ! 3 = len_lo (Packet_length p)"
    by (simp_all add: bs packet_bytes_def numeral_2_eq_2 numeral_3_eq_3)
  moreover have "length bs = Packet_length p" by (simp add: bs)
  ultimately show ?thesis by (simp add: take_frame_def frame_consts unat_u16_len)
qed

lemma drain_frames_packets:
  assumes "list_all2 (\<lambda>p bs. Packet_encode p = Inr bs) ps fs"
  shows "drain_frames (concat fs @ tail) = (case drain_frames tail of (gs, r) \<Rightarrow> (fs @ gs, r))"
  using assms
proof (induction ps fs rule: list_all2_induct)
  case (Cons p ps f fs)
  from Cons(1) have "take_frame (f @ concat fs @ tail) = (Inr (Some f), concat fs @ tail)" by (rule take_frame_packet)
  with Cons(3) show ?case by (simp add: drain_frames.simps [of "f @ concat fs @ tail"] split: prod.split)
qed simp

lemma drain_frames_short: "length buf < 20 \<Longrightarrow> drain_frames buf = ([], Inr buf)"
  by (simp add: drain_frames.simps take_frame_def frame_consts)

section \<open>Properties\<close>

text \<open>
  C29. However the stream is cut into reads, the frames are exactly the packets that were written,
  in order, each decoding to its packet, and an incomplete header at the end is kept; the result
  of the loop is the same for any two ways of cutting the same octets, errors included.
\<close>

theorem radsec_stream_framing:
  assumes "list_all2 (\<lambda>p bs. Packet_encode p = Inr bs) ps fs" "concat reads = concat fs @ tail" "length tail < 20"
  shows "read_stream [] reads = (fs, Inr tail) \<and> map Packet_decode fs = map Inr ps
     \<and> (concat reads = concat reads' \<longrightarrow> read_stream buf reads = read_stream buf reads')"
proof (intro conjI impI)
  show "read_stream [] reads = (fs, Inr tail)"
    using assms by (simp add: read_stream_eq_drain drain_frames_packets drain_frames_short)
  have "Packet_decode bs = Inr p" if "Packet_encode p = Inr bs" for p bs
    using that Packet_decode_bytes [of p "[]"] by (simp add: res_simps)
  with assms(1) show "map Packet_decode fs = map Inr ps"
    by (induction ps fs rule: list_all2_induct) simp_all
qed (simp add: read_stream_eq_drain)

theorem radsec_stream_framing_witness:
  "\<exists>f. Packet_encode (Packet_new AccessReject 7 (arr16_of (replicate 16 1))) = Inr f \<and>
     read_stream [] [take 3 (f @ f), drop 3 (f @ f), [2, 8]] = ([f, f], Inr [2, 8]) \<and>
     read_stream [9] [take 3 (f @ f), drop 3 (f @ f), [2, 8]] = read_stream [9] [f @ f @ [2, 8]]"
proof -
  let ?p = "Packet_new AccessReject 7 (arr16_of (replicate 16 1))"
  obtain f where f: "Packet_encode ?p = Inr f"
    by (simp add: res_simps packet_ok_def Packet_new_def Packet_length_def pkt_consts)
  have c: "concat [take 3 (f @ f), drop 3 (f @ f), [2, 8]] = concat [f, f] @ [2, 8]"
    "concat [take 3 (f @ f), drop 3 (f @ f), [2, 8]] = concat [f @ f @ [2, 8]]"
    using append_take_drop_id [of 3 "f @ f"] by (simp_all del: append_take_drop_id take_append drop_append)
  from f have "list_all2 (\<lambda>p bs. Packet_encode p = Inr bs) [?p, ?p] [f, f]" by simp
  from radsec_stream_framing [OF this c(1), of "[f @ f @ [2, 8]]" "[9]"] f c(2) show ?thesis by (intro exI [of _ f]) simp
qed

end
