(* ===== verification/Server_Prelude.thy ===== *)
theory Server_Prelude
  imports Packet_Codec
begin

text \<open>
  Types and generic facts shared by the components of the server crate: socket addresses,
  instants and durations, the proxy's error type, and operations that mutate one element of a
  list in place. An \<open>Instant\<close> or \<open>Duration\<close> is a number of nanoseconds; \<open>duration_since\<close>
  saturates at zero, as subtraction on \<open>nat\<close> does.
\<close>

section \<open>Addresses and time\<close>

datatype IpAddr = IpV4 u32 | IpV6 "128 word"

datatype SocketAddr =
    SocketAddrV4 (sock_ip4: u32) (sock_port: u16)
  | SocketAddrV6 (sock_ip6: "128 word") (sock_port: u16) (sock_flowinfo: u32) (sock_scope: u32)

definition sock_ip :: "SocketAddr \<Rightarrow> IpAddr" where
  "sock_ip a = (case a of SocketAddrV4 ip _ \<Rightarrow> IpV4 ip | SocketAddrV6 ip _ _ _ \<Rightarrow> IpV6 ip)"

text \<open>\<open>SocketAddr::new\<close>, which sets no flow label and no scope.\<close>

definition SocketAddr_new :: "IpAddr \<Rightarrow> u16 \<Rightarrow> SocketAddr" where
  "SocketAddr_new ip port = (case ip of IpV4 a \<Rightarrow> SocketAddrV4 a port | IpV6 a \<Rightarrow> SocketAddrV6 a port 0 0)"

text \<open>\<open>IpAddr::to_canonical\<close>: an IPv4-mapped IPv6 address becomes its IPv4 address.\<close>

definition to_canonical :: "IpAddr \<Rightarrow> IpAddr" where
  "to_canonical ip =
     (case ip of IpV4 a \<Rightarrow> IpV4 a | IpV6 w \<Rightarrow> if drop_bit 32 w = 0xFFFF then IpV4 (ucast w) else IpV6 w)"

type_synonym instant = nat
type_synonym duration = nat

definition duration_since :: "instant \<Rightarrow> instant \<Rightarrow> duration" where
  "duration_since now earlier = now - earlier"

definition from_secs :: "u64 \<Rightarrow> duration" where
  "from_secs s = unat s * 1000000000"

section \<open>64-bit integers in network order\<close>

definition u64_to_be_bytes :: "u64 \<Rightarrow> bytes" where
  "u64_to_be_bytes w = map (\<lambda>i. ucast (drop_bit (56 - 8 * i) w)) [0..<8]"

lemma length_u64_to_be_bytes [simp]: "length (u64_to_be_bytes w) = 8"
  by (simp add: u64_to_be_bytes_def)

lemma u64_to_be_bytes_inject [simp]: "u64_to_be_bytes v = u64_to_be_bytes w \<longleftrightarrow> v = w"
proof
  assume eq: "u64_to_be_bytes v = u64_to_be_bytes w"
  show "v = w"
  proof (rule bit_word_eqI)
    fix n
    assume "n < LENGTH(64)"
    then have n: "n < 64" by simp
    let ?i = "7 - n div 8"
    have i: "?i < 8" "56 - 8 * ?i = 8 * (n div 8)" using n by auto
    from eq i(1) have "u64_to_be_bytes v ! ?i = u64_to_be_bytes w ! ?i" by simp
    with i have "ucast (drop_bit (8 * (n div 8)) v) = (ucast (drop_bit (8 * (n div 8)) w) :: u8)"
      by (simp add: u64_to_be_bytes_def del: upt_Suc)
    then have "bit (ucast (drop_bit (8 * (n div 8)) v) :: u8) (n mod 8) = bit (ucast (drop_bit (8 * (n div 8)) w) :: u8) (n mod 8)"
      by simp
    then show "bit v n = bit w n"
      using n by (simp add: bit_simps)
  qed
qed simp

section \<open>Proxy errors\<close>

text \<open>The \<open>Io\<close> and \<open>AddressParse\<close> variants carry the text of the standard library's error.\<close>

datatype ProxyError =
    ProxyIo string
  | ProxyPacket PacketError
  | Configuration string
  | HomeServerNotFound string
  | NoServersAvailable string
  | CacheFull nat
  | CorrelationFailed
  | ProxyLoop nat nat
  | ProxyTimeout u64
  | MaxRetriesExceeded u8
  | InvalidResponseAuthenticator
  | InvalidUserPassword string
  | AddressParse string
  | RealmNotFound string
  | InvalidRealmPattern string
  | LinkDown string
  | LinkBusy string
  | ProxyTls string

section \<open>Text and networks\<close>

text \<open>\<open>'{}'\<close> in a format string.\<close>

definition quoted :: "string \<Rightarrow> string" where
  "quoted s = CHR 0x27 # s @ [CHR 0x27]"

text \<open>Address parsing of the standard library and the network type of the \<open>ipnetwork\<close> crate.\<close>

record 'n ip_lib =
  parse_ip :: "string \<Rightarrow> IpAddr option"
  parse_net :: "string \<Rightarrow> string + 'n"
  net_contains :: "'n \<Rightarrow> IpAddr \<Rightarrow> bool"

text \<open>The match on the two parse results shared by the CIDR operators of both policy languages.\<close>

definition in_cidr :: "'n ip_lib \<Rightarrow> string \<Rightarrow> string \<Rightarrow> bool" where
  "in_cidr lib actual expected =
     (case (parse_ip lib actual, parse_net lib expected) of
        (Some ip, Inr net) \<Rightarrow> net_contains lib net ip
      | _ \<Rightarrow> False)"

text \<open>\<open>eq_ignore_ascii_case\<close> on octets.\<close>

definition ascii_lower :: "char \<Rightarrow> char" where
  "ascii_lower c = (if 65 \<le> (of_char c :: nat) \<and> (of_char c :: nat) \<le> 90 then char_of (of_char c + 32 :: nat) else c)"

definition eq_ignore_ascii_case :: "string \<Rightarrow> string \<Rightarrow> bool" where
  "eq_ignore_ascii_case a b \<longleftrightarrow> map ascii_lower a = map ascii_lower b"

section \<open>The first element with a property\<close>

lemma find_SomeD: "find P xs = Some x \<Longrightarrow> x \<in> set xs \<and> P x"
  by (induction xs) (auto split: if_splits)

text \<open>\<open>iter_mut().find(p)\<close> followed by a write through the reference.\<close>

fun update_first :: "('a \<Rightarrow> bool) \<Rightarrow> ('a \<Rightarrow> 'a) \<Rightarrow> 'a list \<Rightarrow> 'a list" where
  "update_first p f [] = []"
| "update_first p f (x # xs) = (if p x then f x # xs else x # update_first p f xs)"

lemma update_first_none [simp]: "\<forall>x \<in> set xs. \<not> p x \<Longrightarrow> update_first p f xs = xs"
  by (induction xs) auto

lemma length_update_first [simp]: "length (update_first p f xs) = length xs"
  by (induction xs) auto

lemma update_first_split:
  "\<forall>x \<in> set xs. \<not> p x \<Longrightarrow> p y \<Longrightarrow> update_first p f (xs @ y # ys) = xs @ f y # ys"
  by (induction xs) auto

lemma filter_update_first [simp]:
  "(\<And>x. p x \<Longrightarrow> \<not> q x) \<Longrightarrow> (\<And>x. p x \<Longrightarrow> \<not> q (f x)) \<Longrightarrow> filter q (update_first p f xs) = filter q xs"
  by (induction xs) auto

lemma set_update_first: "set (update_first p f xs) \<subseteq> set xs \<union> f ` {x \<in> set xs. p x}"
  by (induction xs) auto

lemma map_update_first: "(\<And>x. p x \<Longrightarrow> g (f x) = g x) \<Longrightarrow> map g (update_first p f xs) = map g xs"
  by (induction xs) auto

end
