(* ===== verification/Radsec_Link.thy ===== *)
theory Radsec_Link
  imports Radsec_Frame Server_Prelude Authenticators Accounting_Codes Eap_Packet "HOL-Library.Finite_Map"
begin

text \<open>
  The outbound RadSec link (\<open>proxy/radsec_client.rs\<close>): the state that the handles and the link
  task share, every operation of the handle, and the task's steps (connection established,
  connection lost, one inbound frame). TLS itself and the timers of the reconnect loop are not
  modelled; the outcome of a write is a parameter.
\<close>

section \<open>Shared state and the handle\<close>

datatype LinkSendError = SendDown | SendBusy

fun into_proxy_error :: "LinkSendError \<Rightarrow> string \<Rightarrow> ProxyError" where
  "into_proxy_error SendDown server = LinkDown server"
| "into_proxy_error SendBusy server = LinkBusy server"

datatype ProbeRegistrationError = DuplicateProbe u8

text \<open>
  \<open>lk_outbound\<close> is the bounded channel to the task, \<open>lk_open\<close> says whether its receiver exists;
  \<open>lk_reset\<close> is the one-slot reset channel; \<open>lk_probes\<close> maps an Identifier to the token of the
  waiting probe.
\<close>

record RadsecLink =
  lk_outbound :: "bytes list"
  lk_capacity :: nat
  lk_open :: bool
  lk_reset :: "(u64 \<times> string) option"
  lk_connected :: bool
  lk_probes :: "(u8, u64) fmap"
  lk_in_flight :: "(u8, instant) fmap"
  lk_identifier_ttl :: duration
  lk_connections :: u64

definition link_new :: "nat \<Rightarrow> duration \<Rightarrow> RadsecLink" where
  "link_new max_outstanding ttl =
     \<lparr>lk_outbound = [], lk_capacity = max max_outstanding 1, lk_open = True, lk_reset = None, lk_connected = False,
      lk_probes = fmempty, lk_in_flight = fmempty, lk_identifier_ttl = ttl, lk_connections = 0\<rparr>"

definition link_send :: "instant \<Rightarrow> RadsecLink \<Rightarrow> bytes \<Rightarrow> (LinkSendError + unit) \<times> RadsecLink" where
  "link_send now l frame =
     (if \<not> lk_connected l then (Inl SendDown, l)
      else if \<not> lk_open l then (Inl SendDown, l)
      else if lk_capacity l \<le> length (lk_outbound l) then (Inl SendBusy, l)
      else let l = l\<lparr>lk_outbound := lk_outbound l @ [frame]\<rparr>
           in (Inr (), if 1 < length frame then l\<lparr>lk_in_flight := fmupd (frame ! 1) now (lk_in_flight l)\<rparr> else l))"

definition is_connected :: "RadsecLink \<Rightarrow> bool" where
  "is_connected l = lk_connected l"

definition connections :: "RadsecLink \<Rightarrow> u64" where
  "connections l = lk_connections l"

text \<open>The probe table entry carries the token the caller drew from the static counter.\<close>

definition register_probe :: "u64 \<Rightarrow> RadsecLink \<Rightarrow> u8 \<Rightarrow> (ProbeRegistrationError + unit) \<times> RadsecLink" where
  "register_probe token l ident =
     (if fmlookup (lk_probes l) ident \<noteq> None then (Inl (DuplicateProbe ident), l)
      else (Inr (), l\<lparr>lk_probes := fmupd ident token (lk_probes l)\<rparr>))"

definition identifier_busy :: "RadsecLink \<Rightarrow> u8 \<Rightarrow> instant \<Rightarrow> bool" where
  "identifier_busy l ident now =
     (if fmlookup (lk_probes l) ident \<noteq> None then True
      else case fmlookup (lk_in_flight l) ident of
             None \<Rightarrow> False
           | Some sent \<Rightarrow> duration_since now sent < lk_identifier_ttl l)"

text \<open>\<open>rnd\<close> is the random choice among the free Identifiers.\<close>

definition free_identifier :: "nat \<Rightarrow> instant \<Rightarrow> RadsecLink \<Rightarrow> u8 option" where
  "free_identifier rnd now l =
     (let free = filter (\<lambda>i. \<not> identifier_busy l i now) (map word_of_nat [0..<256])
      in if free = [] then None else Some (free ! (rnd mod length free)))"

definition link_reset :: "RadsecLink \<Rightarrow> u64 \<Rightarrow> string \<Rightarrow> RadsecLink" where
  "link_reset l generation reason =
     (if \<not> lk_connected l \<or> generation \<noteq> connections l then l
      else if lk_open l \<and> lk_reset l = None then l\<lparr>lk_reset := Some (generation, reason)\<rparr> else l)"

definition link_in_flight :: "RadsecLink \<Rightarrow> nat" where
  "link_in_flight l = fcard (fmdom (lk_in_flight l))"

text \<open>Dropping the probe's receiver.\<close>

definition drop_probe :: "u64 \<Rightarrow> RadsecLink \<Rightarrow> u8 \<Rightarrow> RadsecLink" where
  "drop_probe token l ident =
     (if fmlookup (lk_probes l) ident = Some token
      then l\<lparr>lk_probes := fmdrop ident (lk_probes l), lk_in_flight := fmdrop ident (lk_in_flight l)\<rparr> else l)"

section \<open>The link task\<close>

definition drain_outbound :: "RadsecLink \<Rightarrow> nat \<times> RadsecLink" where
  "drain_outbound l = (length (lk_outbound l), l\<lparr>lk_outbound := []\<rparr>)"

text \<open>What \<open>run\<close> does when a connection is established and when it is over.\<close>

definition link_up :: "RadsecLink \<Rightarrow> RadsecLink" where
  "link_up l =
     (let l = snd (drain_outbound l); l = l\<lparr>lk_reset := None\<rparr>; l = l\<lparr>lk_in_flight := fmempty\<rparr>;
          l = l\<lparr>lk_connections := lk_connections l + 1\<rparr>
      in l\<lparr>lk_connected := True\<rparr>)"

definition link_down :: "RadsecLink \<Rightarrow> RadsecLink" where
  "link_down l = (let l = l\<lparr>lk_connected := False\<rparr>; l = l\<lparr>lk_probes := fmempty\<rparr> in snd (drain_outbound l))"

text \<open>The errors of a running connection; the remaining variants belong to TLS set-up.\<close>

datatype RadsecClientError =
    ClientIo string
  | ClientFrame FrameError
  | Malformed string
  | ClientPacket PacketError
  | ClientTimeout string

datatype LinkEnd = LinkEof | LinkReset string | HandleDropped

text \<open>What the task sends out: octets to the peer, a response to the handler, a reply to a probe.\<close>

datatype LinkOutput = WriteFrame bytes | LinkResponse Packet u64 | ProbeReply u64 Packet

definition unsupported_extension_nak ::
    "(bytes \<Rightarrow> arr16) \<Rightarrow> (bytes \<Rightarrow> bytes \<Rightarrow> arr16) \<Rightarrow> Packet \<Rightarrow> panic + (RadsecClientError + bytes)" where
  "unsupported_extension_nak md5 hmac_md5 request =
     (let code = (if pkt_code request = CoaRequest then CoaNak else DisconnectNak);
          nak = Packet_new code (pkt_identifier request) (pkt_authenticator request)
      in case Attribute_integer (AttributeType_as_u8 ErrorCause) (ErrorCause_as_u32 ErrorUnsupportedExtension) of
           Inl e \<Rightarrow> Inr (Inl (ClientPacket e))
         | Inr a \<Rightarrow> (case Attribute_new (AttributeType_as_u8 MessageAuthenticator) (replicate 16 0) of
           Inl e \<Rightarrow> Inr (Inl (ClientPacket e))
         | Inr ma \<Rightarrow>
           (let nak = add_attribute (add_attribute nak a) ma
            in case Packet_encode nak of
                 Inl e \<Rightarrow> Inr (Inl (ClientPacket e))
               | Inr bs \<Rightarrow>
                 (let mac = calculate_message_authenticator hmac_md5 bs RADSEC_SECRET;
                      nak = nak\<lparr>pkt_attributes := update_first
                        (\<lambda>a. attr_type a = AttributeType_as_u8 MessageAuthenticator)
                        (\<lambda>a. a\<lparr>attr_value := bytes16 mac\<rparr>) (pkt_attributes nak)\<rparr>
                  in res_bind (calculate_response_authenticator md5 nak (pkt_authenticator request) RADSEC_SECRET) (\<lambda>auth.
                       Inr (map_err ClientPacket (Packet_encode (nak\<lparr>pkt_authenticator := auth\<rparr>))))))))"

text \<open>
  One inbound frame. \<open>alive\<close> says whether the home server still exists, \<open>wr\<close> is the outcome of a
  write within the deadline. A probe's channel that is full or closed loses the reply; that is on
  the receiving side of the output.
\<close>

definition demux ::
    "(bytes \<Rightarrow> arr16) \<Rightarrow> (bytes \<Rightarrow> bytes \<Rightarrow> arr16) \<Rightarrow> (bytes \<Rightarrow> RadsecClientError + unit) \<Rightarrow> bool \<Rightarrow> RadsecLink \<Rightarrow> bytes
      \<Rightarrow> panic + (RadsecClientError + LinkEnd option) \<times> RadsecLink \<times> LinkOutput list" where
  "demux md5 hmac_md5 wr alive l frame =
     (case Packet_decode frame of
        Inl e \<Rightarrow> Inr (Inl (Malformed (PacketError_fmt e)), l, [])
      | Inr packet \<Rightarrow>
        if pkt_code packet = CoaRequest \<or> pkt_code packet = DisconnectRequest then
          res_bind (unsupported_extension_nak md5 hmac_md5 packet) (\<lambda>r.
            case r of
              Inl e \<Rightarrow> Inr (Inl e, l, [])
            | Inr nak \<Rightarrow> (case wr nak of
                Inl e \<Rightarrow> Inr (Inl e, l, [])
              | Inr _ \<Rightarrow> Inr (Inr None, l, [WriteFrame nak])))
        else
          let l = l\<lparr>lk_in_flight := fmdrop (pkt_identifier packet) (lk_in_flight l)\<rparr>
          in if list_ex (\<lambda>a. attr_type a = AttributeType_as_u8 ProxyState) (pkt_attributes packet) then
               if alive then Inr (Inr None, l, [LinkResponse packet (lk_connections l)])
               else Inr (Inr (Some HandleDropped), l, [])
             else case fmlookup (lk_probes l) (pkt_identifier packet) of
                    Some token \<Rightarrow> Inr (Inr None, l, [ProbeReply token packet])
                  | None \<Rightarrow> Inr (Inr None, l, []))"

text \<open>The \<open>select!\<close> branches of \<open>serve\<close> that take from the two channels.\<close>

definition serve_outbound :: "(bytes \<Rightarrow> RadsecClientError + unit) \<Rightarrow> RadsecLink \<Rightarrow> (RadsecClientError + LinkOutput option) \<times> RadsecLink" where
  "serve_outbound wr l =
     (case lk_outbound l of
        [] \<Rightarrow> (Inr None, l)
      | frame # rest \<Rightarrow> (case wr frame of
          Inl e \<Rightarrow> (Inl e, l\<lparr>lk_outbound := rest\<rparr>)
        | Inr _ \<Rightarrow> (Inr (Some (WriteFrame frame)), l\<lparr>lk_outbound := rest\<rparr>)))"

definition serve_reset :: "RadsecLink \<Rightarrow> LinkEnd option \<times> RadsecLink" where
  "serve_reset l =
     (case lk_reset l of
        None \<Rightarrow> (None, l)
      | Some (generation, reason) \<Rightarrow>
          (if generation = lk_connections l then Some (LinkReset reason) else None, l\<lparr>lk_reset := None\<rparr>))"

end
