(* ===== verification/Home_Servers.thy ===== *)
theory Home_Servers
  imports Radsec_Link "HOL-Library.Multiset"
begin

text \<open>
  Home servers and their pools (\<open>proxy/home_server.rs\<close>, \<open>proxy/pool.rs\<close>). Home servers are
  shared objects (\<open>Arc<HomeServer>\<close>) mutated through atomics, so they live in a store from
  addresses to values, and a pool holds addresses. \<open>AtomicU64\<close> counters wrap.
\<close>

section \<open>Home servers\<close>

datatype HomeServerTransport = Udp | Radsec

fun HomeServerTransport_fmt :: "HomeServerTransport \<Rightarrow> string" where
  "HomeServerTransport_fmt Udp = ''udp''"
| "HomeServerTransport_fmt Radsec = ''radsec''"

datatype HomeServerState = ServerUp | ServerDown | ServerDead

record HomeServerStats =
  requests_sent :: u64
  responses_received :: u64
  timeouts :: u64
  outstanding :: u64
  last_response :: "instant option"

definition HomeServerStats_default :: HomeServerStats where
  "HomeServerStats_default =
     \<lparr>requests_sent = 0, responses_received = 0, timeouts = 0, outstanding = 0, last_response = None\<rparr>"

text \<open>
  The compare-exchange loop ends with an exchange on the value it last read, or when that value
  is zero.
\<close>

definition release_outstanding :: "HomeServerStats \<Rightarrow> HomeServerStats" where
  "release_outstanding s = (if outstanding s = 0 then s else s\<lparr>outstanding := outstanding s - 1\<rparr>)"

definition record_request :: "HomeServerStats \<Rightarrow> HomeServerStats" where
  "record_request s = (let s = s\<lparr>requests_sent := requests_sent s + 1\<rparr> in s\<lparr>outstanding := outstanding s + 1\<rparr>)"

definition record_response :: "instant \<Rightarrow> HomeServerStats \<Rightarrow> HomeServerStats" where
  "record_response now s =
     (let s = s\<lparr>responses_received := responses_received s + 1\<rparr>; s = release_outstanding s
      in s\<lparr>last_response := Some now\<rparr>)"

definition record_timeout :: "HomeServerStats \<Rightarrow> HomeServerStats" where
  "record_timeout s = (let s = s\<lparr>timeouts := timeouts s + 1\<rparr> in release_outstanding s)"

definition time_since_last_response :: "instant \<Rightarrow> HomeServerStats \<Rightarrow> duration option" where
  "time_since_last_response now s = map_option (duration_since now) (last_response s)"

text \<open>
  The home server. Its TLS settings, which only the connection set-up reads, and its health
  counters are not part of the record.
\<close>

record HomeServer =
  hs_name :: string
  hs_address :: SocketAddr
  hs_secret :: bytes
  hs_timeout :: duration
  max_outstanding :: nat
  hs_transport :: HomeServerTransport
  hs_link :: "RadsecLink option"
  hs_state :: HomeServerState
  hs_stats :: HomeServerStats

definition set_state :: "HomeServer \<Rightarrow> HomeServerState \<Rightarrow> HomeServer" where
  "set_state s new_state = s\<lparr>hs_state := new_state\<rparr>"

definition is_available :: "HomeServer \<Rightarrow> bool" where
  "is_available s = (hs_state s = ServerUp)"

definition has_capacity :: "HomeServer \<Rightarrow> bool" where
  "has_capacity s = (outstanding (hs_stats s) < word_of_nat (max_outstanding s))"

definition attach_link :: "HomeServer \<Rightarrow> RadsecLink \<Rightarrow> HomeServer" where
  "attach_link s l = (case hs_link s of None \<Rightarrow> s\<lparr>hs_link := Some l\<rparr> | Some _ \<Rightarrow> s)"

definition link_generation :: "HomeServer \<Rightarrow> u64 option" where
  "link_generation s = map_option connections (hs_link s)"

definition server_connected :: "HomeServer \<Rightarrow> bool" where
  "server_connected s =
     (case hs_transport s of Udp \<Rightarrow> True | Radsec \<Rightarrow> (case hs_link s of None \<Rightarrow> False | Some l \<Rightarrow> is_connected l))"

definition mark_down :: "HomeServer \<Rightarrow> HomeServer" where
  "mark_down s = s\<lparr>hs_state := ServerDown\<rparr>"

definition mark_up :: "HomeServer \<Rightarrow> HomeServer" where
  "mark_up s = s\<lparr>hs_state := ServerUp\<rparr>"

definition mark_dead :: "HomeServer \<Rightarrow> HomeServer" where
  "mark_dead s = s\<lparr>hs_state := ServerDead\<rparr>"

section \<open>Pools\<close>

type_synonym server_ref = nat
type_synonym servers = "server_ref \<Rightarrow> HomeServer"

datatype LoadBalanceStrategy = RoundRobin | LeastOutstanding | Failover | Random

record HomeServerPool =
  pool_name :: string
  pool_servers :: "server_ref list"
  pool_strategy :: LoadBalanceStrategy
  round_robin_counter :: u64

definition usable :: "servers \<Rightarrow> server_ref \<Rightarrow> bool" where
  "usable srv r \<longleftrightarrow> is_available (srv r) \<and> has_capacity (srv r)"

text \<open>Selections return the server and the pool, whose counter the round-robin selection advances.\<close>

definition select_round_robin :: "servers \<Rightarrow> HomeServerPool \<Rightarrow> server_ref option \<times> HomeServerPool" where
  "select_round_robin srv p =
     (let available_servers = filter (usable srv) (pool_servers p)
      in if available_servers = [] then (None, p)
         else let counter = round_robin_counter p; p = p\<lparr>round_robin_counter := counter + 1\<rparr>;
                  index = unat counter mod length available_servers
              in (Some (available_servers ! index), p))"

text \<open>\<open>min_by_key\<close>, which returns the first of several minima.\<close>

fun min_by_key :: "('a \<Rightarrow> 'k :: linorder) \<Rightarrow> 'a list \<Rightarrow> 'a option" where
  "min_by_key key [] = None"
| "min_by_key key (x # xs) =
     (case min_by_key key xs of None \<Rightarrow> Some x | Some y \<Rightarrow> Some (if key x \<le> key y then x else y))"

definition select_least_outstanding :: "servers \<Rightarrow> HomeServerPool \<Rightarrow> server_ref option" where
  "select_least_outstanding srv p =
     min_by_key (\<lambda>r. outstanding (hs_stats (srv r))) (filter (usable srv) (pool_servers p))"

definition select_failover :: "servers \<Rightarrow> HomeServerPool \<Rightarrow> server_ref option" where
  "select_failover srv p = find (usable srv) (pool_servers p)"

definition select_random :: "nat \<Rightarrow> servers \<Rightarrow> HomeServerPool \<Rightarrow> server_ref option" where
  "select_random rnd srv p =
     (let available_servers = filter (usable srv) (pool_servers p)
      in if available_servers = [] then None
         else Some (available_servers ! (rnd mod length available_servers)))"

definition select_server :: "nat \<Rightarrow> servers \<Rightarrow> HomeServerPool \<Rightarrow> server_ref option \<times> HomeServerPool" where
  "select_server rnd srv p =
     (case pool_strategy p of
        RoundRobin \<Rightarrow> select_round_robin srv p
      | LeastOutstanding \<Rightarrow> (select_least_outstanding srv p, p)
      | Failover \<Rightarrow> (select_failover srv p, p)
      | Random \<Rightarrow> (select_random rnd srv p, p))"

record PoolStats =
  total_servers :: nat
  available_servers :: nat
  servers_with_capacity :: nat
  total_requests :: u64
  total_responses :: u64
  total_outstanding :: u64

definition pool_stats :: "servers \<Rightarrow> HomeServerPool \<Rightarrow> PoolStats" where
  "pool_stats srv p =
     \<lparr>total_servers = length (pool_servers p),
      available_servers = length (filter (\<lambda>r. is_available (srv r)) (pool_servers p)),
      servers_with_capacity = length (filter (usable srv) (pool_servers p)),
      total_requests = sum_list (map (\<lambda>r. requests_sent (hs_stats (srv r))) (pool_servers p)),
      total_responses = sum_list (map (\<lambda>r. responses_received (hs_stats (srv r))) (pool_servers p)),
      total_outstanding = sum_list (map (\<lambda>r. outstanding (hs_stats (srv r))) (pool_servers p))\<rparr>"

section \<open>The contract of a selection\<close>

text \<open>
  What the router relies on, whatever the strategy: a selected server belongs to the pool and may
  take a request, and nothing is selected only when no server of the pool may.
\<close>

locale selection =
  fixes sel :: "servers \<Rightarrow> HomeServerPool \<Rightarrow> server_ref option"
  assumes sel_Some: "sel srv p = Some r \<Longrightarrow> r \<in> set (pool_servers p) \<and> usable srv r"
    and sel_None: "sel srv p = None \<Longrightarrow> \<forall>r \<in> set (pool_servers p). \<not> usable srv r"
begin

lemma sel_None_iff: "sel srv p = None \<longleftrightarrow> (\<forall>r \<in> set (pool_servers p). \<not> usable srv r)"
proof
  assume "\<forall>r \<in> set (pool_servers p). \<not> usable srv r"
  then show "sel srv p = None" using sel_Some [of srv p] by (cases "sel srv p") auto
qed (rule sel_None)

text \<open>Recording the request on the selected server keeps the gauge within the server's limit.\<close>

lemma sel_within_limit:
  assumes "sel srv p = Some r"
  shows "outstanding (record_request (hs_stats (srv r))) \<le> word_of_nat (max_outstanding (srv r))"
proof -
  from sel_Some [OF assms] have "outstanding (hs_stats (srv r)) < word_of_nat (max_outstanding (srv r))"
    by (simp add: usable_def has_capacity_def)
  then show ?thesis by (simp add: record_request_def Let_def inc_le)
qed

end

lemma nth_filter_mod:
  assumes "filter P xs \<noteq> []"
  shows "filter P xs ! (n mod length (filter P xs)) \<in> set xs \<and> P (filter P xs ! (n mod length (filter P xs)))"
  using nth_mem [of "n mod length (filter P xs)" "filter P xs"] assms by simp

lemma min_by_key_None_iff [simp]: "min_by_key key xs = None \<longleftrightarrow> xs = []"
  by (cases xs) (simp_all split: option.split)

lemma min_by_key_Some:
  "min_by_key key xs = Some x \<Longrightarrow> x \<in> set xs \<and> (\<forall>y \<in> set xs. key x \<le> key y)"
proof (induction xs arbitrary: x)
  case (Cons y ys)
  then show ?case by (fastforce split: option.splits if_splits)
qed simp

interpretation round_robin: selection "\<lambda>srv p. fst (select_round_robin srv p)"
proof
  fix srv p r
  assume "fst (select_round_robin srv p) = Some r"
  then show "r \<in> set (pool_servers p) \<and> usable srv r"
    using nth_filter_mod [of "usable srv" "pool_servers p"]
    by (auto simp: select_round_robin_def Let_def split: if_splits)
qed (auto simp: select_round_robin_def Let_def filter_empty_conv split: if_splits)

interpretation least: selection select_least_outstanding
proof
  fix srv p r
  assume "select_least_outstanding srv p = Some r"
  then show "r \<in> set (pool_servers p) \<and> usable srv r"
    using min_by_key_Some [of "\<lambda>r. outstanding (hs_stats (srv r))" "filter (usable srv) (pool_servers p)" r]
    by (simp add: select_least_outstanding_def)
qed (auto simp: select_least_outstanding_def filter_empty_conv)

interpretation failover: selection select_failover
  by unfold_locales (auto simp: select_failover_def find_Some_iff find_None_iff)

interpretation random: selection "select_random rnd" for rnd
proof
  fix srv p r
  assume "select_random rnd srv p = Some r"
  then show "r \<in> set (pool_servers p) \<and> usable srv r"
    using nth_filter_mod [of "usable srv" "pool_servers p"]
    by (auto simp: select_random_def Let_def split: if_splits)
qed (auto simp: select_random_def Let_def filter_empty_conv split: if_splits)

interpretation pool: selection "\<lambda>srv p. fst (select_server rnd srv p)" for rnd
proof
  fix srv p r
  assume "fst (select_server rnd srv p) = Some r"
  then show "r \<in> set (pool_servers p) \<and> usable srv r"
    using round_robin.sel_Some least.sel_Some failover.sel_Some random.sel_Some
    by (cases "pool_strategy p") (auto simp: select_server_def)
next
  fix srv p
  assume "fst (select_server rnd srv p) = None"
  then show "\<forall>r \<in> set (pool_servers p). \<not> usable srv r"
    using round_robin.sel_None least.sel_None failover.sel_None random.sel_None
    by (cases "pool_strategy p") (auto simp: select_server_def)
qed

section \<open>Round robin over a stable pool\<close>

fun rr_run :: "nat \<Rightarrow> servers \<Rightarrow> HomeServerPool \<Rightarrow> server_ref option list" where
  "rr_run 0 srv p = []"
| "rr_run (Suc n) srv p = (case select_round_robin srv p of (s, p') \<Rightarrow> s # rr_run n srv p')"

lemma rr_run_eq:
  assumes "filter (usable srv) (pool_servers p) = us" "us \<noteq> []" "unat (round_robin_counter p) + n < 2 ^ 64"
  shows "rr_run n srv p = map (\<lambda>i. Some (us ! ((unat (round_robin_counter p) + i) mod length us))) [0..<n]"
  using assms
proof (induction n arbitrary: p)
  case (Suc n)
  let ?c = "round_robin_counter p"
  have c: "unat (?c + 1) = unat ?c + 1"
    using Suc.prems(3) by (simp add: unat_add_lem [THEN iffD1])
  have "rr_run (Suc n) srv p = Some (us ! (unat ?c mod length us)) # rr_run n srv (p\<lparr>round_robin_counter := ?c + 1\<rparr>)"
    using Suc.prems(1,2) by (simp add: select_round_robin_def Let_def)
  also have "rr_run n srv (p\<lparr>round_robin_counter := ?c + 1\<rparr>) =
      map (\<lambda>i. Some (us ! ((unat ?c + 1 + i) mod length us))) [0..<n]"
    using Suc.prems by (subst Suc.IH) (simp_all add: c)
  also have "Some (us ! (unat ?c mod length us)) # \<dots> = map (\<lambda>i. Some (us ! ((unat ?c + i) mod length us))) [0..<Suc n]"
    by (subst upt_conv_Cons) (simp_all add: map_Suc_upt [symmetric] comp_def del: upt_Suc)
  finally show ?case .
qed simp

lemma mset_rotate: "mset (rotate n xs) = mset xs"
proof (induction n)
  case (Suc n)
  have "mset (rotate1 ys) = mset ys" for ys :: "'a list" by (cases ys) simp_all
  with Suc show ?case by simp
qed simp

lemma mset_round:
  assumes "us \<noteq> []"
  shows "mset (map (\<lambda>i. us ! ((c + i) mod length us)) [0..<length us]) = mset us"
proof -
  have "map (\<lambda>i. us ! ((c + i) mod length us)) [0..<length us] = rotate c us"
    by (rule nth_equalityI) (simp_all add: nth_rotate)
  then show ?thesis by (simp add: mset_rotate)
qed

lemma mset_rounds:
  assumes "us \<noteq> []"
  shows "mset (map (\<lambda>i. us ! ((c + i) mod length us)) [0..<m * length us]) = repeat_mset m (mset us)"
proof (induction m)
  case (Suc m)
  let ?k = "length us"
  have "[0..<Suc m * ?k] = [0..<m * ?k] @ map (\<lambda>i. m * ?k + i) [0..<?k]"
    using upt_add_eq_append [of 0 "m * ?k" ?k] by (simp add: map_add_upt add.commute)
  moreover have "(c + (m * ?k + i)) mod ?k = (c + i) mod ?k" for i
    by (metis add.left_commute mod_mult_self3)
  ultimately show ?case using Suc mset_round [OF assms, of c] by (simp add: comp_def)
qed simp

section \<open>Properties\<close>

text \<open>
  C28. Server selection, for every strategy and every random number: nothing is selected exactly
  when no server of the pool is up with capacity; a selected server is one of those; least
  outstanding selects a server that no usable one undercuts, failover the first usable one in
  order; and recording the request keeps the server within its limit.
\<close>

theorem pool_selection_correct:
  "case fst (select_server rnd srv p) of
     None \<Rightarrow> \<forall>r \<in> set (pool_servers p). \<not> usable srv r
   | Some r \<Rightarrow> r \<in> set (pool_servers p) \<and> usable srv r
       \<and> outstanding (record_request (hs_stats (srv r))) \<le> word_of_nat (max_outstanding (srv r))
       \<and> (pool_strategy p = LeastOutstanding \<longrightarrow>
            (\<forall>s \<in> set (pool_servers p). usable srv s \<longrightarrow> outstanding (hs_stats (srv r)) \<le> outstanding (hs_stats (srv s))))
       \<and> (pool_strategy p = Failover \<longrightarrow>
            (\<exists>before after. pool_servers p = before @ r # after \<and> (\<forall>s \<in> set before. \<not> usable srv s)))"
proof (cases "fst (select_server rnd srv p)")
  case None
  then show ?thesis by (simp add: pool.sel_None)
next
  case (Some r)
  have l: "\<forall>s \<in> set (pool_servers p). usable srv s \<longrightarrow> outstanding (hs_stats (srv r)) \<le> outstanding (hs_stats (srv s))"
    if "pool_strategy p = LeastOutstanding"
    using Some that min_by_key_Some [of "\<lambda>r. outstanding (hs_stats (srv r))" "filter (usable srv) (pool_servers p)" r]
    by (simp add: select_server_def select_least_outstanding_def)
  have f: "\<exists>before after. pool_servers p = before @ r # after \<and> (\<forall>s \<in> set before. \<not> usable srv s)"
    if "pool_strategy p = Failover"
  proof -
    from Some that have "find (usable srv) (pool_servers p) = Some r" by (simp add: select_server_def select_failover_def)
    then obtain i where i: "i < length (pool_servers p)" "pool_servers p ! i = r" "\<forall>j < i. \<not> usable srv (pool_servers p ! j)"
      by (auto simp: find_Some_iff)
    then have "\<forall>s \<in> set (take i (pool_servers p)). \<not> usable srv s" by (auto simp: in_set_conv_nth)
    then show ?thesis using i id_take_nth_drop [OF i(1)] by blast
  qed
  from Some l f pool.sel_Some [OF Some] pool.sel_within_limit [OF Some] show ?thesis by simp
qed

theorem pool_selection_correct_witness:
  "usable (\<lambda>r. \<lparr>hs_name = [], hs_address = SocketAddrV4 0 0, hs_secret = [], hs_timeout = 0, max_outstanding = 3,
     hs_transport = Udp, hs_link = None, hs_state = (if r = 0 then ServerDown else ServerUp),
     hs_stats = HomeServerStats_default\<lparr>outstanding := word_of_nat r\<rparr>\<rparr>) 1"
  using pool_selection_correct [where rnd = 0 and srv = "\<lambda>r. \<lparr>hs_name = [], hs_address = SocketAddrV4 0 0, hs_secret = [], hs_timeout = 0,
     max_outstanding = 3, hs_transport = Udp, hs_link = None, hs_state = (if r = 0 then ServerDown else ServerUp),
     hs_stats = HomeServerStats_default\<lparr>outstanding := word_of_nat r\<rparr>\<rparr>"
     and p = "\<lparr>pool_name = [], pool_servers = [0, 2, 1], pool_strategy = LeastOutstanding, round_robin_counter = 0\<rparr>"]
  by (simp add: select_server_def select_least_outstanding_def usable_def is_available_def has_capacity_def
      HomeServerStats_default_def split: if_splits)

text \<open>
  Round robin is fair: while the same servers stay usable and the counter does not wrap,
  every \<open>m\<close> rounds of as many selections as there are usable servers select each of them exactly
  \<open>m\<close> times, wherever the counter stands.
\<close>

theorem round_robin_fair:
  assumes "filter (usable srv) (pool_servers p) = us" "us \<noteq> []"
    and "unat (round_robin_counter p) + m * length us < 2 ^ 64"
  shows "mset (rr_run (m * length us) srv p) = repeat_mset m (mset (map Some us))"
proof -
  let ?c = "unat (round_robin_counter p)"
  have "rr_run (m * length us) srv p = map Some (map (\<lambda>i. us ! ((?c + i) mod length us)) [0..<m * length us])"
    using rr_run_eq [OF assms] by simp
  then have "mset (rr_run (m * length us) srv p) = image_mset Some (repeat_mset m (mset us))"
    by (simp only: mset_map mset_rounds [OF assms(2), unfolded mset_map])
  moreover have "image_mset Some (repeat_mset m M) = repeat_mset m (image_mset Some M)" for M :: "nat multiset"
    by (induction m) simp_all
  ultimately show ?thesis by simp
qed

theorem round_robin_fair_witness:
  "mset (rr_run 4 (\<lambda>r. \<lparr>hs_name = [], hs_address = SocketAddrV4 0 0, hs_secret = [], hs_timeout = 0, max_outstanding = 3,
     hs_transport = Udp, hs_link = None, hs_state = (if r = 0 then ServerDown else ServerUp), hs_stats = HomeServerStats_default\<rparr>)
     \<lparr>pool_name = [], pool_servers = [0, 2, 1], pool_strategy = RoundRobin, round_robin_counter = 7\<rparr>)
   = repeat_mset 2 {#Some 2, Some 1#}"
  using round_robin_fair [where m = 2 and us = "[2, 1]" and
     srv = "\<lambda>r. \<lparr>hs_name = [], hs_address = SocketAddrV4 0 0, hs_secret = [], hs_timeout = 0, max_outstanding = 3,
     hs_transport = Udp, hs_link = None, hs_state = (if r = 0 then ServerDown else ServerUp), hs_stats = HomeServerStats_default\<rparr>"
     and p = "\<lparr>pool_name = [], pool_servers = [0, 2, 1], pool_strategy = RoundRobin, round_robin_counter = 7\<rparr>"]
  by (simp add: usable_def is_available_def has_capacity_def HomeServerStats_default_def del: One_nat_def)

end
