(* ===== verification/Proxy_Routing.thy ===== *)
theory Proxy_Routing
  imports Home_Servers
begin

text \<open>
  Realms and the router (\<open>proxy/realm.rs\<close>, \<open>proxy/router.rs\<close>). Pools are shared between realms
  and advance a counter, so they live in a store and realms refer to them. The \<open>regex\<close> crate is
  a parameter: \<open>regex_new\<close> compiles a pattern and \<open>is_match\<close> applies it.
\<close>

section \<open>Realms\<close>

record RealmMatchConfig =
  match_type :: string
  match_pattern :: string

datatype 'r RealmMatcher = Exact string | Suffix string | Regex 'r

definition RealmMatcher_from_config :: "(string \<Rightarrow> string + 'r) \<Rightarrow> RealmMatchConfig \<Rightarrow> ProxyError + 'r RealmMatcher" where
  "RealmMatcher_from_config regex_new config =
     (if match_type config = ''exact'' then Inr (Exact (match_pattern config))
      else if match_type config = ''suffix'' then Inr (Suffix (match_pattern config))
      else if match_type config = ''regex'' then
        res_bind (map_err (\<lambda>e. InvalidRealmPattern
            (''Invalid regex pattern '' @ [CHR 0x27] @ match_pattern config @ [CHR 0x27] @ '': '' @ e))
          (regex_new (match_pattern config))) (\<lambda>regex. Inr (Regex regex))
      else Inl (Configuration (''Invalid realm match type: '' @ [CHR 0x27] @ match_type config @ [CHR 0x27]
        @ '' (must be '' @ [CHR 0x27] @ ''exact'' @ [CHR 0x27] @ '', '' @ [CHR 0x27] @ ''suffix'' @ [CHR 0x27]
        @ '', or '' @ [CHR 0x27] @ ''regex'' @ [CHR 0x27] @ '')'')))"

definition ends_with :: "string \<Rightarrow> string \<Rightarrow> bool" where
  "ends_with s suffix \<longleftrightarrow> length suffix \<le> length s \<and> drop (length s - length suffix) s = suffix"

fun RealmMatcher_matches :: "('r \<Rightarrow> string \<Rightarrow> bool) \<Rightarrow> 'r RealmMatcher \<Rightarrow> string \<Rightarrow> bool" where
  "RealmMatcher_matches is_match (Exact pattern) realm = (realm = pattern)"
| "RealmMatcher_matches is_match (Suffix pattern) realm = ends_with realm pattern"
| "RealmMatcher_matches is_match (Regex regex) realm = is_match regex realm"

record RealmConfig =
  rc_name :: string
  rc_match_config :: RealmMatchConfig
  rc_pool :: string
  rc_strip_realm :: bool

definition RealmConfig_validate :: "(string \<Rightarrow> string + 'r) \<Rightarrow> RealmConfig \<Rightarrow> ProxyError + unit" where
  "RealmConfig_validate regex_new c =
     (if rc_name c = [] then Inl (Configuration ''Realm name cannot be empty'')
      else if rc_pool c = [] then
        Inl (Configuration (''Realm '' @ [CHR 0x27] @ rc_name c @ [CHR 0x27] @ '' has no pool configured''))
      else res_bind (RealmMatcher_from_config regex_new (rc_match_config c)) (\<lambda>_. Inr ()))"

type_synonym pool_ref = nat

record 'r Realm =
  realm_name :: string
  realm_matcher :: "'r RealmMatcher"
  realm_pool :: pool_ref
  realm_strip :: bool

definition Realm_new :: "(string \<Rightarrow> string + 'r) \<Rightarrow> RealmConfig \<Rightarrow> pool_ref \<Rightarrow> ProxyError + 'r Realm" where
  "Realm_new regex_new config pool =
     res_bind (RealmConfig_validate regex_new config) (\<lambda>_.
     res_bind (RealmMatcher_from_config regex_new (rc_match_config config)) (\<lambda>matcher.
     Inr \<lparr>realm_name = rc_name config, realm_matcher = matcher, realm_pool = pool, realm_strip = rc_strip_realm config\<rparr>))"

definition Realm_matches :: "('r \<Rightarrow> string \<Rightarrow> bool) \<Rightarrow> 'r Realm \<Rightarrow> string \<Rightarrow> bool" where
  "Realm_matches is_match r realm = RealmMatcher_matches is_match (realm_matcher r) realm"

text \<open>\<open>find(c)\<close> and \<open>rfind(c)\<close> on a string, with the text before and after the character.\<close>

fun split_first :: "char \<Rightarrow> string \<Rightarrow> (string \<times> string) option" where
  "split_first c [] = None"
| "split_first c (x # xs) = (if x = c then Some ([], xs) else map_option (\<lambda>(a, b). (x # a, b)) (split_first c xs))"

fun split_last :: "char \<Rightarrow> string \<Rightarrow> (string \<times> string) option" where
  "split_last c [] = None"
| "split_last c (x # xs) =
     (case split_last c xs of
        Some (a, b) \<Rightarrow> Some (x # a, b)
      | None \<Rightarrow> if x = c then Some ([], xs) else None)"

definition extract_realm :: "string \<Rightarrow> string option" where
  "extract_realm username =
     (let prefix = (case split_first (CHR 0x5C) username of
             Some (realm, _) \<Rightarrow> if realm \<noteq> [] then Some realm else None
           | None \<Rightarrow> None)
      in case split_last (CHR ''@'') username of
           Some (_, realm) \<Rightarrow> if realm \<noteq> [] then Some realm else prefix
         | None \<Rightarrow> prefix)"

definition strip_realm :: "string \<Rightarrow> string" where
  "strip_realm username =
     (case split_last (CHR ''@'') username of
        Some (user, _) \<Rightarrow> user
      | None \<Rightarrow> (case split_first (CHR 0x5C) username of
          Some (_, user) \<Rightarrow> user
        | None \<Rightarrow> username))"

section \<open>The router\<close>

datatype RoutingDecision = Proxy server_ref "string option" | Local | Reject

record 'r Router =
  realms :: "'r Realm list"
  default_realm :: "string option"

type_synonym pools = "pool_ref \<Rightarrow> HomeServerPool"

definition Router_new :: "'r Realm list \<Rightarrow> string option \<Rightarrow> 'r Router" where
  "Router_new rs d = \<lparr>realms = rs, default_realm = d\<rparr>"

definition Router_default :: "'r Router" where
  "Router_default = Router_new [] (Some ''local'')"

text \<open>Selecting from a pool in the store.\<close>

definition select_from :: "nat \<Rightarrow> servers \<Rightarrow> pools \<Rightarrow> pool_ref \<Rightarrow> server_ref option \<times> pools" where
  "select_from rnd srv ps r = (case select_server rnd srv (ps r) of (s, p) \<Rightarrow> (s, ps(r := p)))"

fun default_loop :: "nat \<Rightarrow> servers \<Rightarrow> pools \<Rightarrow> string \<Rightarrow> 'r Realm list \<Rightarrow> RoutingDecision \<times> pools" where
  "default_loop rnd srv ps d [] = (Reject, ps)"
| "default_loop rnd srv ps d (r # rs) =
     (if realm_name r = d then
        case select_from rnd srv ps (realm_pool r) of
          (Some home_server, ps) \<Rightarrow> (Proxy home_server None, ps)
        | (None, ps) \<Rightarrow> (Reject, ps)
      else default_loop rnd srv ps d rs)"

definition handle_default_realm :: "nat \<Rightarrow> servers \<Rightarrow> pools \<Rightarrow> 'r Router \<Rightarrow> RoutingDecision \<times> pools" where
  "handle_default_realm rnd srv ps router =
     (case default_realm router of
        Some d \<Rightarrow> if d = ''local'' then (Local, ps) else default_loop rnd srv ps d (realms router)
      | None \<Rightarrow> (Local, ps))"

fun realm_loop ::
    "('r \<Rightarrow> string \<Rightarrow> bool) \<Rightarrow> nat \<Rightarrow> servers \<Rightarrow> pools \<Rightarrow> string \<Rightarrow> string \<Rightarrow> 'r Router \<Rightarrow> 'r Realm list \<Rightarrow> RoutingDecision \<times> pools" where
  "realm_loop is_match rnd srv ps username realm_str router [] = handle_default_realm rnd srv ps router"
| "realm_loop is_match rnd srv ps username realm_str router (r # rs) =
     (if Realm_matches is_match r realm_str then
        case select_from rnd srv ps (realm_pool r) of
          (Some home_server, ps) \<Rightarrow> (Proxy home_server (if realm_strip r then Some (strip_realm username) else None), ps)
        | (None, ps) \<Rightarrow> (Reject, ps)
      else realm_loop is_match rnd srv ps username realm_str router rs)"

definition route_request ::
    "('r \<Rightarrow> string \<Rightarrow> bool) \<Rightarrow> nat \<Rightarrow> servers \<Rightarrow> pools \<Rightarrow> 'r Router \<Rightarrow> Packet \<Rightarrow> RoutingDecision \<times> pools" where
  "route_request is_match rnd srv ps router request =
     (case Option.bind (find_attribute request (AttributeType_as_u8 UserName)) (\<lambda>attr. res_ok (as_string attr)) of
        None \<Rightarrow> (Reject, ps)
      | Some username \<Rightarrow>
        (case extract_realm username of
           Some realm_str \<Rightarrow> realm_loop is_match rnd srv ps username realm_str router (realms router)
         | None \<Rightarrow> handle_default_realm rnd srv ps router))"

definition realm_count :: "'r Router \<Rightarrow> nat" where
  "realm_count router = length (realms router)"

definition has_realm :: "'r Router \<Rightarrow> string \<Rightarrow> bool" where
  "has_realm router name = list_ex (\<lambda>r. realm_name r = name) (realms router)"

section \<open>Splitting names\<close>

lemma split_first_Some_iff: "split_first c s = Some (a, b) \<longleftrightarrow> s = a @ c # b \<and> c \<notin> set a"
  by (induction s arbitrary: a b) (auto simp: Cons_eq_append_conv split: if_splits)

lemma split_first_None_iff: "split_first c s = None \<longleftrightarrow> c \<notin> set s"
  by (induction s) auto

lemma split_last_None_iff: "split_last c s = None \<longleftrightarrow> c \<notin> set s"
  by (induction s) (auto split: option.splits if_splits)

lemma split_last_Some_iff: "split_last c s = Some (a, b) \<longleftrightarrow> s = a @ c # b \<and> c \<notin> set b"
proof (induction s arbitrary: a b)
  case (Cons x s)
  show ?case
  proof (cases "split_last c s")
    case None
    then have "c \<notin> set s" by (simp add: split_last_None_iff)
    with None show ?thesis by (auto simp: Cons_eq_append_conv)
  next
    case (Some ab)
    then obtain a' b' where ab: "ab = (a', b')" by fastforce
    with Some Cons.IH have "s = a' @ c # b'" "c \<notin> set b'" by auto
    with Some ab Cons.IH show ?thesis by (auto simp: Cons_eq_append_conv)
  qed
qed simp

text \<open>
  Two names for which the parts do not fit together: with a trailing at-sign the realm comes from
  the prefix format and the stripped name from the suffix format; and a suffix pattern that starts
  with an at-sign never matches the realm of such a name, which has none.
\<close>

lemma trailing_at_sign:
  "extract_realm (''D'' @ [CHR 0x5C] @ ''u@'') = Some ''D''" "strip_realm (''D'' @ [CHR 0x5C] @ ''u@'') = ''D'' @ [CHR 0x5C] @ ''u''"
  by (simp_all add: extract_realm_def strip_realm_def)

lemma at_sign_suffix_never_matches:
  assumes "split_last (CHR ''@'') u = Some (a, realm)"
  shows "\<not> RealmMatcher_matches is_match (Suffix (CHR ''@'' # d)) realm"
proof
  assume "RealmMatcher_matches is_match (Suffix (CHR ''@'' # d)) realm"
  then have "drop (length realm - length (CHR ''@'' # d)) realm = CHR ''@'' # d" by (simp add: ends_with_def)
  then have "CHR ''@'' \<in> set realm" by (metis in_set_dropD list.set_intros(1))
  with assms show False by (simp add: split_last_Some_iff)
qed

section \<open>The realm responsible for a request\<close>

text \<open>A decision that comes from selecting in the pool of realm \<open>r\<close>.\<close>

definition routed_by :: "servers \<Rightarrow> pools \<Rightarrow> 'r Realm \<Rightarrow> string option \<Rightarrow> RoutingDecision \<Rightarrow> bool" where
  "routed_by srv ps r stripped d =
     (case d of
        Proxy h s \<Rightarrow> h \<in> set (pool_servers (ps (realm_pool r))) \<and> usable srv h \<and> s = stripped
      | Local \<Rightarrow> False
      | Reject \<Rightarrow> \<forall>h \<in> set (pool_servers (ps (realm_pool r))). \<not> usable srv h)"

lemma select_from_routed:
  "routed_by srv ps r s (fst (case select_from rnd srv ps (realm_pool r) of
     (Some h, ps') \<Rightarrow> (Proxy h s, ps') | (None, ps') \<Rightarrow> (Reject, ps')))"
proof (cases "select_server rnd srv (ps (realm_pool r))")
  case (Pair x p)
  with pool.sel_Some [of rnd srv "ps (realm_pool r)"] pool.sel_None [of rnd srv "ps (realm_pool r)"] show ?thesis
    by (cases x) (auto simp: select_from_def routed_by_def)
qed

lemma default_loop_find:
  "case find (\<lambda>r. realm_name r = d) rs of
     None \<Rightarrow> fst (default_loop rnd srv ps d rs) = Reject
   | Some r \<Rightarrow> routed_by srv ps r None (fst (default_loop rnd srv ps d rs))"
  by (induction rs) (auto simp: select_from_routed split: option.splits)

lemma realm_loop_find:
  "case find (\<lambda>r. Realm_matches is_match r realm) rs of
     None \<Rightarrow> realm_loop is_match rnd srv ps u realm router rs = handle_default_realm rnd srv ps router
   | Some r \<Rightarrow> routed_by srv ps r (if realm_strip r then Some (strip_realm u) else None)
       (fst (realm_loop is_match rnd srv ps u realm router rs))"
  by (induction rs) (auto simp: select_from_routed split: option.splits)

section \<open>Properties\<close>


text \<open>
  Realm and user part of a name belong together: unless the name ends in an at-sign, a realm
  that is found is either what follows the last at-sign, and stripping leaves what precedes it, or
  there is no at-sign, it is what precedes the first backslash, and stripping leaves what follows
  it; when no realm is found and the name has neither character, stripping changes nothing.
\<close>

theorem realm_and_user_part:
  assumes "u \<noteq> []" "last u \<noteq> CHR ''@''"
  shows "case extract_realm u of
     Some realm \<Rightarrow>
       u = strip_realm u @ [CHR ''@''] @ realm \<and> CHR ''@'' \<notin> set realm
       \<or> u = realm @ [CHR 0x5C] @ strip_realm u \<and> CHR ''@'' \<notin> set u \<and> CHR 0x5C \<notin> set realm
   | None \<Rightarrow> CHR ''@'' \<notin> set u \<and> (CHR 0x5C \<in> set u \<longrightarrow> u = CHR 0x5C # strip_realm u) \<and> (CHR 0x5C \<notin> set u \<longrightarrow> strip_realm u = u)"
proof (cases "split_last (CHR ''@'') u")
  case (Some ab)
  then obtain a b where ab: "ab = (a, b)" by fastforce
  with Some have s: "u = a @ CHR ''@'' # b" "CHR ''@'' \<notin> set b" by (simp_all add: split_last_Some_iff)
  with assms(2) have "b \<noteq> []" by auto
  with Some ab s show ?thesis by (simp add: extract_realm_def strip_realm_def)
next
  case None
  then have n: "CHR ''@'' \<notin> set u" by (simp add: split_last_None_iff)
  show ?thesis
  proof (cases "split_first (CHR 0x5C) u")
    case None2: None
    then have "CHR 0x5C \<notin> set u" by (simp add: split_first_None_iff)
    with None None2 n show ?thesis by (simp add: extract_realm_def strip_realm_def)
  next
    case (Some ab)
    then obtain a b where ab: "ab = (a, b)" by fastforce
    with Some have s: "u = a @ CHR 0x5C # b" "CHR 0x5C \<notin> set a" by (simp_all add: split_first_Some_iff)
    have e: "extract_realm u = (if a \<noteq> [] then Some a else None)" "strip_realm u = b"
      by (simp_all add: extract_realm_def strip_realm_def None Some ab)
    show ?thesis unfolding e using s n by auto
  qed
qed

theorem realm_and_user_part_witness:
  "extract_realm ''bob@x.org'' = Some ''x.org'' \<and> ''bob@x.org'' = strip_realm ''bob@x.org'' @ [CHR ''@''] @ ''x.org''"
  using realm_and_user_part [of "''bob@x.org''"] by (simp add: extract_realm_def)

end
