(* ===== verification/Proxy_Cache.thy ===== *)
theory Proxy_Cache
  imports Home_Servers
begin

text \<open>
  The proxy's table of requests in flight (\<open>proxy/cache.rs\<close>), keyed by the Proxy-State the proxy
  adds to a request. The concurrent map is a finite map; the order in which it is walked is the
  parameter \<open>iter\<close>.
\<close>

section \<open>Definitions\<close>

type_synonym ProxyStateKey = arr16

text \<open>The key from the wall clock and the value drawn from the static counter.\<close>

definition generate_proxy_state_key :: "u64 \<Rightarrow> u64 \<Rightarrow> ProxyStateKey" where
  "generate_proxy_state_key now counter = arr16_of (u64_to_be_bytes now @ u64_to_be_bytes counter)"

record ProxyCacheEntry =
  original_request :: Packet
  original_source :: SocketAddr
  home_server :: server_ref
  sent_at :: instant
  retry_count :: u8
  proxy_state :: ProxyStateKey
  client_secret :: bytes
  sent_on_connection :: "u64 option"

record ProxyCache =
  pc_cache :: "(ProxyStateKey, ProxyCacheEntry) fmap"
  pc_ttl :: duration
  pc_max_entries :: nat

definition ProxyCache_new :: "duration \<Rightarrow> nat \<Rightarrow> ProxyCache" where
  "ProxyCache_new ttl max_entries = \<lparr>pc_cache = fmempty, pc_ttl = ttl, pc_max_entries = max_entries\<rparr>"

definition ProxyCache_len :: "ProxyCache \<Rightarrow> nat" where
  "ProxyCache_len c = fcard (fmdom (pc_cache c))"

definition ProxyCache_is_empty :: "ProxyCache \<Rightarrow> bool" where
  "ProxyCache_is_empty c \<longleftrightarrow> ProxyCache_len c = 0"

definition ProxyCache_insert :: "ProxyCache \<Rightarrow> ProxyCacheEntry \<Rightarrow> (ProxyError + unit) \<times> ProxyCache" where
  "ProxyCache_insert c entry =
     (if pc_max_entries c \<le> ProxyCache_len c \<and> fmlookup (pc_cache c) (proxy_state entry) = None
      then (Inl (CacheFull (ProxyCache_len c)), c)
      else (Inr (), c\<lparr>pc_cache := fmupd (proxy_state entry) entry (pc_cache c)\<rparr>))"

definition ProxyCache_remove :: "ProxyCache \<Rightarrow> ProxyStateKey \<Rightarrow> ProxyCacheEntry option \<times> ProxyCache" where
  "ProxyCache_remove c k = (fmlookup (pc_cache c) k, c\<lparr>pc_cache := fmdrop k (pc_cache c)\<rparr>)"

definition ProxyCache_get :: "ProxyCache \<Rightarrow> ProxyStateKey \<Rightarrow> ProxyCacheEntry option" where
  "ProxyCache_get c k = fmlookup (pc_cache c) k"

definition ProxyCache_clear :: "ProxyCache \<Rightarrow> ProxyCache" where
  "ProxyCache_clear c = c\<lparr>pc_cache := fmempty\<rparr>"

type_synonym walk = "(ProxyStateKey, ProxyCacheEntry) fmap \<Rightarrow> (ProxyStateKey \<times> ProxyCacheEntry) list"

definition get_timed_out :: "walk \<Rightarrow> instant \<Rightarrow> ProxyCache \<Rightarrow> duration \<Rightarrow> ProxyCacheEntry list" where
  "get_timed_out iter now c timeout =
     map snd (filter (\<lambda>(_, e). duration_since now (sent_at e) > timeout) (iter (pc_cache c)))"

record ProxyCacheStats =
  pcs_entries :: nat
  pcs_max_entries :: nat
  pcs_ttl_seconds :: nat

definition ProxyCache_stats :: "ProxyCache \<Rightarrow> ProxyCacheStats" where
  "ProxyCache_stats c =
     \<lparr>pcs_entries = ProxyCache_len c, pcs_max_entries = pc_max_entries c, pcs_ttl_seconds = pc_ttl c div 1000000000\<rparr>"

text \<open>One tick of the cleanup task, over the expired keys it collected; each removal counts as a timeout.\<close>

fun remove_expired :: "ProxyStateKey list \<Rightarrow> servers \<times> ProxyCache \<Rightarrow> servers \<times> ProxyCache" where
  "remove_expired [] s = s"
| "remove_expired (k # ks) (srv, c) =
     (case ProxyCache_remove c k of
        (Some entry, c) \<Rightarrow>
          remove_expired ks (srv(home_server entry := srv (home_server entry)
            \<lparr>hs_stats := record_timeout (hs_stats (srv (home_server entry)))\<rparr>), c)
      | (None, c) \<Rightarrow> remove_expired ks (srv, c))"

definition cleanup_tick :: "walk \<Rightarrow> instant \<Rightarrow> servers \<times> ProxyCache \<Rightarrow> servers \<times> ProxyCache" where
  "cleanup_tick iter now s =
     (let expired_keys = map fst (filter (\<lambda>(_, e). duration_since now (sent_at e) > pc_ttl (snd s)) (iter (pc_cache (snd s))))
      in remove_expired expired_keys s)"

section \<open>Keys\<close>

lemma proxy_state_key_inject [simp]:
  "generate_proxy_state_key t c = generate_proxy_state_key t' c' \<longleftrightarrow> t = t' \<and> c = c'"
  by (simp add: generate_proxy_state_key_def arr16_eq_iff)

section \<open>Laws of the table\<close>

lemma ProxyCache_insert_laws:
  assumes "ProxyCache_insert c e = (r, c')"
  shows "(r = Inr () \<and> ProxyCache_get c' (proxy_state e) = Some e \<or> (\<exists>n. r = Inl (CacheFull n)) \<and> c' = c)
    \<and> (k \<noteq> proxy_state e \<longrightarrow> ProxyCache_get c' k = ProxyCache_get c k)
    \<and> (ProxyCache_len c \<le> pc_max_entries c \<longrightarrow> ProxyCache_len c' \<le> pc_max_entries c')"
  using assms
  by (auto simp: ProxyCache_insert_def ProxyCache_get_def ProxyCache_len_def finsert_absorb fcard_finsert_if
      fmdom_notI fmdomI split: if_splits)

end
