(* ===== verification/Server_Messages.thy ===== *)
theory Server_Messages
  imports Authenticators Server_Prelude
begin

text \<open>
  The server's helpers on packets (\<open>server.rs\<close>): which codes a listener admits, copying
  Proxy-State, signing and checking a Message-Authenticator, and adding policy attributes.
\<close>

section \<open>Listeners\<close>

datatype PortRole = RoleAuth | RoleAccounting | RoleAny

fun admits :: "PortRole \<Rightarrow> Code \<Rightarrow> bool \<Rightarrow> bool" where
  "admits RoleAny code accounting_on_auth = True"
| "admits RoleAuth code accounting_on_auth =
     (if code = StatusServer then True
      else if code = AccessRequest then True
      else if code = AccountingRequest then accounting_on_auth
      else False)"
| "admits RoleAccounting code accounting_on_auth =
     (if code = StatusServer then True else if code = AccountingRequest then True else False)"

fun status_server_reply_code :: "PortRole \<Rightarrow> Code" where
  "status_server_reply_code RoleAccounting = AccountingResponse"
| "status_server_reply_code RoleAuth = AccessAccept"
| "status_server_reply_code RoleAny = AccessAccept"

section \<open>Proxy-State\<close>

definition copy_proxy_state :: "Packet \<Rightarrow> Packet \<Rightarrow> Packet" where
  "copy_proxy_state request response =
     foldl (\<lambda>response attr. if attr_type attr = AttributeType_as_u8 ProxyState then add_attribute response attr else response)
       response (pkt_attributes request)"

lemma copy_proxy_state_eq:
  "copy_proxy_state request response =
     response\<lparr>pkt_attributes := pkt_attributes response
       @ filter (\<lambda>a. attr_type a = AttributeType_as_u8 ProxyState) (pkt_attributes request)\<rparr>"
proof -
  have "foldl (\<lambda>response attr. if attr_type attr = AttributeType_as_u8 ProxyState then add_attribute response attr else response)
      r as = r\<lparr>pkt_attributes := pkt_attributes r @ filter (\<lambda>a. attr_type a = AttributeType_as_u8 ProxyState) as\<rparr>" for r as
    by (induction as arbitrary: r) (simp_all add: add_attribute_def)
  then show ?thesis by (simp add: copy_proxy_state_def)
qed

section \<open>Message-Authenticator\<close>

abbreviation MA_TYPE :: u8 where
  "MA_TYPE \<equiv> AttributeType_as_u8 MessageAuthenticator"

abbreviation is_ma :: "Attribute \<Rightarrow> bool" where
  "is_ma a \<equiv> attr_type a = MA_TYPE"

datatype MessageAuthenticatorCheck = Absent | Valid | Invalid

text \<open>
  The walk over the attributes: the offset of the first Message-Authenticator's value and how many
  there are, or \<open>None\<close> at the early return for a value that is not 16 octets.
\<close>

fun ma_walk :: "nat \<Rightarrow> nat option \<Rightarrow> nat \<Rightarrow> Attribute list \<Rightarrow> (nat option \<times> nat) option" where
  "ma_walk offset msg_auth_offset n [] = Some (msg_auth_offset, n)"
| "ma_walk offset msg_auth_offset n (attr # as) =
     (if is_ma attr then
        if length (attr_value attr) \<noteq> 16 then None
        else ma_walk (offset + (2 + length (attr_value attr)))
          (if msg_auth_offset = None then Some (offset + 2) else msg_auth_offset) (n + 1) as
      else ma_walk (offset + (2 + length (attr_value attr))) msg_auth_offset n as)"

definition check_message_authenticator ::
    "(bytes \<Rightarrow> bytes \<Rightarrow> arr16) \<Rightarrow> Packet \<Rightarrow> arr16 \<Rightarrow> bytes \<Rightarrow> PacketError + MessageAuthenticatorCheck" where
  "check_message_authenticator hmac_md5 packet authenticator secret =
     (case ma_walk 20 None 0 (pkt_attributes packet) of
        None \<Rightarrow> Inr Invalid
      | Some (None, n) \<Rightarrow> Inr Absent
      | Some (Some offset, n) \<Rightarrow>
        if n > 1 then Inr Invalid
        else res_bind (Packet_encode packet) (\<lambda>packet_bytes.
          let packet_bytes = put16 4 (bytes16 authenticator) packet_bytes
          in if verify_message_authenticator hmac_md5 packet_bytes secret offset then Inr Valid else Inr Invalid))"

definition add_message_authenticator ::
    "(bytes \<Rightarrow> bytes \<Rightarrow> arr16) \<Rightarrow> Packet \<Rightarrow> arr16 \<Rightarrow> bytes \<Rightarrow> PacketError + Packet" where
  "add_message_authenticator hmac_md5 response request_authenticator secret =
     (let already_has_ma = list_ex is_ma (pkt_attributes response)
      in res_bind
        (if \<not> already_has_ma then res_bind (Attribute_new MA_TYPE (replicate 16 0)) (\<lambda>a. Inr (add_attribute response a))
         else Inr response) (\<lambda>response.
        let original_auth = pkt_authenticator response;
            response = response\<lparr>pkt_authenticator := request_authenticator\<rparr>
        in res_bind (Packet_encode response) (\<lambda>packet_bytes.
          let response = response\<lparr>pkt_authenticator := original_auth\<rparr>;
              mac = calculate_message_authenticator hmac_md5 packet_bytes secret
          in Inr (response\<lparr>pkt_attributes :=
               update_first is_ma (\<lambda>a. a\<lparr>attr_value := bytes16 mac\<rparr>) (pkt_attributes response)\<rparr>))))"

definition add_message_authenticator_if_eap ::
    "(bytes \<Rightarrow> bytes \<Rightarrow> arr16) \<Rightarrow> Packet \<Rightarrow> arr16 \<Rightarrow> bytes \<Rightarrow> PacketError + Packet" where
  "add_message_authenticator_if_eap hmac_md5 response request_authenticator secret =
     (if \<not> list_ex (\<lambda>a. attr_type a = AttributeType_as_u8 EapMessage) (pkt_attributes response) then Inr response
      else add_message_authenticator hmac_md5 response request_authenticator secret)"

section \<open>Policy attributes\<close>

definition SINGLE_VALUED_REPLY_ATTRS :: "u8 list" where
  "SINGLE_VALUED_REPLY_ATTRS =
     [AttributeType_as_u8 SessionTimeout, AttributeType_as_u8 IdleTimeout, AttributeType_as_u8 TerminationAction, 64, 65, 81]"

definition add_policy_reply_attribute :: "Packet \<Rightarrow> Attribute \<Rightarrow> Packet" where
  "add_policy_reply_attribute response attr =
     (let response = (if attr_type attr \<in> set SINGLE_VALUED_REPLY_ATTRS
        then response\<lparr>pkt_attributes := filter (\<lambda>a. attr_type a \<noteq> attr_type attr) (pkt_attributes response)\<rparr> else response)
      in add_attribute response attr)"

section \<open>What the check accepts\<close>

lemma ma_walk_none:
  "\<forall>a \<in> set as. \<not> is_ma a \<Longrightarrow> ma_walk off o1 n as = Some (o1, n)"
  by (induction as arbitrary: off) simp_all

lemma ma_walk_skip:
  "\<forall>a \<in> set as. \<not> is_ma a \<Longrightarrow>
     ma_walk off o1 n (as @ bs) = ma_walk (off + length (concat (map attribute_bytes as))) o1 n bs"
  by (induction as arbitrary: off) (simp_all add: encoded_length_def attr_consts add.assoc)

lemma ma_walk_one:
  assumes "\<forall>a \<in> set pre. \<not> is_ma a" "\<forall>a \<in> set post. \<not> is_ma a" "is_ma ma" "length (attr_value ma) = 16"
  shows "ma_walk 20 None 0 (pre @ ma # post) = Some (Some (22 + length (concat (map attribute_bytes pre))), 1)"
  using assms by (simp add: ma_walk_skip ma_walk_none)

lemma put16_authenticator: "put16 4 (bytes16 ra) (packet_bytes p) = packet_bytes (p\<lparr>pkt_authenticator := ra\<rparr>)"
  by (simp add: put16_def packet_bytes_def Packet_length_def)

text \<open>The value of an attribute in the octets of its packet.\<close>

lemma put16_attribute:
  assumes "pkt_attributes p = pre @ ma # post" "length (attr_value ma) = 16" "length v = 16"
  shows "put16 (22 + length (concat (map attribute_bytes pre))) v (packet_bytes p) =
     packet_bytes (p\<lparr>pkt_attributes := pre @ ma\<lparr>attr_value := v\<rparr> # post\<rparr>)"
    and "take 16 (drop (22 + length (concat (map attribute_bytes pre))) (packet_bytes p)) = attr_value ma"
    and "22 + length (concat (map attribute_bytes pre)) + 16 \<le> Packet_length p"
proof -
  let ?n = "length (concat (map attribute_bytes pre))"
  obtain hd4 where h: "packet_bytes p = hd4 @ bytes16 (pkt_authenticator p) @ concat (map attribute_bytes pre)
      @ attribute_bytes ma @ concat (map attribute_bytes post)" and h4: "length hd4 = 4"
      and h2: "packet_bytes (p\<lparr>pkt_attributes := pre @ ma\<lparr>attr_value := v\<rparr> # post\<rparr>) = hd4 @ bytes16 (pkt_authenticator p)
        @ concat (map attribute_bytes pre) @ attribute_bytes (ma\<lparr>attr_value := v\<rparr>) @ concat (map attribute_bytes post)"
    using assms by (simp add: packet_bytes_def Packet_length_eq encoded_length_def)
  have b: "attribute_bytes a = [attr_type a, as_u8 (encoded_length a)] @ attr_value a" for a
    by (simp add: attribute_bytes_def)
  let ?A = "hd4 @ bytes16 (pkt_authenticator p) @ concat (map attribute_bytes pre) @ [attr_type ma, as_u8 (encoded_length ma)]"
  have A: "length ?A = 22 + ?n" using h4 by simp
  have e: "packet_bytes p = ?A @ attr_value ma @ concat (map attribute_bytes post)"
    "packet_bytes (p\<lparr>pkt_attributes := pre @ ma\<lparr>attr_value := v\<rparr> # post\<rparr>) = ?A @ v @ concat (map attribute_bytes post)"
    using assms by (simp_all add: h h2 b encoded_length_def)
  show "put16 (22 + ?n) v (packet_bytes p) = packet_bytes (p\<lparr>pkt_attributes := pre @ ma\<lparr>attr_value := v\<rparr> # post\<rparr>)"
    unfolding e put16_def A [symmetric] using assms(2) by simp
  show "take 16 (drop (22 + ?n) (packet_bytes p)) = attr_value ma"
    unfolding e A [symmetric] using assms(2) by simp
  show "22 + ?n + 16 \<le> Packet_length p"
    using assms by (simp add: Packet_length_eq encoded_length_def attr_consts)
qed

text \<open>A packet with one Message-Authenticator is valid exactly for the HMAC over the zeroed packet.\<close>

lemma check_message_authenticator_one:
  assumes "pkt_attributes p = pre @ ma # post" "\<forall>a \<in> set pre \<union> set post. \<not> is_ma a" "is_ma ma"
    and "length (attr_value ma) = 16" "packet_ok p"
  shows "check_message_authenticator hmac_md5 p ra secret =
     Inr (if attr_value ma = bytes16 (hmac_md5 secret (packet_bytes (p\<lparr>pkt_authenticator := ra,
         pkt_attributes := pre @ ma\<lparr>attr_value := replicate 16 0\<rparr> # post\<rparr>))) then Valid else Invalid)"
proof -
  let ?p = "p\<lparr>pkt_authenticator := ra\<rparr>" and ?off = "22 + length (concat (map attribute_bytes pre))"
  have w: "ma_walk 20 None 0 (pkt_attributes p) = Some (Some ?off, 1)"
    using assms ma_walk_one [of pre post ma] by simp
  have enc: "Packet_encode p = Inr (packet_bytes p)" using assms(5) by (simp add: res_simps)
  have a: "pkt_attributes ?p = pre @ ma # post" using assms(1) by simp
  note put = put16_attribute [OF a assms(4), of "replicate 16 0"]
  have "verify_message_authenticator hmac_md5 (packet_bytes ?p) secret ?off \<longleftrightarrow>
      bytes16 (hmac_md5 secret (packet_bytes (?p\<lparr>pkt_attributes := pre @ ma\<lparr>attr_value := replicate 16 0\<rparr> # post\<rparr>))) = attr_value ma"
    unfolding verify_message_authenticator_def Let_def using put by simp
  then show ?thesis
    unfolding check_message_authenticator_def w using enc by (auto simp: put16_authenticator)
qed

lemma ma_walk_count:
  "ma_walk off o1 n as = Some (o2, k) \<Longrightarrow>
     k = n + length (filter is_ma as) \<and> (o2 = None \<longleftrightarrow> o1 = None \<and> filter is_ma as = [])"
  by (induction as arbitrary: off o1 n) (fastforce split: if_splits)+

text \<open>The verdict stated on the packet: no Message-Authenticator, or a single one that is the HMAC.\<close>

definition ma_genuine :: "(bytes \<Rightarrow> bytes \<Rightarrow> arr16) \<Rightarrow> Packet \<Rightarrow> arr16 \<Rightarrow> bytes \<Rightarrow> bool" where
  "ma_genuine hmac_md5 p ra secret \<longleftrightarrow>
     (\<exists>pre ma post. pkt_attributes p = pre @ ma # post \<and> (\<forall>a \<in> set pre \<union> set post. \<not> is_ma a) \<and> is_ma ma \<and>
        attr_value ma = bytes16 (hmac_md5 secret (packet_bytes (p\<lparr>pkt_authenticator := ra,
          pkt_attributes := pre @ ma\<lparr>attr_value := replicate 16 0\<rparr> # post\<rparr>))))"

lemma check_message_authenticator_Absent:
  "check_message_authenticator hmac_md5 p ra secret = Inr Absent \<longleftrightarrow> filter is_ma (pkt_attributes p) = []"
proof
  assume "check_message_authenticator hmac_md5 p ra secret = Inr Absent"
  then obtain k where "ma_walk 20 None 0 (pkt_attributes p) = Some (None, k)"
    by (auto simp: check_message_authenticator_def res_simps Let_def split: option.splits if_splits prod.splits)
  from ma_walk_count [OF this] show "filter is_ma (pkt_attributes p) = []" by simp
next
  assume "filter is_ma (pkt_attributes p) = []"
  then have "\<forall>a \<in> set (pkt_attributes p). \<not> is_ma a" by (simp add: filter_empty_conv)
  then show "check_message_authenticator hmac_md5 p ra secret = Inr Absent"
    by (simp add: check_message_authenticator_def ma_walk_none)
qed

lemma filter_single:
  assumes "length (filter P xs) = 1"
  obtains pre x post where "xs = pre @ x # post" "P x" "\<forall>a \<in> set pre \<union> set post. \<not> P a"
proof -
  from assms obtain x where "filter P xs = [x]" by (cases "filter P xs") auto
  then obtain pre post where "xs = pre @ x # post" "\<forall>a \<in> set pre. \<not> P a" "P x" "filter P post = []"
    by (auto simp: filter_eq_Cons_iff)
  then show thesis by (intro that [of pre x post]) (auto simp: filter_empty_conv)
qed

lemma ma_genuine_one:
  assumes "pkt_attributes p = pre @ ma # post" "\<forall>a \<in> set pre \<union> set post. \<not> is_ma a" "is_ma ma"
  shows "ma_genuine hmac_md5 p ra secret \<longleftrightarrow>
     attr_value ma = bytes16 (hmac_md5 secret (packet_bytes (p\<lparr>pkt_authenticator := ra,
          pkt_attributes := pre @ ma\<lparr>attr_value := replicate 16 0\<rparr> # post\<rparr>)))"
proof -
  have "pre' = pre \<and> ma' = ma \<and> post' = post"
    if "pre @ ma # post = pre' @ ma' # post'" "\<forall>a \<in> set pre' \<union> set post'. \<not> is_ma a" "is_ma ma'" for pre' ma' post'
    using append_Cons_eq_iff [of ma pre post pre' post'] that assms(2,3)
    by (smt (verit) Un_iff append_eq_append_conv2 append_eq_Cons_conv in_set_conv_decomp list.inject list.sel)
  then show ?thesis unfolding ma_genuine_def using assms by metis
qed

lemma check_message_authenticator_Valid:
  assumes "packet_ok p"
  shows "check_message_authenticator hmac_md5 p ra secret = Inr Valid \<longleftrightarrow> ma_genuine hmac_md5 p ra secret"
proof (cases "length (filter is_ma (pkt_attributes p)) = 1")
  case True
  then obtain pre ma post where s: "pkt_attributes p = pre @ ma # post" "is_ma ma" "\<forall>a \<in> set pre \<union> set post. \<not> is_ma a"
    by (rule filter_single)
  note one = ma_genuine_one [OF s(1,3,2)]
  show ?thesis
  proof (cases "length (attr_value ma) = 16")
    case True
    then show ?thesis using check_message_authenticator_one [OF s(1,3,2) True assms] one by simp
  next
    case False
    then have "ma_walk 20 None 0 (pkt_attributes p) = None" using s by (simp add: ma_walk_skip)
    moreover have "attr_value ma \<noteq> bytes16 h" for h using False by auto
    ultimately show ?thesis unfolding one by (simp add: check_message_authenticator_def)
  qed
next
  case False
  then have "\<not> ma_genuine hmac_md5 p ra secret"
    by (auto simp: ma_genuine_def filter_empty_conv [THEN iffD2])
  moreover have "filter is_ma (pkt_attributes p) = [] \<or> 1 < length (filter is_ma (pkt_attributes p))"
    using False by (cases "filter is_ma (pkt_attributes p)") auto
  then have "check_message_authenticator hmac_md5 p ra secret \<noteq> Inr Valid"
    using ma_walk_count [of 20 None 0 "pkt_attributes p"]
    by (auto simp: check_message_authenticator_def split: option.splits if_splits)
  ultimately show ?thesis by simp
qed

lemma check_message_authenticator_total:
  "packet_ok p \<Longrightarrow> \<exists>c. check_message_authenticator hmac_md5 p ra secret = Inr c"
  by (auto simp: check_message_authenticator_def res_simps Let_def split: option.splits if_splits)

end
