(* ===== verification/Proxy_Rewrite.thy ===== *)
theory Proxy_Rewrite
  imports Proxy_Cache Salted_Keys Server_Messages
begin

text \<open>
  How the proxy re-keys a request for the home server and a response for the NAS
  (\<open>proxy/handler.rs\<close>): User-Password, Message-Authenticator, Proxy-State, MS-MPPE keys,
  Tunnel-Password and the Response Authenticator. MD5, HMAC-MD5 and the random numbers behind
  the salts are parameters.
\<close>

section \<open>Message-Authenticator\<close>

abbreviation is_eap :: "Attribute \<Rightarrow> bool" where
  "is_eap a \<equiv> attr_type a = AttributeType_as_u8 EapMessage"

definition recompute_message_authenticator ::
    "(bytes \<Rightarrow> bytes \<Rightarrow> arr16) \<Rightarrow> Packet \<Rightarrow> arr16 \<Rightarrow> bytes \<Rightarrow> ProxyError + Packet" where
  "recompute_message_authenticator hmac_md5 response request_authenticator secret =
     (let has_ma = list_ex is_ma (pkt_attributes response);
          has_eap = list_ex is_eap (pkt_attributes response)
      in if \<not> has_ma \<and> \<not> has_eap then Inr response
         else res_bind
           (if \<not> has_ma then res_bind (map_err ProxyPacket (Attribute_new MA_TYPE (replicate 16 0)))
              (\<lambda>a. Inr (add_attribute response a)) else Inr response) (\<lambda>response.
           let response = response\<lparr>pkt_attributes :=
                 map (\<lambda>a. if is_ma a then a\<lparr>attr_value := replicate 16 0\<rparr> else a) (pkt_attributes response)\<rparr>;
               original_auth = pkt_authenticator response;
               response = response\<lparr>pkt_authenticator := request_authenticator\<rparr>
           in res_bind (map_err ProxyPacket (Packet_encode response)) (\<lambda>packet_bytes.
             let response = response\<lparr>pkt_authenticator := original_auth\<rparr>;
                 mac = calculate_message_authenticator hmac_md5 packet_bytes secret
             in Inr (response\<lparr>pkt_attributes :=
                  update_first is_ma (\<lambda>a. a\<lparr>attr_value := bytes16 mac\<rparr>) (pkt_attributes response)\<rparr>))))"

section \<open>Requests\<close>

text \<open>The loop over the User-Password attributes.\<close>

fun rekey_user_passwords ::
    "(bytes \<Rightarrow> arr16) \<Rightarrow> arr16 \<Rightarrow> bytes \<Rightarrow> bytes \<Rightarrow> Attribute list \<Rightarrow> ProxyError + Attribute list" where
  "rekey_user_passwords md5 ra cs hs [] = Inr []"
| "rekey_user_passwords md5 ra cs hs (a # as) =
     res_bind
       (if attr_type a = AttributeType_as_u8 UserPassword then
          res_bind (map_err InvalidUserPassword (decrypt_user_password md5 (attr_value a) cs ra)) (\<lambda>password.
            Inr (a\<lparr>attr_value := encrypt_user_password md5 password hs ra\<rparr>))
        else Inr a) (\<lambda>a.
     res_bind (rekey_user_passwords md5 ra cs hs as) (\<lambda>as. Inr (a # as)))"

definition rewrite_request_for_home_server ::
    "(bytes \<Rightarrow> arr16) \<Rightarrow> (bytes \<Rightarrow> bytes \<Rightarrow> arr16) \<Rightarrow> Packet \<Rightarrow> ProxyStateKey \<Rightarrow> bytes \<Rightarrow> bytes \<Rightarrow> ProxyError + Packet" where
  "rewrite_request_for_home_server md5 hmac_md5 request key cs hs =
     res_bind (map_err (\<lambda>e. Configuration (''Failed to create Proxy-State attribute: '' @ PacketError_fmt e))
       (Attribute_new (AttributeType_as_u8 ProxyState) (bytes16 key))) (\<lambda>ps.
     let request = add_attribute request ps;
         request_authenticator = pkt_authenticator request
     in res_bind (rekey_user_passwords md5 request_authenticator cs hs (pkt_attributes request)) (\<lambda>as.
        let request = request\<lparr>pkt_attributes := as\<rparr>
        in recompute_message_authenticator hmac_md5 request request_authenticator hs))"

section \<open>Responses\<close>

definition is_mppe_key :: "VendorSpecific \<Rightarrow> bool" where
  "is_mppe_key v \<longleftrightarrow> vendor_id v = MICROSOFT_VENDOR_ID \<and> (vendor_type v = MS_MPPE_SEND_KEY \<or> vendor_type v = MS_MPPE_RECV_KEY)"

fun strip_mppe_loop :: "Attribute list \<Rightarrow> Attribute list" where
  "strip_mppe_loop [] = []"
| "strip_mppe_loop (a # as) =
     (if attr_type a \<noteq> AttributeType_as_u8 VendorSpecific then a # strip_mppe_loop as
      else case from_attribute a of
             Inl _ \<Rightarrow> a # strip_mppe_loop as
           | Inr subs \<Rightarrow>
             if \<not> list_ex is_mppe_key subs then a # strip_mppe_loop as
             else let remaining = filter (\<lambda>v. \<not> is_mppe_key v) subs
                  in if remaining = [] then strip_mppe_loop as
                     else case to_attribute_combined remaining of
                            Inr b \<Rightarrow> b # strip_mppe_loop as
                          | Inl _ \<Rightarrow> a # strip_mppe_loop as)"

definition strip_mppe_attributes :: "Packet \<Rightarrow> Packet" where
  "strip_mppe_attributes response = response\<lparr>pkt_attributes := strip_mppe_loop (pkt_attributes response)\<rparr>"

text \<open>\<open>home_secret\<close> is the secret of the home server the entry refers to.\<close>

definition rekey_mppe_attributes :: "(bytes \<Rightarrow> arr16) \<Rightarrow> u16 \<Rightarrow> bytes \<Rightarrow> Packet \<Rightarrow> ProxyCacheEntry \<Rightarrow> Packet" where
  "rekey_mppe_attributes md5 rnd home_secret response entry =
     (let request_authenticator = pkt_authenticator (original_request entry)
      in case from_packet md5 response home_secret request_authenticator of
           Inr None \<Rightarrow> response
         | r \<Rightarrow>
           let keys = (case r of Inr (Some keys) \<Rightarrow> Some keys | _ \<Rightarrow> None);
               response = strip_mppe_attributes response
           in case keys of
                None \<Rightarrow> response
              | Some keys \<Rightarrow>
                (case to_attributes md5 rnd keys (client_secret entry) request_authenticator of
                   Inr attrs \<Rightarrow> foldl add_attribute response attrs
                 | Inl _ \<Rightarrow> response))"

definition fresh_salts :: "u16 \<Rightarrow> nat \<Rightarrow> salt list \<Rightarrow> salt list" where
  "fresh_salts rnd n in_use =
     (let salts = generate_salts rnd (n + length in_use);
          salts = filter (\<lambda>s. s \<notin> set in_use) salts
      in take n salts)"

text \<open>The loop over the attributes, with the salts not used yet.\<close>

fun rekey_tunnel_loop ::
    "(bytes \<Rightarrow> arr16) \<Rightarrow> arr16 \<Rightarrow> bytes \<Rightarrow> bytes \<Rightarrow> salt list \<Rightarrow> Attribute list \<Rightarrow> panic + Attribute list" where
  "rekey_tunnel_loop md5 ra hs cs salts [] = Inr []"
| "rekey_tunnel_loop md5 ra hs cs salts (a # as) =
     (if attr_type a \<noteq> AttributeType_as_u8 TunnelPassword then
        res_bind (rekey_tunnel_loop md5 ra hs cs salts as) (\<lambda>as. Inr (a # as))
      else case TunnelPassword_from_attribute md5 a hs ra of
             Inl _ \<Rightarrow> rekey_tunnel_loop md5 ra hs cs salts as
           | Inr password \<Rightarrow>
             (case salts of
                [] \<Rightarrow> Inl (Panic ''one fresh salt per Tunnel-Password'')
              | s # salts \<Rightarrow>
                (case TunnelPassword_to_attribute_with_salt md5 password cs ra s of
                   Inr b \<Rightarrow> res_bind (rekey_tunnel_loop md5 ra hs cs salts as) (\<lambda>as. Inr (b # as))
                 | Inl _ \<Rightarrow> rekey_tunnel_loop md5 ra hs cs salts as)))"

definition salts_in_use :: "Packet \<Rightarrow> salt list" where
  "salts_in_use response =
     List.map_filter (\<lambda>v. if 2 \<le> length (vendor_value v) then Some (vendor_value v ! 0, vendor_value v ! 1) else None)
       (find_vendor_attributes response MICROSOFT_VENDOR_ID MS_MPPE_SEND_KEY
        @ find_vendor_attributes response MICROSOFT_VENDOR_ID MS_MPPE_RECV_KEY)"

definition rekey_tunnel_passwords :: "(bytes \<Rightarrow> arr16) \<Rightarrow> u16 \<Rightarrow> bytes \<Rightarrow> Packet \<Rightarrow> ProxyCacheEntry \<Rightarrow> panic + Packet" where
  "rekey_tunnel_passwords md5 rnd home_secret response entry =
     (let request_authenticator = pkt_authenticator (original_request entry);
          n = length (filter (\<lambda>a. attr_type a = AttributeType_as_u8 TunnelPassword) (pkt_attributes response))
      in if n = 0 then Inr response
         else let salts = fresh_salts rnd n (salts_in_use response)
              in res_bind (rekey_tunnel_loop md5 request_authenticator home_secret (client_secret entry) salts
                   (pkt_attributes response)) (\<lambda>as. Inr (response\<lparr>pkt_attributes := as\<rparr>)))"

definition rewrite_response_for_nas ::
    "(bytes \<Rightarrow> arr16) \<Rightarrow> (bytes \<Rightarrow> bytes \<Rightarrow> arr16) \<Rightarrow> u16 \<Rightarrow> u16 \<Rightarrow> bytes \<Rightarrow> Packet \<Rightarrow> ProxyCacheEntry
      \<Rightarrow> panic + (ProxyError + Packet)" where
  "rewrite_response_for_nas md5 hmac_md5 rnd rnd' home_secret response entry =
     (let request_authenticator = pkt_authenticator (original_request entry)
      in res_bind (verify_response_authenticator md5 response request_authenticator home_secret) (\<lambda>valid.
         if \<not> valid then Inr (Inl InvalidResponseAuthenticator)
         else
           let response = response\<lparr>pkt_attributes :=
                 filter (\<lambda>a. \<not> (attr_type a = AttributeType_as_u8 ProxyState \<and> attr_value a = bytes16 (proxy_state entry)))
                   (pkt_attributes response)\<rparr>;
               response = rekey_mppe_attributes md5 rnd home_secret response entry
           in res_bind (rekey_tunnel_passwords md5 rnd' home_secret response entry) (\<lambda>response.
             case recompute_message_authenticator hmac_md5 response request_authenticator (client_secret entry) of
               Inl e \<Rightarrow> Inr (Inl e)
             | Inr response \<Rightarrow>
                 res_bind (calculate_response_authenticator md5 response request_authenticator (client_secret entry)) (\<lambda>auth.
                   Inr (Inr (response\<lparr>pkt_authenticator := auth\<rparr>))))))"

text \<open>Below, attribute numbers are compared by their names.\<close>

declare AttributeType_as_u8.simps [simp del]
declare AttributeType.to_wire_inject [simp]

section \<open>The recomputed Message-Authenticator\<close>

lemma first_ma_split:
  assumes "list_ex is_ma as"
  obtains pre ma post where "as = pre @ ma # post" "\<forall>a \<in> set pre. \<not> is_ma a" "is_ma ma"
  using assms split_list_first_prop [of as is_ma] by (auto simp: list_ex_iff)

text \<open>The attributes with a Message-Authenticator added where there is none, and with all of them zeroed.\<close>

definition with_ma :: "Attribute list \<Rightarrow> Attribute list" where
  "with_ma as = (if list_ex is_ma as then as else as @ [\<lparr>attr_type = MA_TYPE, attr_value = replicate 16 0\<rparr>])"

definition zero_ma :: "Attribute list \<Rightarrow> Attribute list" where
  "zero_ma as = map (\<lambda>a. if is_ma a then a\<lparr>attr_value := replicate 16 0\<rparr> else a) as"

lemma recompute_eq:
  "recompute_message_authenticator hmac_md5 p ra secret =
     (if \<not> list_ex is_ma (pkt_attributes p) \<and> \<not> list_ex is_eap (pkt_attributes p) then Inr p
      else let as = zero_ma (with_ma (pkt_attributes p))
        in res_bind (map_err ProxyPacket (Packet_encode (p\<lparr>pkt_attributes := as, pkt_authenticator := ra\<rparr>))) (\<lambda>bs.
          Inr (p\<lparr>pkt_attributes := update_first is_ma (\<lambda>a. a\<lparr>attr_value := bytes16 (hmac_md5 secret bs)\<rparr>) as\<rparr>)))"
proof -
  have "Attribute_new MA_TYPE (replicate 16 0) = Inr \<lparr>attr_type = MA_TYPE, attr_value = replicate 16 0\<rparr>"
    by (simp add: Attribute_new_def attr_consts)
  then show ?thesis
    unfolding recompute_message_authenticator_def with_ma_def zero_ma_def
    by (cases "list_ex is_ma (pkt_attributes p)") (simp_all add: Let_def add_attribute_def calculate_message_authenticator_def)
qed

lemma zero_with_ma:
  "list_ex is_ma (zero_ma (with_ma as))"
  "length (filter is_ma (zero_ma (with_ma as))) = max 1 (length (filter is_ma as))"
  "filter (\<lambda>a. \<not> is_ma a) (zero_ma (with_ma as)) = filter (\<lambda>a. \<not> is_ma a) as"
  "\<forall>a \<in> set (zero_ma as). is_ma a \<longrightarrow> attr_value a = replicate 16 0"
  "\<forall>a \<in> set as. attribute_ok a \<Longrightarrow> \<forall>a \<in> set (zero_ma (with_ma as)). attribute_ok a"
proof -
  have z: "list_ex is_ma (zero_ma xs) = list_ex is_ma xs" "length (filter is_ma (zero_ma xs)) = length (filter is_ma xs)"
    "filter (\<lambda>a. \<not> is_ma a) (zero_ma xs) = filter (\<lambda>a. \<not> is_ma a) xs" for xs
    by (induction xs) (auto simp: zero_ma_def)
  show "list_ex is_ma (zero_ma (with_ma as))" by (simp add: z(1)) (simp add: with_ma_def)
  show "length (filter is_ma (zero_ma (with_ma as))) = max 1 (length (filter is_ma as))"
    by (auto simp: z with_ma_def list_ex_iff filter_empty_conv Suc_le_eq)
  show "filter (\<lambda>a. \<not> is_ma a) (zero_ma (with_ma as)) = filter (\<lambda>a. \<not> is_ma a) as"
    by (simp add: z with_ma_def)
  show "\<forall>a \<in> set (zero_ma as). is_ma a \<longrightarrow> attr_value a = replicate 16 0"
    by (auto simp: zero_ma_def)
  show "\<forall>a \<in> set as. attribute_ok a \<Longrightarrow> \<forall>a \<in> set (zero_ma (with_ma as)). attribute_ok a"
    by (auto simp: zero_ma_def with_ma_def attribute_ok_def attr_consts)
qed

text \<open>
  What the function leaves: the packet as it was but for its Message-Authenticators, of which
  there is at least one when the packet had one or carries EAP; the first holds the HMAC of the
  packet with every Message-Authenticator zeroed.
\<close>

lemma recompute_Inr:
  assumes "recompute_message_authenticator hmac_md5 p ra secret = Inr q"
    and "list_ex is_ma (pkt_attributes p) \<or> list_ex is_eap (pkt_attributes p)"
  obtains pre ma post where "q = p\<lparr>pkt_attributes := pre @ ma # post\<rparr>" "\<forall>a \<in> set pre. \<not> is_ma a" "is_ma ma"
    "length (filter is_ma (pre @ ma # post)) = max 1 (length (filter is_ma (pkt_attributes p)))"
    "filter (\<lambda>a. \<not> is_ma a) (pre @ ma # post) = filter (\<lambda>a. \<not> is_ma a) (pkt_attributes p)"
    "attr_value ma = bytes16 (hmac_md5 secret (packet_bytes (q\<lparr>pkt_authenticator := ra,
       pkt_attributes := pre @ ma\<lparr>attr_value := replicate 16 0\<rparr> # post\<rparr>)))" "packet_ok q"
proof -
  let ?as = "zero_ma (with_ma (pkt_attributes p))"
  from assms obtain bs where enc: "Packet_encode (p\<lparr>pkt_attributes := ?as, pkt_authenticator := ra\<rparr>) = Inr bs"
    and q: "q = p\<lparr>pkt_attributes := update_first is_ma (\<lambda>a. a\<lparr>attr_value := bytes16 (hmac_md5 secret bs)\<rparr>) ?as\<rparr>"
    by (auto simp: recompute_eq Let_def res_bind_Inr_iff map_err_Inr_iff)
  obtain pre ma0 post where s: "?as = pre @ ma0 # post" "\<forall>a \<in> set pre. \<not> is_ma a" "is_ma ma0"
    by (rule first_ma_split [OF zero_with_ma(1)])
  have "ma0 \<in> set ?as" using s(1) by simp
  with s(3) have z0: "attr_value ma0 = replicate 16 0" using zero_with_ma(4) by blast
  define ma where "ma = ma0\<lparr>attr_value := bytes16 (hmac_md5 secret bs)\<rparr>"
  have q': "q = p\<lparr>pkt_attributes := pre @ ma # post\<rparr>"
    unfolding q s(1) ma_def update_first_split [OF s(2,3)] ..
  have zeroed: "pre @ ma\<lparr>attr_value := replicate 16 0\<rparr> # post = ?as"
    unfolding s(1) ma_def using z0 by (cases ma0) simp
  have ok: "packet_ok (p\<lparr>pkt_attributes := ?as, pkt_authenticator := ra\<rparr>)"
      and bs: "bs = packet_bytes (p\<lparr>pkt_attributes := ?as, pkt_authenticator := ra\<rparr>)"
    using enc by (auto simp: res_simps)
  have "p\<lparr>pkt_attributes := ?as, pkt_authenticator := ra\<rparr> = q\<lparr>pkt_authenticator := ra, pkt_attributes := ?as\<rparr>"
    unfolding q' by (cases p) simp
  then have v: "attr_value ma = bytes16 (hmac_md5 secret (packet_bytes (q\<lparr>pkt_authenticator := ra,
      pkt_attributes := pre @ ma\<lparr>attr_value := replicate 16 0\<rparr> # post\<rparr>)))"
    unfolding zeroed bs by (simp add: ma_def bs)
  have "packet_ok q"
    using ok z0 unfolding q' s(1) by (auto simp: packet_ok_def Packet_length_eq ma_def attribute_ok_def encoded_length_def)
  moreover have "length (filter is_ma (pre @ ma # post)) = max 1 (length (filter is_ma (pkt_attributes p)))"
    using zero_with_ma(2) [of "pkt_attributes p"] s(3) by (simp add: s(1) ma_def)
  moreover have "filter (\<lambda>a. \<not> is_ma a) (pre @ ma # post) = filter (\<lambda>a. \<not> is_ma a) (pkt_attributes p)"
    using zero_with_ma(3) [of "pkt_attributes p"] s(3) by (simp add: s(1) ma_def)
  moreover have "is_ma ma" using s(3) by (simp add: ma_def)
  ultimately show ?thesis using that q' s(2) v by blast
qed

lemma recompute_keeps:
  assumes "recompute_message_authenticator hmac_md5 p ra secret = Inr q"
  shows "q = p\<lparr>pkt_attributes := pkt_attributes q\<rparr>"
    "filter (\<lambda>a. \<not> is_ma a) (pkt_attributes q) = filter (\<lambda>a. \<not> is_ma a) (pkt_attributes p)"
    "\<forall>a \<in> set (pkt_attributes p). attribute_ok a \<Longrightarrow> \<forall>a \<in> set (pkt_attributes q). attribute_ok a"
proof -
  have "q = p\<lparr>pkt_attributes := pkt_attributes q\<rparr>
    \<and> filter (\<lambda>a. \<not> is_ma a) (pkt_attributes q) = filter (\<lambda>a. \<not> is_ma a) (pkt_attributes p)
    \<and> ((\<forall>a \<in> set (pkt_attributes p). attribute_ok a) \<longrightarrow> (\<forall>a \<in> set (pkt_attributes q). attribute_ok a))"
  proof (cases "list_ex is_ma (pkt_attributes p) \<or> list_ex is_eap (pkt_attributes p)")
    case True
    show ?thesis by (rule recompute_Inr [OF assms True]) (auto simp: packet_ok_def)
  next
    case False
    with assms show ?thesis by (simp add: recompute_eq)
  qed
  then show "q = p\<lparr>pkt_attributes := pkt_attributes q\<rparr>"
    "filter (\<lambda>a. \<not> is_ma a) (pkt_attributes q) = filter (\<lambda>a. \<not> is_ma a) (pkt_attributes p)"
    "\<forall>a \<in> set (pkt_attributes p). attribute_ok a \<Longrightarrow> \<forall>a \<in> set (pkt_attributes q). attribute_ok a" by blast+
qed

lemma recompute_Inl:
  assumes "recompute_message_authenticator hmac_md5 p ra secret = Inl e" "\<forall>a \<in> set (pkt_attributes p). attribute_ok a"
  shows "\<exists>n > 4096. e = ProxyPacket (PacketTooLarge n)"
proof -
  let ?p = "p\<lparr>pkt_attributes := zero_ma (with_ma (pkt_attributes p)), pkt_authenticator := ra\<rparr>"
  have "\<forall>a \<in> set (pkt_attributes ?p). attribute_ok a" using zero_with_ma(5) [OF assms(2)] by simp
  note enc = Packet_encode_if [OF this]
  from assms(1) obtain e' where "Packet_encode ?p = Inl e'" "e = ProxyPacket e'"
    by (cases "Packet_encode ?p") (auto simp: recompute_eq Let_def split: if_splits)
  with enc show ?thesis by (auto simp: pkt_consts split: if_splits)
qed

text \<open>The receiver's check of a packet that had at most one Message-Authenticator.\<close>

lemma recompute_check:
  assumes "recompute_message_authenticator hmac_md5 p ra secret = Inr q" "length (filter is_ma (pkt_attributes p)) \<le> 1"
  shows "check_message_authenticator hmac_md5 (q\<lparr>pkt_authenticator := x\<rparr>) ra secret =
     Inr (if list_ex is_ma (pkt_attributes p) \<or> list_ex is_eap (pkt_attributes p) then Valid else Absent)"
proof (cases "list_ex is_ma (pkt_attributes p) \<or> list_ex is_eap (pkt_attributes p)")
  case True
  obtain pre ma post where q: "q = p\<lparr>pkt_attributes := pre @ ma # post\<rparr>" "\<forall>a \<in> set pre. \<not> is_ma a" "is_ma ma"
    and n: "length (filter is_ma (pre @ ma # post)) = max 1 (length (filter is_ma (pkt_attributes p)))"
    and "filter (\<lambda>a. \<not> is_ma a) (pre @ ma # post) = filter (\<lambda>a. \<not> is_ma a) (pkt_attributes p)"
    and v: "attr_value ma = bytes16 (hmac_md5 secret (packet_bytes (q\<lparr>pkt_authenticator := ra,
       pkt_attributes := pre @ ma\<lparr>attr_value := replicate 16 0\<rparr> # post\<rparr>)))" and ok: "packet_ok q"
    by (rule recompute_Inr [OF assms(1) True])
  from n assms(2) q(2,3) have "\<forall>a \<in> set pre \<union> set post. \<not> is_ma a"
    by (auto simp: max_def filter_empty_conv split: if_splits)
  moreover have "packet_ok (q\<lparr>pkt_authenticator := x\<rparr>)" using ok by (simp add: packet_ok_def)
  moreover have "length (attr_value ma) = 16" by (simp add: v)
  ultimately show ?thesis
    using True q v check_message_authenticator_one [of "q\<lparr>pkt_authenticator := x\<rparr>" pre ma post hmac_md5 ra secret] by simp
next
  case False
  with assms(1) show ?thesis
    by (simp add: recompute_eq check_message_authenticator_def ma_walk_none list_ex_iff)
qed

section \<open>Requests\<close>

abbreviation is_up :: "Attribute \<Rightarrow> bool" where
  "is_up a \<equiv> attr_type a = AttributeType_as_u8 UserPassword"

text \<open>An attribute and what the home server gets for it.\<close>

definition up_rekeyed :: "(bytes \<Rightarrow> arr16) \<Rightarrow> arr16 \<Rightarrow> bytes \<Rightarrow> bytes \<Rightarrow> Attribute \<Rightarrow> Attribute \<Rightarrow> bool" where
  "up_rekeyed md5 ra cs hs a b \<longleftrightarrow> attr_type b = attr_type a \<and> (attribute_ok a \<longrightarrow> attribute_ok b) \<and>
     (if is_up a then \<exists>pw. decrypt_user_password md5 (attr_value a) cs ra = Inr pw \<and> decrypt_user_password md5 (attr_value b) hs ra = Inr pw
      else b = a)"

lemma up_rekeyed_password:
  assumes "decrypt_user_password md5 (attr_value a) cs ra = Inr pw" "is_up a"
  shows "up_rekeyed md5 ra cs hs a (a\<lparr>attr_value := encrypt_user_password md5 pw hs ra\<rparr>)"
  using decrypt_user_password_Inr [OF assms(1)] decrypt_encrypt_user_password [of pw md5 hs ra] assms
  by (auto simp: up_rekeyed_def attribute_ok_def)

lemma rekey_user_passwords_Inr:
  "rekey_user_passwords md5 ra cs hs as = Inr bs \<Longrightarrow> list_all2 (up_rekeyed md5 ra cs hs) as bs"
proof (induction as arbitrary: bs)
  case (Cons a as)
  then obtain b bs' where bs: "bs = b # bs'" and r: "rekey_user_passwords md5 ra cs hs as = Inr bs'"
    and b: "up_rekeyed md5 ra cs hs a b"
    using up_rekeyed_password [of md5 a cs ra] by (auto simp: res_simps up_rekeyed_def split: if_splits)
  with Cons.IH [OF r] show ?case by simp
qed simp

lemma rekey_user_passwords_Inl:
  "rekey_user_passwords md5 ra cs hs as = Inl e \<Longrightarrow>
     \<exists>a msg. a \<in> set as \<and> is_up a \<and> decrypt_user_password md5 (attr_value a) cs ra = Inl msg \<and> e = InvalidUserPassword msg"
proof (induction as)
  case (Cons a as)
  show ?case
  proof (cases "is_up a \<and> (\<exists>msg. decrypt_user_password md5 (attr_value a) cs ra = Inl msg)")
    case True
    with Cons.prems show ?thesis by auto
  next
    case False
    then obtain b where "(if is_up a then
        res_bind (map_err InvalidUserPassword (decrypt_user_password md5 (attr_value a) cs ra)) (\<lambda>password.
          Inr (a\<lparr>attr_value := encrypt_user_password md5 password hs ra\<rparr>))
        else Inr a) = (Inr b :: ProxyError + Attribute)"
      by (cases "is_up a"; cases "decrypt_user_password md5 (attr_value a) cs ra") auto
    with Cons.prems have "rekey_user_passwords md5 ra cs hs as = Inl e"
      by (cases "rekey_user_passwords md5 ra cs hs as") auto
    with Cons.IH show ?thesis by auto
  qed
qed simp

lemma up_rekeyed_list:
  assumes "list_all2 (up_rekeyed md5 ra cs hs) as bs"
  shows "filter (\<lambda>a. \<not> is_up a) bs = filter (\<lambda>a. \<not> is_up a) as"
    "map (\<lambda>b. decrypt_user_password md5 (attr_value b) hs ra) (filter is_up bs) =
       map (\<lambda>a. decrypt_user_password md5 (attr_value a) cs ra) (filter is_up as)"
    "\<forall>a \<in> set as. attribute_ok a \<Longrightarrow> \<forall>b \<in> set bs. attribute_ok b"
  using assms by (induction as bs rule: list_all2_induct) (auto simp: up_rekeyed_def split: if_splits)

text \<open>Attributes outside a set of types are kept when those outside a smaller set are.\<close>

lemma filter_mono_eq:
  assumes "filter p xs = filter p ys" "\<And>a. q a \<Longrightarrow> p a"
  shows "filter q xs = filter q ys"
proof -
  have "filter q zs = filter q (filter p zs)" for zs using assms(2) by (induction zs) auto
  with assms(1) show ?thesis by metis
qed

lemma request_rekeyed:
  assumes "\<forall>a \<in> set (pkt_attributes request). attribute_ok a" "length (filter is_ma (pkt_attributes request)) \<le> 1"
  shows "case rewrite_request_for_home_server md5 hmac_md5 request key cs hs of
     Inl e \<Rightarrow> (\<exists>n > 4096. e = ProxyPacket (PacketTooLarge n)) \<or>
       (\<exists>a msg. a \<in> set (pkt_attributes request) \<and> is_up a \<and> e = InvalidUserPassword msg
          \<and> decrypt_user_password md5 (attr_value a) cs (pkt_authenticator request) = Inl msg)
   | Inr q \<Rightarrow> q = request\<lparr>pkt_attributes := pkt_attributes q\<rparr>
       \<and> map (\<lambda>a. decrypt_user_password md5 (attr_value a) hs (pkt_authenticator request)) (filter is_up (pkt_attributes q))
         = map (\<lambda>a. decrypt_user_password md5 (attr_value a) cs (pkt_authenticator request)) (filter is_up (pkt_attributes request))
       \<and> filter (\<lambda>a. \<not> is_ma a \<and> \<not> is_up a) (pkt_attributes q)
         = filter (\<lambda>a. \<not> is_ma a \<and> \<not> is_up a) (pkt_attributes request)
           @ [\<lparr>attr_type = AttributeType_as_u8 ProxyState, attr_value = bytes16 key\<rparr>]
       \<and> check_message_authenticator hmac_md5 q (pkt_authenticator request) hs =
           Inr (if list_ex is_ma (pkt_attributes request) \<or> list_ex is_eap (pkt_attributes request) then Valid else Absent)"
proof -
  let ?ps = "\<lparr>attr_type = AttributeType_as_u8 ProxyState, attr_value = bytes16 key\<rparr>" and ?ra = "pkt_authenticator request"
  let ?as = "pkt_attributes request @ [?ps]"
  have "Attribute_new (AttributeType_as_u8 ProxyState) (bytes16 key) = Inr ?ps" by (simp add: Attribute_new_def attr_consts)
  then have eq: "rewrite_request_for_home_server md5 hmac_md5 request key cs hs =
      res_bind (rekey_user_passwords md5 ?ra cs hs ?as) (\<lambda>as.
        recompute_message_authenticator hmac_md5 (request\<lparr>pkt_attributes := as\<rparr>) ?ra hs)"
    by (simp add: rewrite_request_for_home_server_def add_attribute_def Let_def)
  have ok: "\<forall>a \<in> set ?as. attribute_ok a" using assms(1) by (simp add: attribute_ok_def attr_consts)
  show ?thesis
  proof (cases "rekey_user_passwords md5 ?ra cs hs ?as")
    case (Inl e)
    with rekey_user_passwords_Inl [OF Inl] show ?thesis by (auto simp: eq)
  next
    case (Inr bs)
    note l = up_rekeyed_list [OF rekey_user_passwords_Inr [OF Inr]]
    let ?p = "request\<lparr>pkt_attributes := bs\<rparr>"
    have okb: "\<forall>a \<in> set (pkt_attributes ?p). attribute_ok a" using l(3) [OF ok] by simp
    have ma: "filter is_ma bs = filter is_ma (pkt_attributes request)" "filter is_eap bs = filter is_eap (pkt_attributes request)"
      using filter_mono_eq [OF l(1), of is_ma] filter_mono_eq [OF l(1), of is_eap] by simp_all
    then have ex: "list_ex is_ma bs = list_ex is_ma (pkt_attributes request)" "list_ex is_eap bs = list_ex is_eap (pkt_attributes request)"
      by (metis filter_empty_conv list_ex_iff)+
    show ?thesis
    proof (cases "recompute_message_authenticator hmac_md5 ?p ?ra hs")
      case (Inl e)
      with recompute_Inl [OF Inl okb] Inr show ?thesis by (simp add: eq)
    next
      case q: (Inr q)
      note k = recompute_keeps [OF q]
      have "check_message_authenticator hmac_md5 (q\<lparr>pkt_authenticator := ?ra\<rparr>) ?ra hs =
          Inr (if list_ex is_ma (pkt_attributes request) \<or> list_ex is_eap (pkt_attributes request) then Valid else Absent)"
        using recompute_check [OF q, of ?ra] assms(2) ma ex by simp
      moreover have "q\<lparr>pkt_authenticator := ?ra\<rparr> = q" by (subst (1 2) k(1)) simp
      moreover have "filter is_up (pkt_attributes q) = filter is_up bs"
        using filter_mono_eq [OF k(2), of is_up] by simp
      moreover have "filter (\<lambda>a. \<not> is_ma a \<and> \<not> is_up a) (pkt_attributes q) = filter (\<lambda>a. \<not> is_ma a \<and> \<not> is_up a) ?as"
        using filter_mono_eq [OF k(2), of "\<lambda>a. \<not> is_ma a \<and> \<not> is_up a"] filter_mono_eq [OF l(1), of "\<lambda>a. \<not> is_ma a \<and> \<not> is_up a"]
        by simp
      ultimately show ?thesis using Inr q k(1) l(2) by (simp add: eq)
    qed
  qed
qed

section \<open>Properties\<close>

text \<open>
  C16. The request a home server gets. If the NAS's request has at most one
  Message-Authenticator, rewriting it fails only for a User-Password that does not decrypt under
  the client's secret or because the result exceeds 4096 octets; otherwise code, Identifier and
  Request Authenticator are the NAS's, the home server decrypts every User-Password under its own
  secret to exactly what the NAS encrypted, every other attribute is unchanged and in order with
  the proxy's Proxy-State after them, and the Message-Authenticator, added when the request
  carries EAP without one, passes the check under the home server's secret.
\<close>

theorem forwarded_request_rekeyed:
  assumes "\<forall>a \<in> set (pkt_attributes request). attribute_ok a" "length (filter is_ma (pkt_attributes request)) \<le> 1"
  shows "case rewrite_request_for_home_server md5 hmac_md5 request key cs hs of
     Inl e \<Rightarrow> (\<exists>n > 4096. e = ProxyPacket (PacketTooLarge n)) \<or>
       (\<exists>a msg. a \<in> set (pkt_attributes request) \<and> is_up a \<and> e = InvalidUserPassword msg
          \<and> decrypt_user_password md5 (attr_value a) cs (pkt_authenticator request) = Inl msg)
   | Inr q \<Rightarrow> q = request\<lparr>pkt_attributes := pkt_attributes q\<rparr>
       \<and> map (\<lambda>a. decrypt_user_password md5 (attr_value a) hs (pkt_authenticator request)) (filter is_up (pkt_attributes q))
         = map (\<lambda>a. decrypt_user_password md5 (attr_value a) cs (pkt_authenticator request)) (filter is_up (pkt_attributes request))
       \<and> filter (\<lambda>a. \<not> is_ma a \<and> \<not> is_up a) (pkt_attributes q)
         = filter (\<lambda>a. \<not> is_ma a \<and> \<not> is_up a) (pkt_attributes request)
           @ [\<lparr>attr_type = AttributeType_as_u8 ProxyState, attr_value = bytes16 key\<rparr>]
       \<and> check_message_authenticator hmac_md5 q (pkt_authenticator request) hs =
           Inr (if list_ex is_ma (pkt_attributes request) \<or> list_ex is_eap (pkt_attributes request) then Valid else Absent)"
  by (rule request_rekeyed [OF assms])

theorem forwarded_request_rekeyed_witness:
  "\<exists>q. rewrite_request_for_home_server (\<lambda>_. arr16_of []) (\<lambda>_ _. arr16_of [])
      (Packet_new AccessRequest 1 (arr16_of []) \<lparr>pkt_attributes := [\<lparr>attr_type = AttributeType_as_u8 EapMessage, attr_value = [1]\<rparr>]\<rparr>)
      (arr16_of [7]) [1] [2] = Inr q
    \<and> check_message_authenticator (\<lambda>_ _. arr16_of []) q (arr16_of []) [2] = Inr Valid"
proof -
  let ?r = "Packet_new AccessRequest 1 (arr16_of [])
    \<lparr>pkt_attributes := [\<lparr>attr_type = AttributeType_as_u8 EapMessage, attr_value = [1]\<rparr>]\<rparr>"
  have "\<exists>q. rewrite_request_for_home_server (\<lambda>_. arr16_of []) (\<lambda>_ _. arr16_of []) ?r (arr16_of [7]) [1] [2] = Inr q"
    by (simp add: rewrite_request_for_home_server_def recompute_eq with_ma_def zero_ma_def add_attribute_def Packet_new_def
        Attribute_new_def attr_consts Packet_encode_if Packet_length_eq encoded_length_def pkt_consts attribute_ok_def Let_def)
  then obtain q where "rewrite_request_for_home_server (\<lambda>_. arr16_of []) (\<lambda>_ _. arr16_of []) ?r (arr16_of [7]) [1] [2] = Inr q" ..
  with forwarded_request_rekeyed [of ?r "\<lambda>_. arr16_of []" "[1]" "[2]" "arr16_of [7]" "\<lambda>_ _. arr16_of []"] show ?thesis
    by (simp add: Packet_new_def attribute_ok_def attr_consts)
qed

end
