(* ===== verification/Proxy_Replies.thy ===== *)
theory Proxy_Replies
  imports Proxy_Rewrite
begin

text \<open>
  What the NAS gets back through the proxy: the lemmas on \<open>rewrite_response_for_nas\<close>, one group per
  step of the function (MS-MPPE keys, Tunnel-Passwords, the two authenticators), and the
  end-to-end theorem.
\<close>

section \<open>Vendor-Specific attributes\<close>

abbreviation is_vsa :: "Attribute \<Rightarrow> bool" where
  "is_vsa a \<equiv> attr_type a = AttributeType_as_u8 VendorSpecific"

text \<open>The sub-attributes of an attribute, none when it is not a decodable Vendor-Specific one.\<close>

definition sub_attributes :: "Attribute \<Rightarrow> VendorSpecific list" where
  "sub_attributes a = (case from_attribute a of Inr subs \<Rightarrow> subs | Inl _ \<Rightarrow> [])"

definition vendor_subs :: "Attribute list \<Rightarrow> VendorSpecific list" where
  "vendor_subs as = concat (map sub_attributes as)"

lemma vendor_subs_simps [simp]:
  "vendor_subs [] = []" "vendor_subs (a # as) = sub_attributes a @ vendor_subs as"
  "vendor_subs (as @ bs) = vendor_subs as @ vendor_subs bs"
  by (simp_all add: vendor_subs_def)

lemma sub_attributes_Nil_iff: "sub_attributes a = [] \<longleftrightarrow> \<not> (\<exists>subs. from_attribute a = Inr subs)"
  by (cases "from_attribute a") (auto simp: sub_attributes_def from_attribute_def decode_value_Inr_iff split: if_splits)

lemma sub_attributes_not_vsa: "\<not> is_vsa a \<Longrightarrow> sub_attributes a = []"
  by (simp add: sub_attributes_def from_attribute_def)

lemma find_vendor_attributes_subs:
  "find_vendor_attributes p vid ty = filter (\<lambda>v. vendor_id v = vid \<and> vendor_type v = ty) (vendor_subs (pkt_attributes p))"
proof -
  have "concat (List.map_filter (\<lambda>a. res_ok (decode_value (attr_value a))) (filter is_vsa as)) = vendor_subs as" for as
    by (induction as) (auto simp: List.map_filter_def sub_attributes_def from_attribute_def split: sum.splits)
  then show ?thesis by (simp add: find_vendor_attributes_def)
qed

lemma vendor_subs_filter:
  "filter (\<lambda>a. sub_attributes a \<noteq> []) as = filter (\<lambda>a. sub_attributes a \<noteq> []) bs \<Longrightarrow> vendor_subs as = vendor_subs bs"
proof -
  have "vendor_subs as = vendor_subs (filter (\<lambda>a. sub_attributes a \<noteq> []) as)" for as
    by (induction as) auto
  then show "filter (\<lambda>a. sub_attributes a \<noteq> []) as = filter (\<lambda>a. sub_attributes a \<noteq> []) bs \<Longrightarrow> vendor_subs as = vendor_subs bs"
    by metis
qed

lemma vendor_subs_length:
  assumes "\<forall>a \<in> set as. attribute_ok a" "v \<in> set (vendor_subs as)"
  shows "length (vendor_value v) \<le> 247"
proof -
  from assms obtain a where "attribute_ok a" "v \<in> set (sub_attributes a)" by (auto simp: vendor_subs_def)
  then obtain subs where a: "attribute_ok a" "from_attribute a = Inr subs" "v \<in> set subs"
    by (cases "from_attribute a") (simp_all add: sub_attributes_def)
  then have "attr_value a = u32_to_be_bytes (vendor_id (hd subs)) @ concat (map encode_sub_attribute subs)"
    by (auto simp: from_attribute_def decode_value_Inr_iff split: if_splits)
  with a(1) concat_sub_length [OF a(3)] show ?thesis by (simp add: attribute_ok_def attr_consts)
qed

section \<open>MS-MPPE keys\<close>

text \<open>Stripping removes exactly the key sub-attributes.\<close>

lemma strip_mppe_loop_conj:
  "\<forall>a \<in> set as. attribute_ok a \<Longrightarrow>
     vendor_subs (strip_mppe_loop as) = filter (\<lambda>v. \<not> is_mppe_key v) (vendor_subs as)
     \<and> filter (\<lambda>a. sub_attributes a = []) (strip_mppe_loop as) = filter (\<lambda>a. sub_attributes a = []) as
     \<and> (\<forall>a \<in> set (strip_mppe_loop as). attribute_ok a)"
proof (induction as)
  case (Cons a as)
  have IH: "vendor_subs (strip_mppe_loop as) = filter (\<lambda>v. \<not> is_mppe_key v) (vendor_subs as)"
    "filter (\<lambda>a. sub_attributes a = []) (strip_mppe_loop as) = filter (\<lambda>a. sub_attributes a = []) as"
    "\<forall>a \<in> set (strip_mppe_loop as). attribute_ok a" and ok: "attribute_ok a"
    using Cons by simp_all
  show ?case
  proof (cases "from_attribute a")
    case (Inl e)
    then show ?thesis using IH ok by (simp add: sub_attributes_def)
  next
    case (Inr subs)
    then have vsa: "is_vsa a" and sub: "sub_attributes a = subs" "subs \<noteq> []"
      by (auto simp: from_attribute_def sub_attributes_def decode_value_Inr_iff split: if_splits)
    let ?rem = "filter (\<lambda>v. \<not> is_mppe_key v) subs"
    consider "\<not> list_ex is_mppe_key subs" | "list_ex is_mppe_key subs" "?rem = []" | "list_ex is_mppe_key subs" "?rem \<noteq> []"
      by blast
    then show ?thesis
    proof cases
      case 1
      then have "?rem = subs" by (auto simp: list_ex_iff intro: filter_True)
      with 1 show ?thesis using IH ok vsa sub Inr by simp
    next
      case 2
      then show ?thesis using IH ok vsa sub Inr by simp
    next
      case 3
      obtain b where b: "to_attribute_combined ?rem = Inr b"
        using to_attribute_combined_filter [OF ok Inr 3(2)] by blast
      then have "attribute_ok b" "sub_attributes b = ?rem"
        by (simp_all add: to_attribute_combined_iff sub_attributes_def)
      with 3 b show ?thesis using IH ok vsa sub Inr by simp
    qed
  qed
qed simp

lemmas strip_mppe_loop_keeps = strip_mppe_loop_conj [THEN conjunct1] strip_mppe_loop_conj [THEN conjunct2, THEN conjunct1]
  strip_mppe_loop_conj [THEN conjunct2, THEN conjunct2]

text \<open>The keys are found and read from the sub-attributes alone.\<close>

lemma from_packet_subs:
  "vendor_subs (pkt_attributes p) = vendor_subs (pkt_attributes q) \<Longrightarrow> from_packet md5 p = from_packet md5 q"
  by (simp add: from_packet_def fun_eq_iff find_vendor_attributes_subs)

lemma salts_in_use_subs:
  "vendor_subs (pkt_attributes p) = vendor_subs (pkt_attributes q) \<Longrightarrow> salts_in_use p = salts_in_use q"
  by (simp add: salts_in_use_def find_vendor_attributes_subs)

lemma no_mppe_keys:
  assumes "\<forall>v \<in> set (vendor_subs (pkt_attributes p)). \<not> is_mppe_key v"
  shows "find_vendor_attributes p MICROSOFT_VENDOR_ID MS_MPPE_SEND_KEY = []"
    "find_vendor_attributes p MICROSOFT_VENDOR_ID MS_MPPE_RECV_KEY = []"
    "from_packet md5 p secret ra = Inr None" "salts_in_use p = []"
proof -
  show f: "find_vendor_attributes p MICROSOFT_VENDOR_ID MS_MPPE_SEND_KEY = []"
    "find_vendor_attributes p MICROSOFT_VENDOR_ID MS_MPPE_RECV_KEY = []"
    using assms by (auto simp: find_vendor_attributes_subs filter_empty_conv is_mppe_key_def)
  then show "from_packet md5 p secret ra = Inr None" "salts_in_use p = []"
    by (simp_all add: from_packet_def salts_in_use_def List.map_filter_def)
qed

lemma from_packet_None:
  assumes "from_packet md5 p secret ra = Inr None"
  shows "\<forall>v \<in> set (vendor_subs (pkt_attributes p)). \<not> is_mppe_key v"
proof -
  have "find_vendor_attributes p MICROSOFT_VENDOR_ID MS_MPPE_SEND_KEY = []"
    "find_vendor_attributes p MICROSOFT_VENDOR_ID MS_MPPE_RECV_KEY = []"
    using assms by (auto simp: from_packet_def res_simps split: list.splits)
  then show ?thesis by (auto simp: find_vendor_attributes_subs filter_empty_conv is_mppe_key_def)
qed

lemma from_packet_Some:
  assumes "from_packet md5 p secret ra = Inr (Some keys)" "\<forall>a \<in> set (pkt_attributes p). attribute_ok a"
  shows "length (send_key keys) \<le> 239" "length (recv_key keys) \<le> 239"
proof -
  from assms(1) obtain s r ss rs where
    f: "find_vendor_attributes p MICROSOFT_VENDOR_ID MS_MPPE_SEND_KEY = s # ss"
      "find_vendor_attributes p MICROSOFT_VENDOR_ID MS_MPPE_RECV_KEY = r # rs"
    and d: "decrypt_key md5 (vendor_value s) secret ra = Inr (send_key keys)"
      "decrypt_key md5 (vendor_value r) secret ra = Inr (recv_key keys)"
    by (auto simp: from_packet_def res_simps split: list.splits)
  have "{s, r} \<subseteq> set (vendor_subs (pkt_attributes p))"
    using arg_cong [OF f(1), of set] arg_cong [OF f(2), of set] by (auto simp: find_vendor_attributes_subs)
  then show "length (send_key keys) \<le> 239" "length (recv_key keys) \<le> 239"
    using d decrypt_key_length vendor_subs_length [OF assms(2)] by auto
qed

text \<open>
  After re-keying, the NAS reads under its own secret the keys the proxy read under the home
  server's; unreadable keys are gone. Other sub-attributes and attributes stay.
\<close>

lemma two_salts:
  assumes "take 2 v1 = salt_bytes (generate_salts rnd 2 ! 0)" "take 2 v2 = salt_bytes (generate_salts rnd 2 ! 1)"
  shows "2 \<le> length v1" "2 \<le> length v2" "(v1 ! 0, v1 ! 1) \<noteq> (v2 ! 0, v2 ! 1)"
proof -
  have "generate_salts rnd 2 ! 0 \<noteq> generate_salts rnd 2 ! 1"
    using generate_salts_distinct [of 2 rnd] by (simp add: nth_eq_iff_index_eq)
  moreover have "take 2 v = salt_bytes s \<Longrightarrow> 2 \<le> length v \<and> s = (v ! 0, v ! 1)" for v s
    by (cases s; cases v; cases "tl v") (auto simp: salt_bytes_def)
  ultimately show "2 \<le> length v1" "2 \<le> length v2" "(v1 ! 0, v1 ! 1) \<noteq> (v2 ! 0, v2 ! 1)"
    using assms by metis+
qed

lemma to_attribute_sub:
  assumes "to_attribute v = Inr a"
  shows "sub_attributes a = [v]" "attribute_ok a"
proof -
  have a: "is_vsa a" "attr_value a = encode_value v" "attribute_ok a"
    using assms by (auto simp: to_attribute_def res_simps)
  then have "vsa_ok (vendor_id v) v" by (simp add: vsa_ok_def attribute_ok_def encode_value_def attr_consts)
  then have "decode_value (attr_value a) = Inr [v]" by (simp add: decode_value_Inr_iff a encode_value_def)
  with a show "sub_attributes a = [v]" "attribute_ok a" by (simp_all add: sub_attributes_def from_attribute_def)
qed

lemma rekey_mppe_keeps:
  assumes "\<forall>a \<in> set (pkt_attributes p). attribute_ok a"
    and ra_def: "ra = pkt_authenticator (original_request entry)" and q_def: "q = rekey_mppe_attributes md5 rnd hs p entry"
  shows "q = p\<lparr>pkt_attributes := pkt_attributes q\<rparr>"
    "filter (\<lambda>a. sub_attributes a = []) (pkt_attributes q) = filter (\<lambda>a. sub_attributes a = []) (pkt_attributes p)"
    "filter (\<lambda>v. \<not> is_mppe_key v) (vendor_subs (pkt_attributes q)) = filter (\<lambda>v. \<not> is_mppe_key v) (vendor_subs (pkt_attributes p))"
    "from_packet md5 q (client_secret entry) ra = (case from_packet md5 p hs ra of Inr keys \<Rightarrow> Inr keys | Inl _ \<Rightarrow> Inr None)"
    "\<forall>a \<in> set (pkt_attributes q). attribute_ok a" "distinct (salts_in_use q) \<and> length (salts_in_use q) \<le> 2"
proof -
  let ?s = "strip_mppe_attributes p"
  let ?A = "\<lambda>q. q = p\<lparr>pkt_attributes := pkt_attributes q\<rparr>
    \<and> filter (\<lambda>a. sub_attributes a = []) (pkt_attributes q) = filter (\<lambda>a. sub_attributes a = []) (pkt_attributes p)
    \<and> filter (\<lambda>v. \<not> is_mppe_key v) (vendor_subs (pkt_attributes q)) = filter (\<lambda>v. \<not> is_mppe_key v) (vendor_subs (pkt_attributes p))
    \<and> from_packet md5 q (client_secret entry) ra = (case from_packet md5 p hs ra of Inr keys \<Rightarrow> Inr keys | Inl _ \<Rightarrow> Inr None)
    \<and> (\<forall>a \<in> set (pkt_attributes q). attribute_ok a) \<and> distinct (salts_in_use q) \<and> length (salts_in_use q) \<le> 2"
  note s = strip_mppe_loop_keeps [OF assms(1)]
  have none: "\<forall>v \<in> set (vendor_subs (pkt_attributes ?s)). \<not> is_mppe_key v" by (simp add: strip_mppe_attributes_def s(1))
  note nk = no_mppe_keys [OF none]
  consider "from_packet md5 p hs ra = Inr None" | e where "from_packet md5 p hs ra = Inl e"
    | keys where "from_packet md5 p hs ra = Inr (Some keys)" by (metis option.exhaust sum.exhaust)
  then have "?A q"
  proof cases
    case 1
    then have "q = p" by (simp add: q_def rekey_mppe_attributes_def flip: ra_def)
    with no_mppe_keys [OF from_packet_None [OF 1]] 1 assms(1) show ?thesis by simp
  next
    case 2
    then have "q = ?s" by (simp add: q_def rekey_mppe_attributes_def flip: ra_def)
    moreover have "?s = p\<lparr>pkt_attributes := pkt_attributes ?s\<rparr>" by (simp add: strip_mppe_attributes_def)
    ultimately show ?thesis using nk 2 s by (simp add: strip_mppe_attributes_def)
  next
    case (3 keys)
    let ?salts = "generate_salts rnd 2"
    obtain v1 a1 v2 a2 where
      at: "to_attributes md5 rnd keys (client_secret entry) ra = Inr [a1, a2]" "to_attribute v1 = Inr a1" "to_attribute v2 = Inr a2"
      and v: "vendor_id v1 = MICROSOFT_VENDOR_ID" "vendor_type v1 = MS_MPPE_SEND_KEY"
        "vendor_id v2 = MICROSOFT_VENDOR_ID" "vendor_type v2 = MS_MPPE_RECV_KEY"
        "take 2 (vendor_value v1) = salt_bytes (?salts ! 0)" "take 2 (vendor_value v2) = salt_bytes (?salts ! 1)"
      and fp: "from_packet md5 (?s\<lparr>pkt_attributes := pkt_attributes ?s @ [a1, a2]\<rparr>) (client_secret entry) ra = Inr (Some keys)"
      using to_attributes_delivered [OF from_packet_Some [OF 3 assms(1)] nk(1,2), of md5 rnd "client_secret entry" ra] by blast
    have q: "q = ?s\<lparr>pkt_attributes := pkt_attributes ?s @ [a1, a2]\<rparr>"
      using 3 at(1) by (simp add: q_def rekey_mppe_attributes_def add_attribute_def Let_def flip: ra_def)
    have sub: "sub_attributes a1 = [v1]" "sub_attributes a2 = [v2]" "attribute_ok a1" "attribute_ok a2"
      using to_attribute_sub at(2,3) by blast+
    have k: "is_mppe_key v1" "is_mppe_key v2" using v by (simp_all add: is_mppe_key_def)
    have "distinct (salts_in_use q) \<and> length (salts_in_use q) \<le> 2"
      using two_salts [OF v(5,6)] v(1-4) nk(1,2)
      by (simp add: salts_in_use_def q find_vendor_attributes_two [OF at(2,3)] MS_MPPE_SEND_KEY_def MS_MPPE_RECV_KEY_def List.map_filter_def)
    with fp 3 s sub k show ?thesis by (simp add: q strip_mppe_attributes_def)
  qed
  then show "q = p\<lparr>pkt_attributes := pkt_attributes q\<rparr>"
    "filter (\<lambda>a. sub_attributes a = []) (pkt_attributes q) = filter (\<lambda>a. sub_attributes a = []) (pkt_attributes p)"
    "filter (\<lambda>v. \<not> is_mppe_key v) (vendor_subs (pkt_attributes q)) = filter (\<lambda>v. \<not> is_mppe_key v) (vendor_subs (pkt_attributes p))"
    "from_packet md5 q (client_secret entry) ra = (case from_packet md5 p hs ra of Inr keys \<Rightarrow> Inr keys | Inl _ \<Rightarrow> Inr None)"
    "\<forall>a \<in> set (pkt_attributes q). attribute_ok a" "distinct (salts_in_use q) \<and> length (salts_in_use q) \<le> 2"
    by blast+
qed

section \<open>Tunnel-Passwords\<close>

abbreviation is_tp :: "Attribute \<Rightarrow> bool" where
  "is_tp a \<equiv> attr_type a = AttributeType_as_u8 TunnelPassword"

definition tunnel_salt :: "Attribute \<Rightarrow> salt" where
  "tunnel_salt a = (attr_value a ! 1, attr_value a ! 2)"

lemma fresh_salts_fresh:
  assumes "n + length used \<le> 32768"
  shows "length (fresh_salts rnd n used) = n" "distinct (fresh_salts rnd n used @ used) = distinct used"
    "s \<in> set (fresh_salts rnd n used) \<Longrightarrow> fst s AND 0x80 \<noteq> 0"
proof -
  let ?g = "generate_salts rnd (n + length used)" and ?taken = "\<lambda>s. s \<in> set used"
  have d: "distinct ?g" using generate_salts_distinct assms by blast
  then have "length (filter ?taken ?g) = card (set (filter ?taken ?g))" by (metis distinct_card distinct_filter)
  also have "\<dots> \<le> card (set used)" by (rule card_mono) auto
  also have "\<dots> \<le> length used" by (rule card_length)
  finally have "n \<le> length (filter (\<lambda>s. \<not> ?taken s) ?g)" using sum_length_filter_compl [of ?taken ?g] by simp
  then show "length (fresh_salts rnd n used) = n" by (simp add: fresh_salts_def Let_def)
  have "distinct (fresh_salts rnd n used)" using d by (simp add: fresh_salts_def Let_def)
  moreover have sub: "set (fresh_salts rnd n used) \<subseteq> set ?g - set used"
    unfolding fresh_salts_def Let_def using set_take_subset by fastforce
  ultimately show "distinct (fresh_salts rnd n used @ used) = distinct used" by auto
  show "s \<in> set (fresh_salts rnd n used) \<Longrightarrow> fst s AND 0x80 \<noteq> 0" using sub generate_salts_msb by blast
qed

lemma tunnel_attribute_salt:
  assumes "TunnelPassword_to_attribute_with_salt md5 tp secret ra s = Inr b"
  shows "is_tp b \<and> tunnel_salt b = s"
  using assms by (cases s) (auto simp: TunnelPassword_to_attribute_with_salt_def res_simps tunnel_salt_def salt_bytes_def)

lemma tunnel_rekeyed_one:
  assumes "attribute_ok a" "TunnelPassword_from_attribute md5 a hs ra = Inr tp" "fst s AND 0x80 \<noteq> 0"
  shows "\<exists>b. TunnelPassword_to_attribute_with_salt md5 tp cs ra s = Inr b \<and> TunnelPassword_from_attribute md5 b cs ra = Inr tp
     \<and> attribute_ok b \<and> is_tp b \<and> tunnel_salt b = s"
proof -
  have "TunnelPassword_decrypt md5 (attr_value a) hs ra = Inr (tunnel_tag tp, tunnel_password tp)"
    using assms(2) by (auto simp: TunnelPassword_from_attribute_def res_simps split: if_splits)
  moreover have "length (attr_value a) \<le> 253" using assms(1) by (simp add: attribute_ok_def attr_consts)
  ultimately have b: "tunnel_tag tp \<le> 0x1F" "length (tunnel_password tp) \<le> 239" using decrypt_tunnel_bounds by blast+
  then obtain b where "TunnelPassword_to_attribute_with_salt md5 tp cs ra s = Inr b"
    using tunnel_attribute_cases [of tp s md5 cs ra] assms(3)
    by (cases "TunnelPassword_to_attribute_with_salt md5 tp cs ra s") auto
  with tunnel_attribute_cases [of tp s md5 cs ra] tunnel_attribute_salt show ?thesis by fastforce
qed

text \<open>
  The loop never runs out of salts; the passwords that decrypt under the home server's secret are
  the ones the NAS decrypts, in order, each under the next salt.
\<close>

lemma rekey_tunnel_loop_keeps:
  assumes "length (filter is_tp as) \<le> length salts" "\<forall>s \<in> set salts. fst s AND 0x80 \<noteq> 0" "\<forall>a \<in> set as. attribute_ok a"
  shows "\<exists>bs. rekey_tunnel_loop md5 ra hs cs salts as = Inr bs \<and> filter (\<lambda>a. \<not> is_tp a) bs = filter (\<lambda>a. \<not> is_tp a) as
     \<and> map (\<lambda>b. TunnelPassword_from_attribute md5 b cs ra) (filter is_tp bs)
       = filter (\<lambda>r. \<not> isl r) (map (\<lambda>a. TunnelPassword_from_attribute md5 a hs ra) (filter is_tp as))
     \<and> map tunnel_salt (filter is_tp bs) = take (length (filter is_tp bs)) salts \<and> (\<forall>b \<in> set bs. attribute_ok b)"
  using assms
proof (induction as arbitrary: salts)
  case (Cons a as)
  show ?case
  proof (cases "is_tp a")
    case False
    with Cons.IH [of salts] Cons.prems show ?thesis by fastforce
  next
    case tp: True
    show ?thesis
    proof (cases "TunnelPassword_from_attribute md5 a hs ra")
      case (Inl e)
      with tp Cons.IH [of salts] Cons.prems show ?thesis by fastforce
    next
      case (Inr pw)
      obtain s salts' where salts: "salts = s # salts'" using tp Cons.prems(1) by (cases salts) auto
      obtain b where b: "TunnelPassword_to_attribute_with_salt md5 pw cs ra s = Inr b"
          "TunnelPassword_from_attribute md5 b cs ra = Inr pw" "attribute_ok b" "is_tp b" "tunnel_salt b = s"
        using tunnel_rekeyed_one [OF _ Inr, of s cs] Cons.prems by (auto simp: salts)
      from Cons.IH [of salts'] Cons.prems tp obtain bs where
        "rekey_tunnel_loop md5 ra hs cs salts' as = Inr bs" "filter (\<lambda>a. \<not> is_tp a) bs = filter (\<lambda>a. \<not> is_tp a) as"
        "map (\<lambda>b. TunnelPassword_from_attribute md5 b cs ra) (filter is_tp bs)
          = filter (\<lambda>r. \<not> isl r) (map (\<lambda>a. TunnelPassword_from_attribute md5 a hs ra) (filter is_tp as))"
        "map tunnel_salt (filter is_tp bs) = take (length (filter is_tp bs)) salts'" "\<forall>b \<in> set bs. attribute_ok b"
        by (auto simp: salts)
      with b Inr tp show ?thesis by (intro exI [of _ "b # bs"]) (simp add: salts)
    qed
  qed
qed simp

lemma rekey_tunnel_passwords_keeps:
  assumes "\<forall>a \<in> set (pkt_attributes p). attribute_ok a" "length (filter is_tp (pkt_attributes p)) \<le> 32766"
    "distinct (salts_in_use p) \<and> length (salts_in_use p) \<le> 2" and ra: "ra = pkt_authenticator (original_request entry)"
  shows "\<exists>bs. rekey_tunnel_passwords md5 rnd hs p entry = Inr (p\<lparr>pkt_attributes := bs\<rparr>)
     \<and> filter (\<lambda>a. \<not> is_tp a) bs = filter (\<lambda>a. \<not> is_tp a) (pkt_attributes p)
     \<and> map (\<lambda>b. TunnelPassword_from_attribute md5 b (client_secret entry) ra) (filter is_tp bs)
       = filter (\<lambda>r. \<not> isl r) (map (\<lambda>a. TunnelPassword_from_attribute md5 a hs ra) (filter is_tp (pkt_attributes p)))
     \<and> distinct (map tunnel_salt (filter is_tp bs) @ salts_in_use p) \<and> (\<forall>b \<in> set bs. attribute_ok b)"
proof (cases "filter is_tp (pkt_attributes p) = []")
  case True
  with assms show ?thesis by (intro exI [of _ "pkt_attributes p"]) (simp add: rekey_tunnel_passwords_def)
next
  case False
  let ?n = "length (filter is_tp (pkt_attributes p))"
  let ?salts = "fresh_salts rnd ?n (salts_in_use p)"
  have "?n + length (salts_in_use p) \<le> 32768" using assms(2,3) by simp
  note f = fresh_salts_fresh [OF this]
  have msb: "\<forall>s \<in> set ?salts. fst s AND 0x80 \<noteq> 0" using f(3) by blast
  obtain bs where bs: "rekey_tunnel_loop md5 ra hs (client_secret entry) ?salts (pkt_attributes p) = Inr bs"
      "filter (\<lambda>a. \<not> is_tp a) bs = filter (\<lambda>a. \<not> is_tp a) (pkt_attributes p)"
      "map (\<lambda>b. TunnelPassword_from_attribute md5 b (client_secret entry) ra) (filter is_tp bs)
       = filter (\<lambda>r. \<not> isl r) (map (\<lambda>a. TunnelPassword_from_attribute md5 a hs ra) (filter is_tp (pkt_attributes p)))"
      "map tunnel_salt (filter is_tp bs) = take (length (filter is_tp bs)) ?salts" "\<forall>b \<in> set bs. attribute_ok b"
    using rekey_tunnel_loop_keeps [OF _ msb assms(1), of md5 ra hs "client_secret entry"] f(1) [of rnd] by auto
  have "distinct (?salts @ salts_in_use p)" using f(2) assms(3) by blast
  then have "distinct (map tunnel_salt (filter is_tp bs) @ salts_in_use p)"
    unfolding bs(4) using set_take_subset [of _ ?salts] by (auto dest: in_set_takeD)
  moreover have "rekey_tunnel_passwords md5 rnd hs p entry = Inr (p\<lparr>pkt_attributes := bs\<rparr>)"
    using False bs(1) by (simp add: rekey_tunnel_passwords_def Let_def flip: ra)
  ultimately show ?thesis using bs by blast
qed

section \<open>The response end to end\<close>

lemma calculate_response_total:
  assumes "\<forall>a \<in> set (pkt_attributes p). attribute_ok a"
  shows "\<exists>auth. calculate_response_authenticator md5 p ra secret = Inr auth
     \<and> verify_response_authenticator md5 p ra secret = Inr (pkt_authenticator p = auth)
     \<and> verify_response_authenticator md5 (p\<lparr>pkt_authenticator := auth\<rparr>) ra secret = Inr True"
  using assms
  by (auto simp: calculate_response_authenticator_def append_attributes_ok verify_response_authenticator_def Let_def
      constant_time_eq_iff arr16_eq_iff)

lemma many_attributes:
  assumes "packet_ok p"
  shows "length (filter P (pkt_attributes p)) \<le> 2048"
proof -
  have "2 * length as \<le> length (concat (map attribute_bytes as))" for as
    by (induction as) (simp_all add: attribute_bytes_def)
  with assms have "2 * length (pkt_attributes p) \<le> 4096"
    unfolding packet_ok_def Packet_length_eq pkt_consts by (meson add_leD2 order_trans)
  with length_filter_le [of P "pkt_attributes p"] show ?thesis by linarith
qed

text \<open>
  The attributes the proxy may not touch: all but Message-Authenticators, Tunnel-Passwords and
  readable vendor attributes.
\<close>

abbreviation opaque :: "Attribute \<Rightarrow> bool" where
  "opaque a \<equiv> \<not> is_ma a \<and> \<not> is_tp a \<and> sub_attributes a = []"

abbreviation own_proxy_state :: "ProxyCacheEntry \<Rightarrow> Attribute" where
  "own_proxy_state entry \<equiv> \<lparr>attr_type = AttributeType_as_u8 ProxyState, attr_value = bytes16 (proxy_state entry)\<rparr>"

text \<open>The response after its attributes are re-keyed and before its authenticators are.\<close>

lemma response_attributes_rekeyed:
  assumes "packet_ok response"
    and ra: "ra = pkt_authenticator (original_request entry)" and cs: "cs = client_secret entry"
  shows "\<exists>p. rekey_tunnel_passwords md5 rnd' hs (rekey_mppe_attributes md5 rnd hs
         (response\<lparr>pkt_attributes := filter (\<lambda>a. a \<noteq> own_proxy_state entry) (pkt_attributes response)\<rparr>) entry) entry = Inr p
       \<and> p = response\<lparr>pkt_attributes := pkt_attributes p\<rparr> \<and> (\<forall>a \<in> set (pkt_attributes p). attribute_ok a)
       \<and> filter is_ma (pkt_attributes p) = filter is_ma (pkt_attributes response)
       \<and> filter is_eap (pkt_attributes p) = filter is_eap (pkt_attributes response)
       \<and> filter opaque (pkt_attributes p) = filter (\<lambda>a. opaque a \<and> a \<noteq> own_proxy_state entry) (pkt_attributes response)
       \<and> filter (\<lambda>v. \<not> is_mppe_key v) (vendor_subs (pkt_attributes p)) = filter (\<lambda>v. \<not> is_mppe_key v) (vendor_subs (pkt_attributes response))
       \<and> from_packet md5 p cs ra = (case from_packet md5 response hs ra of Inr keys \<Rightarrow> Inr keys | Inl _ \<Rightarrow> Inr None)
       \<and> map (\<lambda>a. TunnelPassword_from_attribute md5 a cs ra) (filter is_tp (pkt_attributes p)) =
           filter (\<lambda>r. \<not> isl r) (map (\<lambda>a. TunnelPassword_from_attribute md5 a hs ra) (filter is_tp (pkt_attributes response)))
       \<and> distinct (map tunnel_salt (filter is_tp (pkt_attributes p)) @ salts_in_use p)"
proof -
  let ?as = "filter (\<lambda>a. a \<noteq> own_proxy_state entry) (pkt_attributes response)"
  let ?p1 = "response\<lparr>pkt_attributes := ?as\<rparr>"
  have ok: "\<forall>a \<in> set (pkt_attributes response). attribute_ok a" using assms(1) by (simp add: packet_ok_def)
  define p2 where "p2 = rekey_mppe_attributes md5 rnd hs ?p1 entry"
  have "\<forall>a \<in> set (pkt_attributes ?p1). attribute_ok a" using ok by simp
  note m = rekey_mppe_keeps [OF this ra p2_def, folded cs]
  have subs1: "vendor_subs ?as = vendor_subs (pkt_attributes response)"
    by (rule vendor_subs_filter) (auto simp: sub_attributes_def from_attribute_def intro: filter_cong)
  have keep: "filter P (pkt_attributes p2) = filter (\<lambda>a. P a \<and> a \<noteq> own_proxy_state entry) (pkt_attributes response)"
    if "\<And>a. P a \<Longrightarrow> sub_attributes a = []" for P
    using filter_mono_eq [OF m(2) that] by (simp add: conj_commute)
  have other: "filter (\<lambda>a. attr_type a = t) (pkt_attributes p2) = filter (\<lambda>a. attr_type a = t) (pkt_attributes response)"
    if "t \<in> {AttributeType_as_u8 TunnelPassword, MA_TYPE, AttributeType_as_u8 EapMessage}" for t
  proof -
    have "(\<lambda>a. attr_type a = t \<and> a \<noteq> own_proxy_state entry) = (\<lambda>a. attr_type a = t)" using that by auto
    with keep [of "\<lambda>a. attr_type a = t"] that show ?thesis by (auto simp: sub_attributes_not_vsa)
  qed
  have "length (filter is_tp (pkt_attributes p2)) \<le> 32766"
    using many_attributes [OF assms(1), of is_tp] other by simp
  from rekey_tunnel_passwords_keeps [OF m(5) this m(6) ra, of md5 rnd' hs, folded cs]
  obtain bs where t: "rekey_tunnel_passwords md5 rnd' hs p2 entry = Inr (p2\<lparr>pkt_attributes := bs\<rparr>)"
    "filter (\<lambda>a. \<not> is_tp a) bs = filter (\<lambda>a. \<not> is_tp a) (pkt_attributes p2)"
    "map (\<lambda>b. TunnelPassword_from_attribute md5 b cs ra) (filter is_tp bs)
       = filter (\<lambda>r. \<not> isl r) (map (\<lambda>a. TunnelPassword_from_attribute md5 a hs ra) (filter is_tp (pkt_attributes p2)))"
    "distinct (map tunnel_salt (filter is_tp bs) @ salts_in_use p2)" "\<forall>b \<in> set bs. attribute_ok b" by blast
  note tk = filter_mono_eq [OF t(2)]
  have subs2: "vendor_subs bs = vendor_subs (pkt_attributes p2)"
    by (rule vendor_subs_filter, rule tk) (auto simp: sub_attributes_def from_attribute_def)
  let ?q = "p2\<lparr>pkt_attributes := bs\<rparr>"
  have "?q = response\<lparr>pkt_attributes := pkt_attributes ?q\<rparr>" by (subst m(1)) simp
  moreover have "filter is_ma bs = filter is_ma (pkt_attributes response)" "filter is_eap bs = filter is_eap (pkt_attributes response)"
    using other tk [of is_ma] tk [of is_eap] by simp_all
  moreover have "filter opaque bs = filter (\<lambda>a. opaque a \<and> a \<noteq> own_proxy_state entry) (pkt_attributes response)"
    using tk [of opaque] keep [of opaque] by simp
  moreover have "filter (\<lambda>v. \<not> is_mppe_key v) (vendor_subs bs) = filter (\<lambda>v. \<not> is_mppe_key v) (vendor_subs (pkt_attributes response))"
    using m(3) by (simp add: subs1 subs2)
  moreover have "from_packet md5 ?q = from_packet md5 p2" "from_packet md5 ?p1 = from_packet md5 response" "salts_in_use ?q = salts_in_use p2"
    using from_packet_subs [of ?q p2 md5] from_packet_subs [of ?p1 response md5] salts_in_use_subs [of ?q p2] subs1 subs2 by simp_all
  ultimately show ?thesis
    using t m(4) other unfolding p2_def [symmetric] by (intro exI [of _ ?q]) simp
qed

lemma response_rekeyed:
  assumes "packet_ok response" "length (filter is_ma (pkt_attributes response)) \<le> 1"
    and ra: "ra = pkt_authenticator (original_request entry)" and cs: "cs = client_secret entry"
  shows "case rewrite_response_for_nas md5 hmac_md5 rnd rnd' hs response entry of
     Inl _ \<Rightarrow> False
   | Inr (Inl e) \<Rightarrow> verify_response_authenticator md5 response ra hs = Inr False \<and> e = InvalidResponseAuthenticator
       \<or> (\<exists>n > 4096. e = ProxyPacket (PacketTooLarge n))
   | Inr (Inr q) \<Rightarrow> verify_response_authenticator md5 response ra hs = Inr True \<and> verify_response_authenticator md5 q ra cs = Inr True
       \<and> pkt_code q = pkt_code response \<and> pkt_identifier q = pkt_identifier response
       \<and> filter opaque (pkt_attributes q) =
           filter (\<lambda>a. opaque a \<and> a \<noteq> own_proxy_state entry) (pkt_attributes response)
       \<and> filter (\<lambda>v. \<not> is_mppe_key v) (vendor_subs (pkt_attributes q)) = filter (\<lambda>v. \<not> is_mppe_key v) (vendor_subs (pkt_attributes response))
       \<and> from_packet md5 q cs ra = (case from_packet md5 response hs ra of Inr keys \<Rightarrow> Inr keys | Inl _ \<Rightarrow> Inr None)
       \<and> map (\<lambda>a. TunnelPassword_from_attribute md5 a cs ra) (filter is_tp (pkt_attributes q)) =
           filter (\<lambda>r. \<not> isl r) (map (\<lambda>a. TunnelPassword_from_attribute md5 a hs ra) (filter is_tp (pkt_attributes response)))
       \<and> distinct (map tunnel_salt (filter is_tp (pkt_attributes q)) @ salts_in_use q)
       \<and> check_message_authenticator hmac_md5 q ra cs =
           Inr (if list_ex is_ma (pkt_attributes response) \<or> list_ex is_eap (pkt_attributes response) then Valid else Absent)"
proof -
  have ok: "\<forall>a \<in> set (pkt_attributes response). attribute_ok a" using assms(1) by (simp add: packet_ok_def)
  obtain v where v: "verify_response_authenticator md5 response ra hs = Inr v" using calculate_response_total [OF ok] by blast
  have own: "(attr_type a = AttributeType_as_u8 ProxyState \<and> attr_value a = bytes16 (proxy_state entry)) = (a = own_proxy_state entry)" for a
    by (cases a) simp
  obtain p where p: "rekey_tunnel_passwords md5 rnd' hs (rekey_mppe_attributes md5 rnd hs
       (response\<lparr>pkt_attributes := filter (\<lambda>a. a \<noteq> own_proxy_state entry) (pkt_attributes response)\<rparr>) entry) entry = Inr p"
    and pr: "p = response\<lparr>pkt_attributes := pkt_attributes p\<rparr>" and okp: "\<forall>a \<in> set (pkt_attributes p). attribute_ok a"
    and ma: "filter is_ma (pkt_attributes p) = filter is_ma (pkt_attributes response)"
      "filter is_eap (pkt_attributes p) = filter is_eap (pkt_attributes response)"
    and rest: "filter opaque (pkt_attributes p) = filter (\<lambda>a. opaque a \<and> a \<noteq> own_proxy_state entry) (pkt_attributes response)"
      "filter (\<lambda>v. \<not> is_mppe_key v) (vendor_subs (pkt_attributes p)) = filter (\<lambda>v. \<not> is_mppe_key v) (vendor_subs (pkt_attributes response))"
      "from_packet md5 p cs ra = (case from_packet md5 response hs ra of Inr keys \<Rightarrow> Inr keys | Inl _ \<Rightarrow> Inr None)"
      "map (\<lambda>a. TunnelPassword_from_attribute md5 a cs ra) (filter is_tp (pkt_attributes p)) =
         filter (\<lambda>r. \<not> isl r) (map (\<lambda>a. TunnelPassword_from_attribute md5 a hs ra) (filter is_tp (pkt_attributes response)))"
      "distinct (map tunnel_salt (filter is_tp (pkt_attributes p)) @ salts_in_use p)"
    using response_attributes_rekeyed [OF assms(1) ra cs, of md5 rnd' hs rnd] by blast
  have eq: "rewrite_response_for_nas md5 hmac_md5 rnd rnd' hs response entry =
      (if v then case recompute_message_authenticator hmac_md5 p ra cs of Inl e \<Rightarrow> Inr (Inl e)
         | Inr q \<Rightarrow> res_bind (calculate_response_authenticator md5 q ra cs) (\<lambda>auth. Inr (Inr (q\<lparr>pkt_authenticator := auth\<rparr>)))
       else Inr (Inl InvalidResponseAuthenticator))"
    using p v unfolding ra cs by (simp add: rewrite_response_for_nas_def Let_def own)
  have ex: "list_ex is_ma (pkt_attributes p) = list_ex is_ma (pkt_attributes response)"
    "list_ex is_eap (pkt_attributes p) = list_ex is_eap (pkt_attributes response)"
    using ma by (metis filter_empty_conv list_ex_iff)+
  consider "\<not> v" | e where "v" "recompute_message_authenticator hmac_md5 p ra cs = Inl e"
    | q where "v" "recompute_message_authenticator hmac_md5 p ra cs = Inr q" by (metis sum.exhaust)
  then show ?thesis
  proof cases
    case 1
    with v show ?thesis by (simp add: eq)
  next
    case (2 e)
    with recompute_Inl [OF 2(2) okp] show ?thesis by (simp add: eq)
  next
    case (3 q)
    note k = recompute_keeps [OF 3(2)] and tk = filter_mono_eq [OF recompute_keeps(2) [OF 3(2)]]
    obtain auth where auth: "calculate_response_authenticator md5 q ra cs = Inr auth"
        "verify_response_authenticator md5 (q\<lparr>pkt_authenticator := auth\<rparr>) ra cs = Inr True"
      using calculate_response_total [OF k(3) [OF okp]] by blast
    have subs: "vendor_subs (pkt_attributes q) = vendor_subs (pkt_attributes p)"
      by (rule vendor_subs_filter, rule tk) (auto simp: sub_attributes_def from_attribute_def)
    have code: "pkt_code q = pkt_code response \<and> pkt_identifier q = pkt_identifier response"
      using k(1) pr by (metis Packet.select_convs(1,2) Packet.surjective Packet.update_convs(4))
    have subs': "from_packet md5 (q\<lparr>pkt_authenticator := auth\<rparr>) = from_packet md5 p" "salts_in_use (q\<lparr>pkt_authenticator := auth\<rparr>) = salts_in_use p"
      using from_packet_subs [of "q\<lparr>pkt_authenticator := auth\<rparr>" p] salts_in_use_subs [of "q\<lparr>pkt_authenticator := auth\<rparr>" p] subs by simp_all
    have "check_message_authenticator hmac_md5 (q\<lparr>pkt_authenticator := auth\<rparr>) ra cs =
        Inr (if list_ex is_ma (pkt_attributes response) \<or> list_ex is_eap (pkt_attributes response) then Valid else Absent)"
      using recompute_check [OF 3(2), of auth] assms(2) by (simp add: ma ex)
    with 3(1) auth code rest v tk [of opaque] tk [of is_tp] subs subs' show ?thesis by (simp add: eq 3(2))
  qed
qed

section \<open>Properties\<close>

text \<open>
  C15. The response the NAS gets. For every response that fits in a packet and has at most one
  Message-Authenticator the proxy does not panic, and it relays nothing that does not verify under
  the home server's secret; a verified response is only lost if rewriting makes it exceed 4096
  octets. What it relays verifies under the client's secret and the NAS's Request Authenticator,
  has the same code, Identifier and opaque attributes in order without the proxy's Proxy-State,
  and the same vendor sub-attributes apart from the MS-MPPE keys. Under the client's secret the
  NAS reads the MS-MPPE keys and Tunnel-Passwords that the home server sent, unreadable ones
  dropped, all salts are different, and the Message-Authenticator check passes.
\<close>

theorem response_rekeyed_for_nas:
  assumes "packet_ok response" "length (filter is_ma (pkt_attributes response)) \<le> 1"
    and ra: "ra = pkt_authenticator (original_request entry)" and cs: "cs = client_secret entry"
  shows "case rewrite_response_for_nas md5 hmac_md5 rnd rnd' hs response entry of
     Inl _ \<Rightarrow> False
   | Inr (Inl e) \<Rightarrow> verify_response_authenticator md5 response ra hs = Inr False \<and> e = InvalidResponseAuthenticator
       \<or> (\<exists>n > 4096. e = ProxyPacket (PacketTooLarge n))
   | Inr (Inr q) \<Rightarrow> verify_response_authenticator md5 response ra hs = Inr True \<and> verify_response_authenticator md5 q ra cs = Inr True
       \<and> pkt_code q = pkt_code response \<and> pkt_identifier q = pkt_identifier response
       \<and> filter opaque (pkt_attributes q) =
           filter (\<lambda>a. opaque a \<and> a \<noteq> own_proxy_state entry) (pkt_attributes response)
       \<and> filter (\<lambda>v. \<not> is_mppe_key v) (vendor_subs (pkt_attributes q)) = filter (\<lambda>v. \<not> is_mppe_key v) (vendor_subs (pkt_attributes response))
       \<and> from_packet md5 q cs ra = (case from_packet md5 response hs ra of Inr keys \<Rightarrow> Inr keys | Inl _ \<Rightarrow> Inr None)
       \<and> map (\<lambda>a. TunnelPassword_from_attribute md5 a cs ra) (filter is_tp (pkt_attributes q)) =
           filter (\<lambda>r. \<not> isl r) (map (\<lambda>a. TunnelPassword_from_attribute md5 a hs ra) (filter is_tp (pkt_attributes response)))
       \<and> distinct (map tunnel_salt (filter is_tp (pkt_attributes q)) @ salts_in_use q)
       \<and> check_message_authenticator hmac_md5 q ra cs =
           Inr (if list_ex is_ma (pkt_attributes response) \<or> list_ex is_eap (pkt_attributes response) then Valid else Absent)"
  by (rule response_rekeyed [OF assms])

theorem response_rekeyed_for_nas_witness:
  "\<exists>entry q. client_secret entry = [1] \<and> rewrite_response_for_nas (\<lambda>_. arr16_of []) (\<lambda>_ _. arr16_of []) 5 6 [2]
      (Packet_new AccessAccept 1 (arr16_of []) \<lparr>pkt_attributes := [\<lparr>attr_type = AttributeType_as_u8 EapMessage, attr_value = [1]\<rparr>,
         own_proxy_state entry]\<rparr>) entry = Inr (Inr q)
    \<and> filter opaque (pkt_attributes q) = [\<lparr>attr_type = AttributeType_as_u8 EapMessage, attr_value = [1]\<rparr>]
    \<and> check_message_authenticator (\<lambda>_ _. arr16_of []) q (pkt_authenticator (original_request entry)) [1] = Inr Valid"
proof -
  fix e0 :: ProxyCacheEntry
  let ?e = "e0\<lparr>client_secret := [1]\<rparr>"
  let ?r = "Packet_new AccessAccept 1 (arr16_of []) \<lparr>pkt_attributes := [\<lparr>attr_type = AttributeType_as_u8 EapMessage, attr_value = [1]\<rparr>,
     own_proxy_state ?e]\<rparr>"
  let ?eap = "\<lparr>attr_type = AttributeType_as_u8 EapMessage, attr_value = [1]\<rparr>"
  let ?p = "?r\<lparr>pkt_attributes := [?eap]\<rparr>"
  have none: "sub_attributes ?eap = []" "sub_attributes (own_proxy_state ?e) = []" by (simp_all add: sub_attributes_def from_attribute_def)
  have ok: "packet_ok ?r" by (simp add: packet_ok_def Packet_new_def attribute_ok_def attr_consts Packet_length_eq encoded_length_def pkt_consts)
  have "from_packet md5 ?p [2] ra = Inr None" for md5 ra
    by (rule no_mppe_keys(3)) (simp add: none Packet_new_def)
  then have "rekey_mppe_attributes (\<lambda>_. arr16_of []) 5 [2] ?p ?e = ?p" by (simp add: rekey_mppe_attributes_def Let_def)
  moreover have "rekey_tunnel_passwords (\<lambda>_. arr16_of []) 6 [2] ?p ?e = Inr ?p" by (simp add: rekey_tunnel_passwords_def Packet_new_def)
  moreover have "filter (\<lambda>a. \<not> (attr_type a = AttributeType_as_u8 ProxyState \<and> attr_value a = bytes16 (proxy_state ?e))) (pkt_attributes ?r) = [?eap]"
    by (simp add: Packet_new_def)
  moreover have "verify_response_authenticator (\<lambda>_. arr16_of []) ?r ra [2] = Inr True" for ra
    using ok by (simp add: verify_response_authenticator_def calculate_response_authenticator_def append_attributes_ok packet_ok_def
        constant_time_eq_iff Packet_new_def Let_def)
  moreover obtain m where m: "recompute_message_authenticator (\<lambda>_ _. arr16_of []) ?p (pkt_authenticator (original_request ?e)) [1] = Inr m"
    by (simp add: recompute_eq with_ma_def zero_ma_def Packet_new_def Packet_encode_if attribute_ok_def attr_consts Packet_length_eq
        encoded_length_def pkt_consts Let_def)
  moreover have "\<forall>a \<in> set (pkt_attributes m). attribute_ok a"
    using recompute_keeps(3) [OF m] by (simp add: attribute_ok_def attr_consts)
  from calculate_response_total [OF this] obtain auth where
    "calculate_response_authenticator (\<lambda>_. arr16_of []) m (pkt_authenticator (original_request ?e)) [1] = Inr auth" by blast
  ultimately obtain q where q: "rewrite_response_for_nas (\<lambda>_. arr16_of []) (\<lambda>_ _. arr16_of []) 5 6 [2] ?r ?e = Inr (Inr q)"
    by (simp add: rewrite_response_for_nas_def Let_def)
  with response_rekeyed_for_nas [OF ok _ refl refl, of "\<lambda>_. arr16_of []" ?e "[2]" "\<lambda>_ _. arr16_of []" 5 6] none
  have "filter opaque (pkt_attributes q) = [?eap] \<and>
      check_message_authenticator (\<lambda>_ _. arr16_of []) q (pkt_authenticator (original_request ?e)) [1] = Inr Valid"
    by (simp add: Packet_new_def)
  with q show ?thesis by (intro exI [of _ ?e] exI [of _ q]) simp
qed

end
