(* ===== verification/Proxy_Forwarding.thy ===== *)
theory Proxy_Forwarding
  imports Proxy_Replies
begin

text \<open>
  Forwarding and retrying (\<open>proxy/handler.rs\<close>, \<open>proxy/retry.rs\<close>): the whole of \<open>forward_request\<close>,
  \<open>send_to_home_server\<close>, \<open>handle_response_from\<close>, \<open>handle_timeout\<close> and \<open>send_reject\<close> on one state, and
  the interleavings of these tasks as an inductive relation. The build has the \<open>tls\<close> feature.
  Each call is one step. The outcome of \<open>send_to\<close> is the parameter \<open>net\<close>; the clocks and random
  numbers are arguments.
\<close>

section \<open>State\<close>

text \<open>What leaves through the two UDP sockets; frames for a link are in the link's queue.\<close>

datatype Datagram = ToHomeServer SocketAddr bytes | ToNas SocketAddr bytes

text \<open>\<open>pw_counter\<close> is the static counter of \<open>generate_proxy_state_key\<close>.\<close>

record ProxyWorld =
  pw_servers :: servers
  pw_cache :: ProxyCache
  pw_counter :: u64
  pw_sent :: "Datagram list"

type_synonym net = "Datagram \<Rightarrow> string option"

definition send_to :: "net \<Rightarrow> Datagram \<Rightarrow> ProxyWorld \<Rightarrow> (ProxyError + unit) \<times> ProxyWorld" where
  "send_to net d w = (case net d of Some e \<Rightarrow> (Inl (ProxyIo e), w) | None \<Rightarrow> (Inr (), w\<lparr>pw_sent := pw_sent w @ [d]\<rparr>))"

definition update_server :: "server_ref \<Rightarrow> (HomeServer \<Rightarrow> HomeServer) \<Rightarrow> ProxyWorld \<Rightarrow> ProxyWorld" where
  "update_server r f w = w\<lparr>pw_servers := (pw_servers w)(r := f (pw_servers w r))\<rparr>"

abbreviation update_stats :: "server_ref \<Rightarrow> (HomeServerStats \<Rightarrow> HomeServerStats) \<Rightarrow> ProxyWorld \<Rightarrow> ProxyWorld" where
  "update_stats r f \<equiv> update_server r (\<lambda>s. s\<lparr>hs_stats := f (hs_stats s)\<rparr>)"

section \<open>The handler\<close>

definition MAX_PROXY_STATE_ATTRIBUTES :: nat where
  "MAX_PROXY_STATE_ATTRIBUTES = 5"

definition send_to_home_server :: "net \<Rightarrow> instant \<Rightarrow> bytes \<Rightarrow> server_ref \<Rightarrow> ProxyWorld \<Rightarrow> (ProxyError + unit) \<times> ProxyWorld" where
  "send_to_home_server net now bs r w =
     (case hs_transport (pw_servers w r) of
        Udp \<Rightarrow> send_to net (ToHomeServer (hs_address (pw_servers w r)) bs) w
      | Radsec \<Rightarrow>
        (case hs_link (pw_servers w r) of
           None \<Rightarrow> (Inl (LinkDown (hs_name (pw_servers w r))), w)
         | Some link \<Rightarrow>
           (case link_send now link bs of
              (res, link) \<Rightarrow> (map_err (\<lambda>e. into_proxy_error e (hs_name (pw_servers w r))) res,
                              update_server r (\<lambda>s. s\<lparr>hs_link := Some link\<rparr>) w))))"

definition forward_request ::
    "(bytes \<Rightarrow> arr16) \<Rightarrow> (bytes \<Rightarrow> bytes \<Rightarrow> arr16) \<Rightarrow> net \<Rightarrow> u64 \<Rightarrow> instant \<Rightarrow> Packet \<Rightarrow> SocketAddr \<Rightarrow> server_ref \<Rightarrow> bytes
      \<Rightarrow> ProxyWorld \<Rightarrow> (ProxyError + ProxyStateKey) \<times> ProxyWorld" where
  "forward_request md5 hmac_md5 net clock now request source r cs w =
     (let proxy_state_count = length (filter (\<lambda>a. attr_type a = AttributeType_as_u8 ProxyState) (pkt_attributes request))
      in if proxy_state_count \<ge> MAX_PROXY_STATE_ATTRIBUTES
         then (Inl (ProxyLoop proxy_state_count MAX_PROXY_STATE_ATTRIBUTES), w)
         else
           let key = generate_proxy_state_key clock (pw_counter w);
               w = w\<lparr>pw_counter := pw_counter w + 1\<rparr>
           in case rewrite_request_for_home_server md5 hmac_md5 request key cs (hs_secret (pw_servers w r)) of
                Inl e \<Rightarrow> (Inl e, w)
              | Inr request \<Rightarrow>
                let entry = \<lparr>original_request = request, original_source = source, home_server = r, sent_at = now,
                             retry_count = 0, proxy_state = key, client_secret = cs,
                             sent_on_connection = link_generation (pw_servers w r)\<rparr>
                in case ProxyCache_insert (pw_cache w) entry of
                     (Inl e, c) \<Rightarrow> (Inl e, w\<lparr>pw_cache := c\<rparr>)
                   | (Inr _, c) \<Rightarrow>
                     let w = w\<lparr>pw_cache := c\<rparr>;
                         w = update_stats r record_request w
                     in case Packet_encode request of
                          Inl e \<Rightarrow> (Inl (ProxyPacket e), w)
                        | Inr request_data \<Rightarrow>
                          (case send_to_home_server net now request_data r w of
                             (Inl e, w) \<Rightarrow> (Inl e, w)
                           | (Inr _, w) \<Rightarrow> (Inr key, w)))"

text \<open>Where a response came from: the socket, or a link by its server and connection number.\<close>

datatype ResponseOrigin = OriginUdp SocketAddr | OriginLink server_ref u64

definition from_expected :: "servers \<Rightarrow> ProxyCacheEntry \<Rightarrow> ResponseOrigin \<Rightarrow> bool" where
  "from_expected srv entry origin \<longleftrightarrow>
     (case origin of
        OriginUdp addr \<Rightarrow> hs_transport (srv (home_server entry)) = Udp \<and> addr = hs_address (srv (home_server entry))
      | OriginLink r _ \<Rightarrow> r = home_server entry)"

definition last_proxy_state :: "Packet \<Rightarrow> Attribute option" where
  "last_proxy_state response = find (\<lambda>a. attr_type a = AttributeType_as_u8 ProxyState) (rev (pkt_attributes response))"

definition reset_reason :: string where
  "reset_reason = ''response failed the Response Authenticator check (RFC 6613 '' @ [CHR 0xC2, CHR 0xA7] @ ''2.6.4)''"

definition reset_origin_link :: "ResponseOrigin \<Rightarrow> ProxyWorld \<Rightarrow> ProxyWorld" where
  "reset_origin_link origin w =
     (case origin of
        OriginUdp _ \<Rightarrow> w
      | OriginLink r generation \<Rightarrow>
        (case hs_link (pw_servers w r) of
           None \<Rightarrow> w
         | Some link \<Rightarrow> update_server r (\<lambda>s. s\<lparr>hs_link := Some (link_reset link generation reset_reason)\<rparr>) w))"

definition handle_response_from ::
    "(bytes \<Rightarrow> arr16) \<Rightarrow> (bytes \<Rightarrow> bytes \<Rightarrow> arr16) \<Rightarrow> net \<Rightarrow> u16 \<Rightarrow> u16 \<Rightarrow> instant \<Rightarrow> Packet \<Rightarrow> ResponseOrigin \<Rightarrow> ProxyWorld
      \<Rightarrow> panic + (ProxyError + unit) \<times> ProxyWorld" where
  "handle_response_from md5 hmac_md5 net rnd rnd' now response origin w =
     (case last_proxy_state response of
        None \<Rightarrow> Inr (Inl CorrelationFailed, w)
      | Some attr \<Rightarrow>
        if length (attr_value attr) \<noteq> 16 then Inr (Inl CorrelationFailed, w)
        else let key = arr16_of (attr_value attr)
          in case ProxyCache_get (pw_cache w) key of
               None \<Rightarrow> Inr (Inl CorrelationFailed, w)
             | Some entry \<Rightarrow>
               if \<not> from_expected (pw_servers w) entry origin then Inr (Inl CorrelationFailed, w)
               else res_bind (verify_response_authenticator md5 response (pkt_authenticator (original_request entry))
                     (hs_secret (pw_servers w (home_server entry)))) (\<lambda>valid.
                 if \<not> valid then Inr (Inl InvalidResponseAuthenticator, reset_origin_link origin w)
                 else case ProxyCache_remove (pw_cache w) key of
                   (None, c) \<Rightarrow> Inr (Inl CorrelationFailed, w\<lparr>pw_cache := c\<rparr>)
                 | (Some entry, c) \<Rightarrow>
                   let w = w\<lparr>pw_cache := c\<rparr>;
                       w = update_stats (home_server entry) (record_response now) w
                   in res_bind (rewrite_response_for_nas md5 hmac_md5 rnd rnd' (hs_secret (pw_servers w (home_server entry))) response entry) (\<lambda>r.
                        case r of
                          Inl e \<Rightarrow> Inr (Inl e, w)
                        | Inr response \<Rightarrow>
                          (case Packet_encode response of
                             Inl e \<Rightarrow> Inr (Inl (ProxyPacket e), w)
                           | Inr response_data \<Rightarrow> Inr (send_to net (ToNas (original_source entry) response_data) w)))))"

section \<open>Timeouts and retries\<close>

record RetryConfig =
  max_retries :: u8
  retry_interval :: u64
  failover_on_timeout :: bool

definition RetryConfig_default :: RetryConfig where
  "RetryConfig_default = \<lparr>max_retries = 3, retry_interval = 5, failover_on_timeout = True\<rparr>"

definition may_resend :: "HomeServer \<Rightarrow> u64 option \<Rightarrow> bool" where
  "may_resend s sent_on =
     (case hs_transport s of
        Udp \<Rightarrow> True
      | Radsec \<Rightarrow> (case hs_link s of None \<Rightarrow> True | Some link \<Rightarrow> \<not> is_connected link \<or> Some (connections link) \<noteq> sent_on))"

definition reject_message :: string where
  "reject_message = ''Request timed out after maximum retries''"

definition send_reject ::
    "(bytes \<Rightarrow> arr16) \<Rightarrow> net \<Rightarrow> ProxyCacheEntry \<Rightarrow> ProxyWorld \<Rightarrow> panic + (ProxyError + unit) \<times> ProxyWorld" where
  "send_reject md5 net entry w =
     (let reject = Packet_new AccessReject (pkt_identifier (original_request entry)) (pkt_authenticator (original_request entry))
      in case map_err (\<lambda>e. Configuration (''Failed to create Reply-Message: '' @ PacketError_fmt e))
             (Attribute_string (AttributeType_as_u8 ReplyMessage) reject_message) of
           Inl e \<Rightarrow> Inr (Inl e, w)
         | Inr a \<Rightarrow>
           let reject = add_attribute reject a
           in res_bind (calculate_response_authenticator md5 reject (pkt_authenticator (original_request entry)) (client_secret entry))
                (\<lambda>response_auth.
                  let reject = reject\<lparr>pkt_authenticator := response_auth\<rparr>
                  in case Packet_encode reject of
                       Inl e \<Rightarrow> Inr (Inl (ProxyPacket e), w)
                     | Inr reject_data \<Rightarrow> Inr (send_to net (ToNas (original_source entry) reject_data) w)))"

text \<open>Both branches of the failover decision choose the entry's server.\<close>

definition handle_timeout ::
    "(bytes \<Rightarrow> arr16) \<Rightarrow> net \<Rightarrow> RetryConfig \<Rightarrow> instant \<Rightarrow> ProxyCacheEntry \<Rightarrow> ProxyWorld \<Rightarrow> panic + (ProxyError + unit) \<times> ProxyWorld" where
  "handle_timeout md5 net config now entry w =
     (if max_retries config \<le> retry_count entry then
        res_bind (send_reject md5 net entry w) (\<lambda>r.
          case r of
            (Inl e, w) \<Rightarrow> Inr (Inl e, w)
          | (Inr _, w) \<Rightarrow>
            let w = w\<lparr>pw_cache := snd (ProxyCache_remove (pw_cache w) (proxy_state entry))\<rparr>;
                w = update_stats (home_server entry) record_timeout w
            in Inr (Inr (), w))
      else
        let entry = entry\<lparr>retry_count := retry_count entry + 1\<rparr>;
            r = (if failover_on_timeout config then home_server entry else home_server entry);
            w = update_stats (home_server entry) record_timeout w;
            resend = may_resend (pw_servers w r) (sent_on_connection entry);
            entry = entry\<lparr>home_server := r\<rparr>;
            entry = entry\<lparr>sent_at := now\<rparr>;
            entry = (if resend then entry\<lparr>sent_on_connection := link_generation (pw_servers w r)\<rparr> else entry)
        in case Packet_encode (original_request entry) of
             Inl e \<Rightarrow> Inr (Inl (ProxyPacket e), w)
           | Inr request_data \<Rightarrow>
             (case ProxyCache_insert (pw_cache w) entry of
                (Inl e, c) \<Rightarrow> Inr (Inl e, w\<lparr>pw_cache := c\<rparr>)
              | (Inr _, c) \<Rightarrow>
                let w = w\<lparr>pw_cache := c\<rparr>;
                    w = update_stats r record_request w
                in if \<not> resend then Inr (Inr (), w)
                   else Inr (Inr (), snd (send_to_home_server net now request_data r w))))"

text \<open>One entry the loop of \<open>start\<close> handles; errors are logged.\<close>

definition retry_one ::
    "(bytes \<Rightarrow> arr16) \<Rightarrow> net \<Rightarrow> RetryConfig \<Rightarrow> instant \<Rightarrow> ProxyCacheEntry \<Rightarrow> ProxyWorld \<Rightarrow> panic + ProxyWorld" where
  "retry_one md5 net config now entry w = res_bind (handle_timeout md5 net config now entry w) (\<lambda>r. Inr (snd r))"

section \<open>Interleavings\<close>

text \<open>
  The tasks that share the table: the server forwarding requests, the receivers handling
  responses, the retry manager scanning the table and then handling the entries it copied one by
  one, the cleanup task removing keys it found expired, and everything that happens to links and
  server states. The second component is what the retry manager still has to handle.
\<close>

datatype ProxyTask = Forwarding | Responding | Scanning | Retrying ProxyCacheEntry | Cleaning | Linking

definition same_account :: "HomeServer \<Rightarrow> HomeServer \<Rightarrow> bool" where
  "same_account s s' \<longleftrightarrow> s' = s\<lparr>hs_link := hs_link s', hs_state := hs_state s'\<rparr>"

inductive proxy_step ::
    "(bytes \<Rightarrow> arr16) \<Rightarrow> (bytes \<Rightarrow> bytes \<Rightarrow> arr16) \<Rightarrow> net \<Rightarrow> RetryConfig \<Rightarrow> ProxyTask
      \<Rightarrow> ProxyWorld \<times> ProxyCacheEntry list \<Rightarrow> ProxyWorld \<times> ProxyCacheEntry list \<Rightarrow> bool"
  for md5 hmac_md5 net config where
  step_forward: "forward_request md5 hmac_md5 net clock now request source r cs w = (res, w') \<Longrightarrow>
     proxy_step md5 hmac_md5 net config Forwarding (w, pending) (w', pending)"
| step_response: "handle_response_from md5 hmac_md5 net rnd rnd' now response origin w = Inr (res, w') \<Longrightarrow>
     proxy_step md5 hmac_md5 net config Responding (w, pending) (w', pending)"
| step_scan: "proxy_step md5 hmac_md5 net config Scanning (w, []) (w, get_timed_out iter now (pw_cache w) timeout)"
| step_retry: "retry_one md5 net config now e w = Inr w' \<Longrightarrow>
     proxy_step md5 hmac_md5 net config (Retrying e) (w, e # pending) (w', pending)"
| step_clean: "remove_expired ks (pw_servers w, pw_cache w) = (srv, c) \<Longrightarrow>
     proxy_step md5 hmac_md5 net config Cleaning (w, pending) (w\<lparr>pw_servers := srv, pw_cache := c\<rparr>, pending)"
| step_link: "(\<And>r. same_account (pw_servers w r) (srv r)) \<Longrightarrow>
     proxy_step md5 hmac_md5 net config Linking (w, pending) (w\<lparr>pw_servers := srv\<rparr>, pending)"

text \<open>Runs in which every step satisfies a condition on the task and the state it finds.\<close>

inductive proxy_run ::
    "(bytes \<Rightarrow> arr16) \<Rightarrow> (bytes \<Rightarrow> bytes \<Rightarrow> arr16) \<Rightarrow> net \<Rightarrow> RetryConfig \<Rightarrow> (ProxyTask \<Rightarrow> ProxyWorld \<Rightarrow> bool)
      \<Rightarrow> ProxyWorld \<times> ProxyCacheEntry list \<Rightarrow> ProxyWorld \<times> ProxyCacheEntry list \<Rightarrow> bool"
  for md5 hmac_md5 net config ok where
  run_none: "proxy_run md5 hmac_md5 net config ok s s"
| run_step: "proxy_run md5 hmac_md5 net config ok s s' \<Longrightarrow> proxy_step md5 hmac_md5 net config task s' s'' \<Longrightarrow> ok task (fst s') \<Longrightarrow>
     proxy_run md5 hmac_md5 net config ok s s''"

section \<open>Counting requests in flight\<close>

definition in_flight_keys :: "ProxyCache \<Rightarrow> server_ref \<Rightarrow> ProxyStateKey set" where
  "in_flight_keys c r = {k. \<exists>e. fmlookup (pc_cache c) k = Some e \<and> home_server e = r}"

definition in_flight :: "ProxyCache \<Rightarrow> server_ref \<Rightarrow> nat" where
  "in_flight c r = card (in_flight_keys c r)"

lemma in_flight_keys_dom: "in_flight_keys c r \<subseteq> fset (fmdom (pc_cache c))"
  by (auto simp: in_flight_keys_def intro: fmdomI)

lemma finite_in_flight_keys [simp]: "finite (in_flight_keys c r)"
  by (rule finite_subset [OF in_flight_keys_dom]) simp

lemma in_flight_le: "in_flight c r \<le> ProxyCache_len c"
  unfolding in_flight_def ProxyCache_len_def fcard.rep_eq by (rule card_mono [OF _ in_flight_keys_dom]) simp

lemma in_flight_insert_new:
  assumes "fmlookup (pc_cache c) (proxy_state e) = None"
  shows "in_flight (c\<lparr>pc_cache := fmupd (proxy_state e) e (pc_cache c)\<rparr>) r = in_flight c r + (if home_server e = r then 1 else 0)"
proof -
  have "in_flight_keys (c\<lparr>pc_cache := fmupd (proxy_state e) e (pc_cache c)\<rparr>) r =
      (if home_server e = r then insert (proxy_state e) (in_flight_keys c r) else in_flight_keys c r)"
    using assms by (auto simp: in_flight_keys_def)
  moreover have "proxy_state e \<notin> in_flight_keys c r" using assms by (simp add: in_flight_keys_def)
  ultimately show ?thesis by (simp add: in_flight_def)
qed

lemma in_flight_insert_old:
  assumes "fmlookup (pc_cache c) (proxy_state e) = Some e'" "home_server e' = home_server e"
  shows "in_flight (c\<lparr>pc_cache := fmupd (proxy_state e) e (pc_cache c)\<rparr>) r = in_flight c r"
proof -
  have "in_flight_keys (c\<lparr>pc_cache := fmupd (proxy_state e) e (pc_cache c)\<rparr>) r = in_flight_keys c r"
    using assms by (auto simp: in_flight_keys_def)
  then show ?thesis by (simp add: in_flight_def)
qed

lemma in_flight_drop:
  assumes "fmlookup (pc_cache c) k = Some e"
  shows "in_flight c r = in_flight (c\<lparr>pc_cache := fmdrop k (pc_cache c)\<rparr>) r + (if home_server e = r then 1 else 0)"
proof -
  have "in_flight_keys (c\<lparr>pc_cache := fmdrop k (pc_cache c)\<rparr>) r = in_flight_keys c r - {k}"
    by (auto simp: in_flight_keys_def)
  moreover have "k \<in> in_flight_keys c r \<longleftrightarrow> home_server e = r" using assms by (auto simp: in_flight_keys_def)
  moreover have "card (in_flight_keys c r - {k}) + 1 = card (in_flight_keys c r)" if "k \<in> in_flight_keys c r"
    using card_Suc_Diff1 [OF finite_in_flight_keys that] by simp
  ultimately show ?thesis by (auto simp: in_flight_def)
qed

section \<open>The gauge\<close>

definition gauge :: "servers \<Rightarrow> server_ref \<Rightarrow> nat" where
  "gauge srv r = unat (outstanding (hs_stats (srv r)))"

lemma outstanding_record [simp]:
  "unat (outstanding s) + 1 < 2 ^ 64 \<Longrightarrow> unat (outstanding (record_request s)) = unat (outstanding s) + 1"
  "unat (outstanding (record_timeout s)) = unat (outstanding s) - 1"
  "unat (outstanding (record_response now s)) = unat (outstanding s) - 1"
proof -
  have dec: "unat (w - 1) = unat w - 1" if "w \<noteq> 0" for w :: u64
    using that by (simp add: unat_minus_one)
  show "unat (outstanding (record_timeout s)) = unat (outstanding s) - 1"
    "unat (outstanding (record_response now s)) = unat (outstanding s) - 1"
    using dec [of "outstanding s"] by (auto simp: record_timeout_def record_response_def release_outstanding_def Let_def)
  show "unat (outstanding (record_request s)) = unat (outstanding s) + 1" if "unat (outstanding s) + 1 < 2 ^ 64"
    using that by (simp add: record_request_def Let_def unat_word_ariths)
qed

lemma gauge_update [simp]:
  "gauge (pw_servers (update_server r f w)) r' = (if r' = r then unat (outstanding (hs_stats (f (pw_servers w r)))) else gauge (pw_servers w) r')"
  by (simp add: gauge_def update_server_def)

lemma update_server_simps [simp]:
  "pw_cache (update_server r f w) = pw_cache w" "pw_counter (update_server r f w) = pw_counter w"
  "pw_sent (update_server r f w) = pw_sent w"
  by (simp_all add: update_server_def)

lemma send_to_simps [simp]:
  "pw_cache (snd (send_to net d w)) = pw_cache w" "pw_counter (snd (send_to net d w)) = pw_counter w"
  "pw_servers (snd (send_to net d w)) = pw_servers w"
  by (simp_all add: send_to_def split: option.splits)

lemma send_to_home_server_keeps [simp]:
  "pw_cache (snd (send_to_home_server net now bs r w)) = pw_cache w"
  "pw_counter (snd (send_to_home_server net now bs r w)) = pw_counter w"
  "gauge (pw_servers (snd (send_to_home_server net now bs r w))) r' = gauge (pw_servers w) r'"
  by (simp_all add: send_to_home_server_def gauge_def split: HomeServerTransport.splits option.splits prod.splits)
    (simp add: update_server_def)

lemma reset_origin_link_keeps [simp]:
  "pw_cache (reset_origin_link origin w) = pw_cache w" "pw_counter (reset_origin_link origin w) = pw_counter w"
  "pw_sent (reset_origin_link origin w) = pw_sent w"
  "gauge (pw_servers (reset_origin_link origin w)) r = gauge (pw_servers w) r"
  by (simp_all add: reset_origin_link_def gauge_def split: ResponseOrigin.splits option.splits)
    (simp add: update_server_def)

text \<open>
  The table's keys come from the counter, every entry is under its own key, and each server's
  gauge is the number of its entries.
\<close>

definition proxy_inv :: "ProxyWorld \<Rightarrow> bool" where
  "proxy_inv w \<longleftrightarrow> (\<forall>r. gauge (pw_servers w) r = in_flight (pw_cache w) r)
     \<and> (\<forall>k e. fmlookup (pc_cache (pw_cache w)) k = Some e \<longrightarrow>
          proxy_state e = k \<and> (\<exists>t n. k = generate_proxy_state_key t n \<and> n < pw_counter w))
     \<and> ProxyCache_len (pw_cache w) \<le> pc_max_entries (pw_cache w) \<and> pc_max_entries (pw_cache w) < 2 ^ 64"

lemma proxy_invI:
  assumes "\<And>r. gauge (pw_servers w) r = in_flight (pw_cache w) r"
    and "\<And>k e. fmlookup (pc_cache (pw_cache w)) k = Some e \<Longrightarrow>
      proxy_state e = k \<and> (\<exists>t n. k = generate_proxy_state_key t n \<and> n < pw_counter w)"
    and "ProxyCache_len (pw_cache w) \<le> pc_max_entries (pw_cache w)" "pc_max_entries (pw_cache w) < 2 ^ 64"
  shows "proxy_inv w"
  using assms unfolding proxy_inv_def by blast

lemma proxy_inv_key:
  "proxy_inv w \<Longrightarrow> fmlookup (pc_cache (pw_cache w)) k = Some e \<Longrightarrow>
     proxy_state e = k \<and> (\<exists>t n. k = generate_proxy_state_key t n \<and> n < pw_counter w)"
  unfolding proxy_inv_def by blast

lemma proxy_inv_gauge: "proxy_inv w \<Longrightarrow> gauge (pw_servers w) r = in_flight (pw_cache w) r"
  unfolding proxy_inv_def by blast

lemma proxy_inv_len:
  "proxy_inv w \<Longrightarrow> ProxyCache_len (pw_cache w) \<le> pc_max_entries (pw_cache w) \<and> pc_max_entries (pw_cache w) < 2 ^ 64"
  unfolding proxy_inv_def by blast

lemma proxy_inv_cong:
  assumes "proxy_inv w" "pw_cache w' = pw_cache w" "pw_counter w' = pw_counter w" "\<And>r. gauge (pw_servers w') r = gauge (pw_servers w) r"
  shows "proxy_inv w'"
  using assms by (simp add: proxy_inv_def)

lemma less_counter_Suc: "(c :: u64) < c + 1" if "c \<noteq> - 1"
proof -
  have "1 + c \<noteq> 0" using that minus_unique [of 1 c] by blast
  from unatSuc [OF this] show ?thesis unfolding word_less_nat_alt add.commute [of c 1] by linarith
qed

lemma proxy_inv_counter:
  assumes "proxy_inv w" "pw_counter w \<noteq> - 1"
  shows "proxy_inv (w\<lparr>pw_counter := pw_counter w + 1\<rparr>)"
proof -
  have "n < pw_counter w + 1" if "n < pw_counter w" for n
    using that less_counter_Suc [OF assms(2)] by (rule less_trans)
  with assms(1) show ?thesis unfolding proxy_inv_def by simp blast
qed

lemma ProxyCache_insert_new:
  assumes "ProxyCache_insert c e = (Inr (), c')" "fmlookup (pc_cache c) (proxy_state e) = None"
  shows "c' = c\<lparr>pc_cache := fmupd (proxy_state e) e (pc_cache c)\<rparr>" "ProxyCache_len c' = ProxyCache_len c + 1"
    "ProxyCache_len c < pc_max_entries c"
  using assms by (auto simp: ProxyCache_insert_def ProxyCache_len_def fcard_finsert_if fmdom_notI fmdomI fmlookup_dom_iff split: if_splits)

section \<open>Every step keeps the invariant\<close>

lemma proxy_inv_insert:
  assumes "proxy_inv w" "ProxyCache_insert (pw_cache w) e = (Inr (), c)" "fmlookup (pc_cache (pw_cache w)) (proxy_state e) = None"
    and "proxy_state e = generate_proxy_state_key t n" "n < pw_counter w"
  shows "proxy_inv (update_stats (home_server e) record_request (w\<lparr>pw_cache := c\<rparr>))"
proof -
  note i = ProxyCache_insert_new [OF assms(2,3)]
  have fl: "in_flight c r = in_flight (pw_cache w) r + (if home_server e = r then 1 else 0)" for r
    unfolding i(1) by (rule in_flight_insert_new [OF assms(3)])
  have "gauge (pw_servers w) r + 1 < 2 ^ 64" for r
    using in_flight_le [of "pw_cache w" r] i(3) assms(1) by (simp add: proxy_inv_def)
  then have g: "gauge (pw_servers (update_stats (home_server e) record_request (w\<lparr>pw_cache := c\<rparr>))) r = in_flight c r" for r
    using assms(1) by (simp add: fl proxy_inv_def gauge_def update_server_def)
  show ?thesis
    using assms(1,4,5) i g unfolding proxy_inv_def by auto
qed

lemma ProxyCache_len_drop: "ProxyCache_len (c\<lparr>pc_cache := fmdrop k (pc_cache c)\<rparr>) \<le> ProxyCache_len c"
  unfolding ProxyCache_len_def fcard.rep_eq by (simp add: card_Diff1_le)

lemma ProxyCache_len_drop_less:
  assumes "fmlookup (pc_cache c) k = Some e" "ProxyCache_len c \<le> n"
  shows "ProxyCache_len (c\<lparr>pc_cache := fmdrop k (pc_cache c)\<rparr>) < n"
proof -
  have "k \<in> fset (fmdom (pc_cache c))" using assms(1) by (rule fmdomI)
  then have "card (fset (fmdom (pc_cache c)) - {k}) < card (fset (fmdom (pc_cache c)))" by (intro card_Diff1_less) simp_all
  with assms(2) show ?thesis by (simp add: ProxyCache_len_def fcard.rep_eq minus_fset.rep_eq del: card_Diff_insert)
qed

lemma proxy_inv_remove:
  assumes "proxy_inv w" "fmlookup (pc_cache (pw_cache w)) k = Some e" "\<And>s. unat (outstanding (f s)) = unat (outstanding s) - 1"
  shows "proxy_inv (update_stats (home_server e) f (w\<lparr>pw_cache := (pw_cache w)\<lparr>pc_cache := fmdrop k (pc_cache (pw_cache w))\<rparr>\<rparr>))"
proof -
  let ?c = "(pw_cache w)\<lparr>pc_cache := fmdrop k (pc_cache (pw_cache w))\<rparr>"
  have "gauge (pw_servers (update_stats (home_server e) f (w\<lparr>pw_cache := ?c\<rparr>))) r = in_flight ?c r" for r
    using assms(1) in_flight_drop [OF assms(2), of r] by (auto simp: proxy_inv_def gauge_def update_server_def assms(3))
  moreover have "ProxyCache_len ?c \<le> ProxyCache_len (pw_cache w)" by (rule ProxyCache_len_drop)
  ultimately show ?thesis using assms(1) unfolding proxy_inv_def by auto
qed

text \<open>The outcomes of \<open>forward_request\<close>.\<close>

definition forwarded_entry :: "u64 \<Rightarrow> instant \<Rightarrow> Packet \<Rightarrow> SocketAddr \<Rightarrow> server_ref \<Rightarrow> bytes \<Rightarrow> ProxyWorld \<Rightarrow> ProxyCacheEntry" where
  "forwarded_entry clock now req source r cs w =
     \<lparr>original_request = req, original_source = source, home_server = r, sent_at = now, retry_count = 0,
      proxy_state = generate_proxy_state_key clock (pw_counter w), client_secret = cs,
      sent_on_connection = link_generation (pw_servers w r)\<rparr>"

lemma forwarded_entry_simps [simp]:
  "proxy_state (forwarded_entry clock now req source r cs w) = generate_proxy_state_key clock (pw_counter w)"
  "home_server (forwarded_entry clock now req source r cs w) = r"
  "original_request (forwarded_entry clock now req source r cs w) = req"
  "original_source (forwarded_entry clock now req source r cs w) = source"
  "client_secret (forwarded_entry clock now req source r cs w) = cs"
  "retry_count (forwarded_entry clock now req source r cs w) = 0"
  by (simp_all add: forwarded_entry_def)

lemma forward_request_cases:
  assumes "forward_request md5 hmac_md5 net clock now request source r cs w = (res, w')"
  obtains (dropped) e where "res = Inl e" "w' = w \<or> w' = w\<lparr>pw_counter := pw_counter w + 1\<rparr>"
  | (stored) req c w1 where "rewrite_request_for_home_server md5 hmac_md5 request (generate_proxy_state_key clock (pw_counter w)) cs
        (hs_secret (pw_servers w r)) = Inr req"
      "ProxyCache_insert (pw_cache w) (forwarded_entry clock now req source r cs w) = (Inr (), c)"
      "w1 = update_stats r record_request (w\<lparr>pw_counter := pw_counter w + 1, pw_cache := c\<rparr>)"
      "case Packet_encode req of Inl e \<Rightarrow> res = Inl (ProxyPacket e) \<and> w' = w1
       | Inr bs \<Rightarrow> res = map_sum id (\<lambda>_. generate_proxy_state_key clock (pw_counter w)) (fst (send_to_home_server net now bs r w1))
           \<and> w' = snd (send_to_home_server net now bs r w1)"
proof (cases "length (filter (\<lambda>a. attr_type a = AttributeType_as_u8 ProxyState) (pkt_attributes request)) \<ge> MAX_PROXY_STATE_ATTRIBUTES")
  case True
  with assms show ?thesis by (intro dropped) (auto simp: forward_request_def Let_def)
next
  case few: False
  let ?key = "generate_proxy_state_key clock (pw_counter w)"
  show ?thesis
  proof (cases "rewrite_request_for_home_server md5 hmac_md5 request ?key cs (hs_secret (pw_servers w r))")
    case (Inl e)
    with few assms show ?thesis by (intro dropped) (auto simp: forward_request_def Let_def)
  next
    case req: (Inr req)
    obtain ins c where ins: "ProxyCache_insert (pw_cache w) (forwarded_entry clock now req source r cs w) = (ins, c)" by fastforce
    let ?w1 = "update_stats r record_request (w\<lparr>pw_counter := pw_counter w + 1, pw_cache := c\<rparr>)"
    show ?thesis
    proof (cases ins)
      case (Inl e)
      then have "c = pw_cache w" using ins by (auto simp: ProxyCache_insert_def split: if_splits)
      with Inl few req ins assms show ?thesis
        by (intro dropped [of e]) (auto simp: forward_request_def forwarded_entry_def Let_def)
    next
      case (Inr u)
      show ?thesis
      proof (cases "Packet_encode req")
        case (Inl e)
        with \<open>ins = Inr u\<close> few req ins assms show ?thesis
          by (intro stored [of req c ?w1]) (auto simp: forward_request_def forwarded_entry_def Let_def)
      next
        case (Inr bs)
        obtain sr w2 where sr: "send_to_home_server net now bs r ?w1 = (sr, w2)" by fastforce
        from Inr \<open>ins = Inr u\<close> few req ins assms sr show ?thesis
          by (intro stored [of req c ?w1]) (cases sr; auto simp: forward_request_def forwarded_entry_def Let_def)+
      qed
    qed
  qed
qed

lemma forward_request_inv:
  assumes "proxy_inv w" "pw_counter w \<noteq> - 1" "forward_request md5 hmac_md5 net clock now request source r cs w = (res, w')"
  shows "proxy_inv w'"
  using assms(3)
proof (cases rule: forward_request_cases)
  case (dropped e)
  with assms(1) proxy_inv_counter [OF assms(1,2)] show ?thesis by blast
next
  case (stored req c w1)
  let ?key = "generate_proxy_state_key clock (pw_counter w)" and ?w = "w\<lparr>pw_counter := pw_counter w + 1\<rparr>"
  have fresh: "fmlookup (pc_cache (pw_cache w)) ?key = None"
  proof (cases "fmlookup (pc_cache (pw_cache w)) ?key")
    case (Some e)
    with assms(1) have "pw_counter w < pw_counter w" unfolding proxy_inv_def by fastforce
    then show ?thesis by simp
  qed simp
  have "proxy_inv w1"
    using proxy_inv_insert [of ?w "forwarded_entry clock now req source r cs w" c clock "pw_counter w"] stored(2,3) fresh
      proxy_inv_counter [OF assms(1,2)] less_counter_Suc [OF assms(2)] by simp
  with stored(4) show ?thesis by (auto intro: proxy_inv_cong split: sum.splits)
qed

text \<open>
  A response is refused, leaving everything but a link's reset slot as it was, or accepted: its
  entry leaves the table and is what the reply is built from.
\<close>

definition response_entry :: "(bytes \<Rightarrow> arr16) \<Rightarrow> Packet \<Rightarrow> ResponseOrigin \<Rightarrow> ProxyWorld \<Rightarrow> ProxyCacheEntry option" where
  "response_entry md5 response origin w =
     (case last_proxy_state response of
        Some a \<Rightarrow>
          if length (attr_value a) = 16 then
            (case ProxyCache_get (pw_cache w) (arr16_of (attr_value a)) of
               Some entry \<Rightarrow>
                 if from_expected (pw_servers w) entry origin
                   \<and> verify_response_authenticator md5 response (pkt_authenticator (original_request entry))
                       (hs_secret (pw_servers w (home_server entry))) = Inr True then Some entry else None
             | None \<Rightarrow> None)
          else None
      | None \<Rightarrow> None)"

lemma handle_response_refused:
  assumes "response_entry md5 response origin w = None"
  shows "handle_response_from md5 hmac_md5 net rnd rnd' now response origin w = Inr (Inl CorrelationFailed, w)
    \<or> handle_response_from md5 hmac_md5 net rnd rnd' now response origin w = Inr (Inl InvalidResponseAuthenticator, reset_origin_link origin w)
    \<or> \<not> (\<forall>a \<in> set (pkt_attributes response). attribute_ok a)
      \<and> (\<exists>p. handle_response_from md5 hmac_md5 net rnd rnd' now response origin w = Inl p)"
proof -
  consider "last_proxy_state response = None" | a where "last_proxy_state response = Some a" "length (attr_value a) \<noteq> 16"
    | a where "last_proxy_state response = Some a" "length (attr_value a) = 16" "ProxyCache_get (pw_cache w) (arr16_of (attr_value a)) = None"
    | a e where "last_proxy_state response = Some a" "length (attr_value a) = 16" "ProxyCache_get (pw_cache w) (arr16_of (attr_value a)) = Some e"
    by (metis option.exhaust)
  then show ?thesis
  proof cases
    case (4 a e)
    let ?v = "verify_response_authenticator md5 response (pkt_authenticator (original_request e)) (hs_secret (pw_servers w (home_server e)))"
    from assms 4 have no: "\<not> from_expected (pw_servers w) e origin \<or> ?v \<noteq> Inr True" by (auto simp: response_entry_def split: if_splits)
    show ?thesis
    proof (cases ?v)
      case (Inl p)
      moreover from Inl have "\<not> (\<forall>a \<in> set (pkt_attributes response). attribute_ok a)"
        using calculate_response_total [of response md5 "pkt_authenticator (original_request e)" "hs_secret (pw_servers w (home_server e))"]
        by auto
      ultimately show ?thesis using 4 by (cases "from_expected (pw_servers w) e origin") (simp_all add: handle_response_from_def Let_def)
    next
      case (Inr v)
      with no 4 show ?thesis by (cases "from_expected (pw_servers w) e origin") (simp_all add: handle_response_from_def Let_def)
    qed
  qed (simp_all add: handle_response_from_def Let_def)
qed

definition response_key :: "Packet \<Rightarrow> ProxyStateKey" where
  "response_key response = arr16_of (attr_value (the (last_proxy_state response)))"

definition consume_entry :: "instant \<Rightarrow> ProxyStateKey \<Rightarrow> ProxyCacheEntry \<Rightarrow> ProxyWorld \<Rightarrow> ProxyWorld" where
  "consume_entry now k e w = update_stats (home_server e) (record_response now)
     (w\<lparr>pw_cache := (pw_cache w)\<lparr>pc_cache := fmdrop k (pc_cache (pw_cache w))\<rparr>\<rparr>)"

lemma handle_response_accepted:
  assumes "response_entry md5 response origin w = Some e"
  shows "fmlookup (pc_cache (pw_cache w)) (response_key response) = Some e"
    "handle_response_from md5 hmac_md5 net rnd rnd' now response origin w =
       res_bind (rewrite_response_for_nas md5 hmac_md5 rnd rnd' (hs_secret (pw_servers w (home_server e))) response e) (\<lambda>r.
         case r of
           Inl err \<Rightarrow> Inr (Inl err, consume_entry now (response_key response) e w)
         | Inr response' \<Rightarrow>
           (case Packet_encode response' of
              Inl err \<Rightarrow> Inr (Inl (ProxyPacket err), consume_entry now (response_key response) e w)
            | Inr data \<Rightarrow> Inr (send_to net (ToNas (original_source e) data) (consume_entry now (response_key response) e w))))"
proof -
  from assms(1) obtain a where a: "last_proxy_state response = Some a" "length (attr_value a) = 16"
    and e: "fmlookup (pc_cache (pw_cache w)) (arr16_of (attr_value a)) = Some e" "from_expected (pw_servers w) e origin"
      "verify_response_authenticator md5 response (pkt_authenticator (original_request e)) (hs_secret (pw_servers w (home_server e))) = Inr True"
    by (auto simp: response_entry_def ProxyCache_get_def split: option.splits if_splits)
  have key: "response_key response = arr16_of (attr_value a)" using a by (simp add: response_key_def)
  show "fmlookup (pc_cache (pw_cache w)) (response_key response) = Some e" using e by (simp add: key)
  have "hs_secret (pw_servers (consume_entry now k e w) (home_server e)) = hs_secret (pw_servers w (home_server e))" for k
    by (simp add: consume_entry_def update_server_def)
  with a e show "handle_response_from md5 hmac_md5 net rnd rnd' now response origin w =
       res_bind (rewrite_response_for_nas md5 hmac_md5 rnd rnd' (hs_secret (pw_servers w (home_server e))) response e) (\<lambda>r.
         case r of
           Inl err \<Rightarrow> Inr (Inl err, consume_entry now (response_key response) e w)
         | Inr response' \<Rightarrow>
           (case Packet_encode response' of
              Inl err \<Rightarrow> Inr (Inl (ProxyPacket err), consume_entry now (response_key response) e w)
            | Inr data \<Rightarrow> Inr (send_to net (ToNas (original_source e) data) (consume_entry now (response_key response) e w))))"
    unfolding handle_response_from_def consume_entry_def key by (simp add: ProxyCache_get_def ProxyCache_remove_def Let_def)
qed

lemma handle_response_world:
  assumes "response_entry md5 response origin w = Some e"
    and "handle_response_from md5 hmac_md5 net rnd rnd' now response origin w = Inr (res, w')"
  shows "w' = consume_entry now (response_key response) e w \<or> (\<exists>d. w' = snd (send_to net d (consume_entry now (response_key response) e w)))"
proof -
  note acc = handle_response_accepted [OF assms(1)]
  let ?w = "consume_entry now (response_key response) e w"
  from assms(2) obtain r where r: "(case r of Inl err \<Rightarrow> Inr (Inl err, ?w)
      | Inr response' \<Rightarrow> (case Packet_encode response' of Inl err \<Rightarrow> Inr (Inl (ProxyPacket err), ?w)
         | Inr data \<Rightarrow> Inr (send_to net (ToNas (original_source e) data) ?w))) = (Inr (res, w') :: panic + _)"
    unfolding acc(2) by (auto simp: res_bind_Inr_iff)
  show ?thesis
  proof (cases r)
    case (Inl e)
    with r show ?thesis by simp
  next
    case p: (Inr p)
    show ?thesis
    proof (cases "Packet_encode p")
      case (Inr data)
      with r p have "send_to net (ToNas (original_source e) data) ?w = (res, w')" by simp
      then show ?thesis by (metis snd_conv)
    qed (use r p in simp)
  qed
qed

lemma handle_response_inv:
  assumes "proxy_inv w" "handle_response_from md5 hmac_md5 net rnd rnd' now response origin w = Inr (res, w')"
  shows "proxy_inv w'"
proof (cases "response_entry md5 response origin w")
  case None
  then have "w' = w \<or> w' = reset_origin_link origin w"
    using handle_response_refused [of md5 response origin w hmac_md5 net rnd rnd' now] assms(2) by auto
  with assms(1) show ?thesis by (auto intro: proxy_inv_cong)
next
  case (Some e)
  have "proxy_inv (consume_entry now (response_key response) e w)"
    unfolding consume_entry_def by (rule proxy_inv_remove [OF assms(1) handle_response_accepted(1) [OF Some]]) simp
  with handle_response_world [OF Some assms(2)] show ?thesis by (auto intro: proxy_inv_cong)
qed

text \<open>The Access-Reject for a request nobody answered.\<close>

definition reject_packet :: "(bytes \<Rightarrow> arr16) \<Rightarrow> ProxyCacheEntry \<Rightarrow> Packet" where
  "reject_packet md5 e =
     (let p = Packet_new AccessReject (pkt_identifier (original_request e)) (pkt_authenticator (original_request e))
            \<lparr>pkt_attributes := [\<lparr>attr_type = AttributeType_as_u8 ReplyMessage, attr_value = str_bytes reject_message\<rparr>]\<rparr>
      in p\<lparr>pkt_authenticator := md5 (packet_bytes p @ client_secret e)\<rparr>)"

lemma reject_packet_ok: "packet_ok (reject_packet md5 e)"
  by (simp add: reject_packet_def Let_def Packet_new_def packet_ok_def Packet_length_eq attribute_ok_def encoded_length_def
      attr_consts pkt_consts reject_message_def)

lemma reject_packet_signed:
  fixes e :: ProxyCacheEntry
  defines "p \<equiv> Packet_new AccessReject (pkt_identifier (original_request e)) (pkt_authenticator (original_request e))
            \<lparr>pkt_attributes := [\<lparr>attr_type = AttributeType_as_u8 ReplyMessage, attr_value = str_bytes reject_message\<rparr>]\<rparr>"
  shows "calculate_response_authenticator md5 p (pkt_authenticator (original_request e)) (client_secret e)
     = Inr (md5 (packet_bytes p @ client_secret e))" "reject_packet md5 e = p\<lparr>pkt_authenticator := md5 (packet_bytes p @ client_secret e)\<rparr>"
proof -
  have "p\<lparr>pkt_authenticator := pkt_authenticator (original_request e)\<rparr> = p" by (simp add: p_def Packet_new_def)
  moreover have "packet_ok p"
    using reject_packet_ok [of md5 e] by (simp add: p_def reject_packet_def packet_ok_def Let_def)
  ultimately have "Packet_encode (p\<lparr>pkt_authenticator := pkt_authenticator (original_request e)\<rparr>) = Inr (packet_bytes p)"
    by (simp add: Packet_encode_Inr_iff)
  from calculate_response_encode [OF this]
  show "calculate_response_authenticator md5 p (pkt_authenticator (original_request e)) (client_secret e)
     = Inr (md5 (packet_bytes p @ client_secret e))" .
  show "reject_packet md5 e = p\<lparr>pkt_authenticator := md5 (packet_bytes p @ client_secret e)\<rparr>"
    by (simp add: reject_packet_def p_def Let_def)
qed

lemma reject_packet_verifies:
  "verify_response_authenticator md5 (reject_packet md5 e) (pkt_authenticator (original_request e)) (client_secret e) = Inr True"
  unfolding reject_packet_signed(2)
  by (simp add: verify_response_authenticator_def reject_packet_signed(1) constant_time_eq_iff)

lemma send_reject_eq:
  "send_reject md5 net e w = Inr (send_to net (ToNas (original_source e) (packet_bytes (reject_packet md5 e))) w)"
proof -
  have "Attribute_string (AttributeType_as_u8 ReplyMessage) reject_message
      = Inr \<lparr>attr_type = AttributeType_as_u8 ReplyMessage, attr_value = str_bytes reject_message\<rparr>"
    by (simp add: Attribute_string_def Attribute_new_def attr_consts reject_message_def)
  moreover have "Packet_encode (reject_packet md5 e) = Inr (packet_bytes (reject_packet md5 e))"
    using reject_packet_ok by (simp add: Packet_encode_Inr_iff)
  moreover note reject_packet_signed [of md5 e]
  ultimately show ?thesis
    unfolding send_reject_def by (simp add: Let_def add_attribute_def Packet_new_def)
qed

text \<open>A retry of an entry that is in the table as copied: its counters move on, nothing else.\<close>

definition retried_entry :: "instant \<Rightarrow> ProxyCacheEntry \<Rightarrow> ProxyWorld \<Rightarrow> ProxyCacheEntry" where
  "retried_entry now e w = e\<lparr>retry_count := retry_count e + 1, sent_at := now, sent_on_connection :=
     (if may_resend (pw_servers w (home_server e)) (sent_on_connection e) then link_generation (pw_servers w (home_server e))
      else sent_on_connection e)\<rparr>"

lemma retried_entry_simps [simp]:
  "proxy_state (retried_entry now e w) = proxy_state e" "home_server (retried_entry now e w) = home_server e"
  "original_request (retried_entry now e w) = original_request e" "original_source (retried_entry now e w) = original_source e"
  "client_secret (retried_entry now e w) = client_secret e" "retry_count (retried_entry now e w) = retry_count e + 1"
  by (simp_all add: retried_entry_def)

lemma handle_timeout_last:
  assumes "max_retries config \<le> retry_count e"
  shows "handle_timeout md5 net config now e w =
     (let d = ToNas (original_source e) (packet_bytes (reject_packet md5 e))
      in case net d of
           Some err \<Rightarrow> Inr (Inl (ProxyIo err), w)
         | None \<Rightarrow> Inr (Inr (), update_stats (home_server e) record_timeout (w\<lparr>pw_sent := pw_sent w @ [d],
             pw_cache := (pw_cache w)\<lparr>pc_cache := fmdrop (proxy_state e) (pc_cache (pw_cache w))\<rparr>\<rparr>)))"
  using assms
  by (cases "net (ToNas (original_source e) (packet_bytes (reject_packet md5 e)))")
    (simp_all add: handle_timeout_def send_reject_eq send_to_def ProxyCache_remove_def Let_def)

lemma may_resend_stats [simp]: "may_resend (s\<lparr>hs_stats := x\<rparr>) g = may_resend s g"
  and link_generation_stats [simp]: "link_generation (s\<lparr>hs_stats := x\<rparr>) = link_generation s"
  by (simp_all add: may_resend_def link_generation_def split: HomeServerTransport.splits)

lemma handle_timeout_retry:
  assumes "retry_count e < max_retries config" "packet_ok (original_request e)"
    and "ProxyCache_insert (pw_cache w) (retried_entry now e w) = (Inr (), c)"
  defines "w1 \<equiv> update_stats (home_server e) record_request (update_stats (home_server e) record_timeout w \<lparr>pw_cache := c\<rparr>)"
  shows "handle_timeout md5 net config now e w = Inr (Inr (),
     if may_resend (pw_servers w (home_server e)) (sent_on_connection e)
     then snd (send_to_home_server net now (packet_bytes (original_request e)) (home_server e) w1) else w1)"
proof -
  have "Packet_encode (original_request e) = Inr (packet_bytes (original_request e))"
    using assms(2) by (simp add: Packet_encode_Inr_iff)
  moreover have "pw_servers (update_stats (home_server e) record_timeout w) (home_server e) =
      (pw_servers w (home_server e))\<lparr>hs_stats := record_timeout (hs_stats (pw_servers w (home_server e)))\<rparr>"
    by (simp add: update_server_def)
  moreover have "ProxyCache_insert (pw_cache w) (e\<lparr>retry_count := retry_count e + 1, sent_at := now,
      sent_on_connection := (if may_resend (pw_servers w (home_server e)) (sent_on_connection e)
        then link_generation (pw_servers w (home_server e)) else sent_on_connection e)\<rparr>) = (Inr (), c)"
    using assms(3) by (simp add: retried_entry_def)
  ultimately show ?thesis
    using assms(1) unfolding w1_def handle_timeout_def by (cases e) (auto simp: Let_def not_le)
qed

lemma ProxyCache_insert_old:
  assumes "fmlookup (pc_cache c) (proxy_state e) = Some e'"
  shows "ProxyCache_insert c e = (Inr (), c\<lparr>pc_cache := fmupd (proxy_state e) e (pc_cache c)\<rparr>)"
    "ProxyCache_len (c\<lparr>pc_cache := fmupd (proxy_state e) e (pc_cache c)\<rparr>) = ProxyCache_len c"
proof -
  have "proxy_state e |\<in>| fmdom (pc_cache c)" using assms by (rule fmdomI)
  then show "ProxyCache_len (c\<lparr>pc_cache := fmupd (proxy_state e) e (pc_cache c)\<rparr>) = ProxyCache_len c"
    by (simp add: ProxyCache_len_def finsert_absorb)
  show "ProxyCache_insert c e = (Inr (), c\<lparr>pc_cache := fmupd (proxy_state e) e (pc_cache c)\<rparr>)"
    using assms by (simp add: ProxyCache_insert_def)
qed

lemma retry_inv:
  assumes "proxy_inv w" "ProxyCache_get (pw_cache w) (proxy_state e) = Some e" "packet_ok (original_request e)"
    and "retry_one md5 net config now e w = Inr w'"
  shows "proxy_inv w'"
proof (cases "max_retries config \<le> retry_count e")
  case True
  let ?d = "ToNas (original_source e) (packet_bytes (reject_packet md5 e))"
  let ?w = "w\<lparr>pw_sent := pw_sent w @ [?d]\<rparr>"
  have "proxy_inv ?w" by (rule proxy_inv_cong [OF assms(1)]) simp_all
  from proxy_inv_remove [OF this, of "proxy_state e" e record_timeout] assms(2)
  have "proxy_inv (update_stats (home_server e) record_timeout (w\<lparr>pw_sent := pw_sent w @ [?d],
      pw_cache := (pw_cache w)\<lparr>pc_cache := fmdrop (proxy_state e) (pc_cache (pw_cache w))\<rparr>\<rparr>))"
    by (simp add: ProxyCache_get_def)
  with assms(1,4) show ?thesis
    by (auto simp: retry_one_def handle_timeout_last [OF True] Let_def split: option.splits)
next
  case False
  let ?e = "retried_entry now e w" and ?r = "home_server e"
  let ?c = "(pw_cache w)\<lparr>pc_cache := fmupd (proxy_state e) ?e (pc_cache (pw_cache w))\<rparr>"
  have old: "fmlookup (pc_cache (pw_cache w)) (proxy_state ?e) = Some e" using assms(2) by (simp add: ProxyCache_get_def)
  have ins: "ProxyCache_insert (pw_cache w) ?e = (Inr (), ?c)" "ProxyCache_len ?c = ProxyCache_len (pw_cache w)"
    using ProxyCache_insert_old [OF old] by simp_all
  have fl: "in_flight ?c r = in_flight (pw_cache w) r" for r
    using in_flight_insert_old [OF old, of r] by simp
  define w1 where "w1 = update_stats ?r record_request (update_stats ?r record_timeout w \<lparr>pw_cache := ?c\<rparr>)"
  have "proxy_state e \<in> in_flight_keys (pw_cache w) ?r" using old by (simp add: in_flight_keys_def)
  then have "0 < in_flight (pw_cache w) ?r" by (auto simp: in_flight_def card_gt_0_iff)
  then have pos: "0 < unat (outstanding (hs_stats (pw_servers w ?r)))" using assms(1) by (simp add: proxy_inv_def gauge_def)
  then have bound: "unat (outstanding (record_timeout (hs_stats (pw_servers w ?r)))) + 1 < 2 ^ 64"
    using unsigned_less [of "outstanding (hs_stats (pw_servers w ?r))"] by simp
  have "gauge (pw_servers w1) r = gauge (pw_servers w) r" for r
    using outstanding_record(1) [OF bound] pos by (auto simp: gauge_def update_server_def w1_def)
  note g = this
  have c: "pw_cache w1 = ?c" "pw_counter w1 = pw_counter w" by (simp_all add: w1_def)
  have inv: "proxy_inv w1"
  proof (rule proxy_invI)
    show "gauge (pw_servers w1) r = in_flight (pw_cache w1) r" for r
      unfolding g c(1) fl using assms(1) by (simp add: proxy_inv_def)
    show "proxy_state x = k \<and> (\<exists>t n. k = generate_proxy_state_key t n \<and> n < pw_counter w1)"
      if "fmlookup (pc_cache (pw_cache w1)) k = Some x" for k x
    proof (cases "k = proxy_state e")
      case True
      with that have "x = ?e" by (simp add: c)
      with True old show ?thesis unfolding c(2) using proxy_inv_key [OF assms(1), of k e] by simp
    next
      case False
      with that show ?thesis unfolding c(2) using proxy_inv_key [OF assms(1), of k x] by (simp add: c(1))
    qed
  qed (use assms(1) ins(2) in \<open>simp_all add: c proxy_inv_def\<close>)
  have w': "w' = (if may_resend (pw_servers w ?r) (sent_on_connection e)
      then snd (send_to_home_server net now (packet_bytes (original_request e)) ?r w1) else w1)"
    using handle_timeout_retry [OF _ assms(3) ins(1), of config md5 net] False assms(4) by (auto simp: retry_one_def not_le w1_def)
  show ?thesis unfolding w' using inv by (auto intro: proxy_inv_cong)
qed

lemma remove_expired_inv:
  "remove_expired ks (pw_servers w, pw_cache w) = (srv, c) \<Longrightarrow> proxy_inv w \<Longrightarrow> proxy_inv (w\<lparr>pw_servers := srv, pw_cache := c\<rparr>)"
proof (induction ks arbitrary: w)
  case (Cons k ks)
  show ?case
  proof (cases "fmlookup (pc_cache (pw_cache w)) k")
    case None
    have "fmdrop k (pc_cache (pw_cache w)) = pc_cache (pw_cache w)" using None by (metis fmap_ext fmlookup_drop)
    with Cons None show ?thesis by (simp add: ProxyCache_remove_def)
  next
    case (Some e)
    let ?w = "update_stats (home_server e) record_timeout (w\<lparr>pw_cache := (pw_cache w)\<lparr>pc_cache := fmdrop k (pc_cache (pw_cache w))\<rparr>\<rparr>)"
    have "proxy_inv ?w" by (rule proxy_inv_remove [OF Cons.prems(2) Some]) simp
    moreover have "remove_expired ks (pw_servers ?w, pw_cache ?w) = (srv, c)"
      using Cons.prems(1) Some by (simp add: ProxyCache_remove_def update_server_def)
    ultimately have "proxy_inv (?w\<lparr>pw_servers := srv, pw_cache := c\<rparr>)" by (rule Cons.IH [rotated])
    then show ?thesis by (simp add: update_server_def)
  qed
qed (auto intro: proxy_inv_cong)

text \<open>
  Steps that find the state they count on: a retried entry is still in the table as it was copied
  and its request can be encoded, and the counter has not used up its 64 bits.
\<close>

definition undisturbed :: "ProxyTask \<Rightarrow> ProxyWorld \<Rightarrow> bool" where
  "undisturbed task w =
     (case task of
        Retrying e \<Rightarrow> ProxyCache_get (pw_cache w) (proxy_state e) = Some e \<and> packet_ok (original_request e)
      | Forwarding \<Rightarrow> pw_counter w \<noteq> - 1
      | _ \<Rightarrow> True)"

lemma proxy_step_inv:
  assumes "proxy_step md5 hmac_md5 net config task s s'" "undisturbed task (fst s)" "proxy_inv (fst s)"
  shows "proxy_inv (fst s')"
  using assms
proof (cases rule: proxy_step.cases)
  case step_forward
  with assms(2,3) show ?thesis by (auto simp: undisturbed_def intro: forward_request_inv)
next
  case step_response
  with assms(3) show ?thesis by (auto intro: handle_response_inv)
next
  case step_retry
  with assms(2,3) show ?thesis by (auto simp: undisturbed_def intro: retry_inv)
next
  case step_clean
  with assms(3) show ?thesis by (auto intro: remove_expired_inv)
next
  case (step_link w srv pending)
  have "gauge srv r = gauge (pw_servers w) r" for r
    using step_link(4) [of r] by (simp add: gauge_def same_account_def) (metis HomeServer.select_convs(9) HomeServer.surjective HomeServer.update_convs(7,8))
  then show ?thesis using assms(3) step_link by (simp add: proxy_inv_def)
qed (use assms(3) in simp)

lemma proxy_run_inv:
  "proxy_run md5 hmac_md5 net config undisturbed s s' \<Longrightarrow> proxy_inv (fst s) \<Longrightarrow> proxy_inv (fst s')"
  by (induction rule: proxy_run.induct) (auto intro: proxy_step_inv)

lemma proxy_inv_start:
  assumes "\<And>r. outstanding (hs_stats (srv r)) = 0" "max_entries < 2 ^ 64"
  shows "proxy_inv \<lparr>pw_servers = srv, pw_cache = ProxyCache_new ttl max_entries, pw_counter = n, pw_sent = []\<rparr>"
  using assms by (simp add: proxy_inv_def gauge_def in_flight_def in_flight_keys_def ProxyCache_new_def ProxyCache_len_def fcard.rep_eq)

section \<open>Scans that find one request again and again\<close>

definition retry_key ::
    "(bytes \<Rightarrow> arr16) \<Rightarrow> net \<Rightarrow> RetryConfig \<Rightarrow> ProxyStateKey \<Rightarrow> instant \<Rightarrow> ProxyWorld \<Rightarrow> panic + ProxyWorld" where
  "retry_key md5 net config k now w =
     (case ProxyCache_get (pw_cache w) k of None \<Rightarrow> Inr w | Some e \<Rightarrow> retry_one md5 net config now e w)"

fun retry_scans ::
    "(bytes \<Rightarrow> arr16) \<Rightarrow> net \<Rightarrow> RetryConfig \<Rightarrow> ProxyStateKey \<Rightarrow> instant list \<Rightarrow> ProxyWorld \<Rightarrow> panic + ProxyWorld" where
  "retry_scans md5 net config k [] w = Inr w"
| "retry_scans md5 net config k (now # ts) w = res_bind (retry_key md5 net config k now w) (retry_scans md5 net config k ts)"

abbreviation is_to_nas :: "Datagram \<Rightarrow> bool" where
  "is_to_nas d \<equiv> (case d of ToNas _ _ \<Rightarrow> True | ToHomeServer _ _ \<Rightarrow> False)"

lemma send_to_home_server_sent:
  "\<exists>ds. pw_sent (snd (send_to_home_server net now bs r w)) = pw_sent w @ ds \<and> filter is_to_nas ds = [] \<and> length ds \<le> 1"
  by (auto simp: send_to_home_server_def send_to_def split: HomeServerTransport.splits option.splits prod.splits)

text \<open>One retry of an entry that is in the table.\<close>

lemma retry_one_live:
  assumes "ProxyCache_get (pw_cache w) (proxy_state e) = Some e" "packet_ok (original_request e)" "retry_count e < max_retries config"
  obtains w' ds where "retry_one md5 net config now e w = Inr w'"
    "ProxyCache_get (pw_cache w') (proxy_state e) = Some (retried_entry now e w)"
    "\<And>k. k \<noteq> proxy_state e \<Longrightarrow> ProxyCache_get (pw_cache w') k = ProxyCache_get (pw_cache w) k"
    "pw_sent w' = pw_sent w @ ds" "filter is_to_nas ds = []" "length ds \<le> 1"
proof -
  let ?e = "retried_entry now e w"
  have old: "fmlookup (pc_cache (pw_cache w)) (proxy_state ?e) = Some e" using assms(1) by (simp add: ProxyCache_get_def)
  note ins = ProxyCache_insert_old(1) [OF old]
  define w1 where "w1 = update_stats (home_server e) record_request (update_stats (home_server e) record_timeout w
    \<lparr>pw_cache := (pw_cache w)\<lparr>pc_cache := fmupd (proxy_state ?e) ?e (pc_cache (pw_cache w))\<rparr>\<rparr>)"
  let ?w = "if may_resend (pw_servers w (home_server e)) (sent_on_connection e)
     then snd (send_to_home_server net now (packet_bytes (original_request e)) (home_server e) w1) else w1"
  obtain ds where ds: "pw_sent (snd (send_to_home_server net now (packet_bytes (original_request e)) (home_server e) w1)) = pw_sent w1 @ ds"
    "filter is_to_nas ds = []" "length ds \<le> 1"
    using send_to_home_server_sent by blast
  have w1: "pw_sent w1 = pw_sent w" "pw_cache ?w = (pw_cache w)\<lparr>pc_cache := fmupd (proxy_state e) ?e (pc_cache (pw_cache w))\<rparr>"
    by (simp_all add: w1_def)
  have "handle_timeout md5 net config now e w = Inr (Inr (), ?w)"
    using handle_timeout_retry [OF assms(3,2) ins] by (simp add: w1_def)
  then have "retry_one md5 net config now e w = Inr ?w" by (simp add: retry_one_def)
  then show ?thesis
    by (rule that [of ?w "if may_resend (pw_servers w (home_server e)) (sent_on_connection e) then ds else []"])
      (use w1 ds in \<open>simp_all add: ProxyCache_get_def\<close>)
qed

lemma retry_scans_live:
  assumes "ProxyCache_get (pw_cache w) k = Some e" "proxy_state e = k" "packet_ok (original_request e)"
    and "unat (retry_count e) + length ts \<le> unat (max_retries config)"
  shows "\<exists>w' e' ds. retry_scans md5 net config k ts w = Inr w' \<and> ProxyCache_get (pw_cache w') k = Some e'
     \<and> unat (retry_count e') = unat (retry_count e) + length ts
     \<and> proxy_state e' = k \<and> original_request e' = original_request e \<and> original_source e' = original_source e
     \<and> client_secret e' = client_secret e \<and> home_server e' = home_server e
     \<and> pw_sent w' = pw_sent w @ ds \<and> filter is_to_nas ds = [] \<and> length ds \<le> length ts"
  using assms
proof (induction ts arbitrary: w e)
  case Nil
  then show ?case by (intro exI [of _ w] exI [of _ e] exI [of _ "[]"]) simp
next
  case (Cons now ts)
  from Cons.prems have "retry_count e < max_retries config" "ProxyCache_get (pw_cache w) (proxy_state e) = Some e"
    by (simp_all add: word_less_nat_alt)
  from retry_one_live [OF this(2) Cons.prems(3) this(1)] obtain w1 ds1 where
    one: "retry_one md5 net config now e w = Inr w1" "ProxyCache_get (pw_cache w1) (proxy_state e) = Some (retried_entry now e w)"
      "pw_sent w1 = pw_sent w @ ds1" "filter is_to_nas ds1 = []" "length ds1 \<le> 1" by metis
  have cnt: "unat (retry_count e + 1) = unat (retry_count e) + 1"
    using Cons.prems(4) unat_u8_less [of "max_retries config"] by (simp add: unat_word_ariths)
  from Cons.IH [of w1 "retried_entry now e w"] one(2) Cons.prems cnt obtain w' e' ds where
    "retry_scans md5 net config k ts w1 = Inr w'" "ProxyCache_get (pw_cache w') k = Some e'"
    "unat (retry_count e') = unat (retry_count e) + 1 + length ts"
    "proxy_state e' = k \<and> original_request e' = original_request e \<and> original_source e' = original_source e
     \<and> client_secret e' = client_secret e \<and> home_server e' = home_server e"
    "pw_sent w' = pw_sent w1 @ ds" "filter is_to_nas ds = []" "length ds \<le> length ts" by auto
  with one Cons.prems show ?case
    by (intro exI [of _ w'] exI [of _ e'] exI [of _ "ds1 @ ds"]) (simp add: retry_key_def)
qed

text \<open>A request that cannot be encoded: a retry only lowers the gauge.\<close>

lemma retry_scans_unencodable:
  assumes "ProxyCache_get (pw_cache w) k = Some e" "Packet_encode (original_request e) = Inl err" "retry_count e < max_retries config"
  shows "\<exists>w'. retry_scans md5 net config k ts w = Inr w' \<and> pw_cache w' = pw_cache w \<and> pw_sent w' = pw_sent w
     \<and> gauge (pw_servers w') (home_server e) = gauge (pw_servers w) (home_server e) - length ts"
  using assms(1)
proof (induction ts arbitrary: w)
  case (Cons now ts)
  let ?w = "update_stats (home_server e) record_timeout w"
  have "\<not> max_retries config \<le> retry_count e" using assms(3) by simp
  then have "handle_timeout md5 net config now e w = Inr (Inl (ProxyPacket err), ?w)"
    using assms(2) by (simp add: handle_timeout_def Let_def if_distrib [of original_request])
  then have "retry_key md5 net config k now w = Inr ?w"
    using Cons.prems by (simp add: retry_key_def retry_one_def)
  moreover obtain w' where "retry_scans md5 net config k ts ?w = Inr w'" "pw_cache w' = pw_cache ?w" "pw_sent w' = pw_sent ?w"
      "gauge (pw_servers w') (home_server e) = gauge (pw_servers ?w) (home_server e) - length ts"
    using Cons.IH [of ?w] Cons.prems by auto
  ultimately show ?case by (intro exI [of _ w']) (simp add: gauge_def [of "pw_servers w"])
qed simp

section \<open>Responses\<close>

text \<open>
  What becomes of an accepted response: one datagram to the NAS, whose packet has the reply's code
  and Identifier, verifies under the NAS's secret and Request Authenticator and satisfies \<open>P\<close>; or
  nothing, with the reason.
\<close>

definition relay_outcome ::
    "(bytes \<Rightarrow> arr16) \<Rightarrow> net \<Rightarrow> SocketAddr \<Rightarrow> arr16 \<Rightarrow> bytes \<Rightarrow> Packet \<Rightarrow> (Packet \<Rightarrow> bool)
      \<Rightarrow> Datagram list \<Rightarrow> ProxyError + unit \<Rightarrow> Datagram list \<Rightarrow> bool" where
  "relay_outcome md5 net source ra cs reply P sent res sent' \<longleftrightarrow>
     sent' = sent \<and> (\<exists>n > 4096. res = Inl (ProxyPacket (PacketTooLarge n)))
     \<or> sent' = sent \<and> (\<exists>d s. net d = Some s \<and> res = Inl (ProxyIo s))
     \<or> (\<exists>q. res = Inr () \<and> sent' = sent @ [ToNas source (packet_bytes q)] \<and> packet_ok q
          \<and> pkt_code q = pkt_code reply \<and> pkt_identifier q = pkt_identifier reply
          \<and> verify_response_authenticator md5 q ra cs = Inr True \<and> P q)"

lemma relay_outcome_mono:
  "relay_outcome md5 net source ra cs reply P sent res sent' \<Longrightarrow> (\<And>q. P q \<Longrightarrow> Q q) \<Longrightarrow>
     relay_outcome md5 net source ra cs reply Q sent res sent'"
  unfolding relay_outcome_def by blast

text \<open>An accepted response: the entry is gone, and what the NAS gets verifies under its secret.\<close>

lemma handle_response_relays:
  assumes "packet_ok response" "length (filter is_ma (pkt_attributes response)) \<le> 1" "response_entry md5 response origin w = Some e"
  obtains res w' where "handle_response_from md5 hmac_md5 net rnd rnd' now response origin w = Inr (res, w')"
    "pw_cache w' = (pw_cache w)\<lparr>pc_cache := fmdrop (response_key response) (pc_cache (pw_cache w))\<rparr>"
    "relay_outcome md5 net (original_source e) (pkt_authenticator (original_request e)) (client_secret e) response
       (\<lambda>q. filter opaque (pkt_attributes q) = filter (\<lambda>a. opaque a \<and> a \<noteq> own_proxy_state e) (pkt_attributes response))
       (pw_sent w) res (pw_sent w')"
proof -
  let ?hs = "hs_secret (pw_servers w (home_server e))" and ?ra = "pkt_authenticator (original_request e)"
  let ?w = "consume_entry now (response_key response) e w"
  note acc = handle_response_accepted(2) [OF assms(3), of hmac_md5 net rnd rnd' now]
  have c: "pw_cache ?w = (pw_cache w)\<lparr>pc_cache := fmdrop (response_key response) (pc_cache (pw_cache w))\<rparr>" "pw_sent ?w = pw_sent w"
    by (simp_all add: consume_entry_def)
  have v: "verify_response_authenticator md5 response ?ra ?hs = Inr True"
    using assms(3) by (auto simp: response_entry_def split: option.splits if_splits)
  note rek = response_rekeyed [OF assms(1,2) refl refl, of md5 e ?hs hmac_md5 rnd rnd']
  show ?thesis
  proof (cases "rewrite_response_for_nas md5 hmac_md5 rnd rnd' ?hs response e")
    case (Inl p)
    with rek show ?thesis by simp
  next
    case r: (Inr r)
    show ?thesis
    proof (cases r)
      case (Inl err)
      with r acc have "handle_response_from md5 hmac_md5 net rnd rnd' now response origin w = Inr (Inl err, ?w)" by simp
      moreover have "\<exists>n > 4096. err = ProxyPacket (PacketTooLarge n)" using rek v r Inl by simp
      ultimately show ?thesis using c by (intro that) (auto simp: relay_outcome_def)
    next
      case q: (Inr q)
      with rek r have q': "pkt_code q = pkt_code response" "pkt_identifier q = pkt_identifier response"
          "verify_response_authenticator md5 q ?ra (client_secret e) = Inr True"
          "filter opaque (pkt_attributes q) = filter (\<lambda>a. opaque a \<and> a \<noteq> own_proxy_state e) (pkt_attributes response)" by simp_all
      then have ok: "\<forall>a \<in> set (pkt_attributes q). attribute_ok a"
        by (auto simp: verify_response_authenticator_def calculate_response_authenticator_def res_simps Let_def)
      show ?thesis
      proof (cases "Packet_encode q")
        case (Inl err)
        with q r acc have "handle_response_from md5 hmac_md5 net rnd rnd' now response origin w = Inr (Inl (ProxyPacket err), ?w)" by simp
        moreover have "\<exists>n > 4096. err = PacketTooLarge n" using Inl Packet_encode_if [OF ok] by (auto simp: pkt_consts split: if_splits)
        ultimately show ?thesis using c by (intro that) (auto simp: relay_outcome_def)
      next
        case (Inr data)
        then have d: "packet_ok q" "data = packet_bytes q" by (simp_all add: Packet_encode_Inr_iff)
        have h: "handle_response_from md5 hmac_md5 net rnd rnd' now response origin w = Inr (send_to net (ToNas (original_source e) (packet_bytes q)) ?w)"
          using Inr q r acc d by simp
        show ?thesis
        proof (cases "net (ToNas (original_source e) (packet_bytes q))")
          case None
          with h have "handle_response_from md5 hmac_md5 net rnd rnd' now response origin w =
            Inr (Inr (), ?w\<lparr>pw_sent := pw_sent w @ [ToNas (original_source e) (packet_bytes q)]\<rparr>)" by (simp add: send_to_def c)
          then show ?thesis by (rule that) (simp add: c, unfold relay_outcome_def, intro disjI2 exI [of _ q], simp add: d q')
        next
          case (Some s)
          with h have "handle_response_from md5 hmac_md5 net rnd rnd' now response origin w = Inr (Inl (ProxyIo s), ?w)" by (simp add: send_to_def)
          then show ?thesis by (rule that) (use c Some in \<open>auto simp: relay_outcome_def\<close>)
        qed
      qed
    qed
  qed
qed

lemma response_again_refused:
  assumes "last_proxy_state response \<noteq> None" "ProxyCache_get (pw_cache w) (response_key response) = None"
  shows "handle_response_from md5 hmac_md5 net rnd rnd' now response origin w = Inr (Inl CorrelationFailed, w)"
  using assms by (auto simp: handle_response_from_def response_key_def Let_def)

abbreviation is_ps :: "Attribute \<Rightarrow> bool" where
  "is_ps a \<equiv> attr_type a = AttributeType_as_u8 ProxyState"

lemma last_proxy_state_eq:
  "last_proxy_state p = (if filter is_ps (pkt_attributes p) = [] then None else Some (last (filter is_ps (pkt_attributes p))))"
proof -
  have "find is_ps (rev as) = (if filter is_ps as = [] then None else Some (last (filter is_ps as)))" for as
    by (induction as rule: rev_induct) auto
  then show ?thesis by (simp add: last_proxy_state_def)
qed

lemma echoed_proxy_states:
  assumes "filter opaque (pkt_attributes p) = filter (\<lambda>a. opaque a \<and> a \<noteq> own_proxy_state e) (pkt_attributes reply)"
    and "filter is_ps (pkt_attributes reply) = filter is_ps as @ [own_proxy_state e]"
  shows "filter is_ps (pkt_attributes p) = filter (\<lambda>a. is_ps a \<and> attr_value a \<noteq> bytes16 (proxy_state e)) as"
proof -
  have eq: "(opaque a \<and> is_ps a) = is_ps a" "(is_ps a \<and> a \<noteq> own_proxy_state e) = (is_ps a \<and> attr_value a \<noteq> bytes16 (proxy_state e))" for a
    by (cases "is_ps a"; simp add: sub_attributes_not_vsa) (cases a; auto)
  have "filter is_ps (pkt_attributes p) = filter is_ps (filter opaque (pkt_attributes p))"
    by (simp only: filter_filter eq(1))
  also have "\<dots> = filter (\<lambda>a. a \<noteq> own_proxy_state e) (filter is_ps (filter opaque (pkt_attributes reply)))"
    unfolding assms(1) by (simp only: filter_filter conj_ac)
  also have "\<dots> = filter (\<lambda>a. a \<noteq> own_proxy_state e) (filter is_ps as @ [own_proxy_state e])"
    using assms(2) by (simp only: filter_filter [of is_ps opaque] eq(1))
  also have "\<dots> = filter (\<lambda>a. is_ps a \<and> attr_value a \<noteq> bytes16 (proxy_state e)) as"
    unfolding filter_append filter_filter eq(2) by simp
  finally show ?thesis .
qed

text \<open>A request sent over UDP: the state in which the reply arrives.\<close>

lemma forward_request_udp:
  assumes "forward_request md5 hmac_md5 net clock now request source r cs w = (Inr k, w1)" "hs_transport (pw_servers w r) = Udp"
  obtains q where "rewrite_request_for_home_server md5 hmac_md5 request k cs (hs_secret (pw_servers w r)) = Inr q"
    "k = generate_proxy_state_key clock (pw_counter w)" "packet_ok q"
    "ProxyCache_get (pw_cache w1) k = Some (forwarded_entry clock now q source r cs w)"
    "pw_sent w1 = pw_sent w @ [ToHomeServer (hs_address (pw_servers w r)) (packet_bytes q)]"
    "\<exists>st. pw_servers w1 r = (pw_servers w r)\<lparr>hs_stats := st\<rparr>"
  using assms(1)
proof (cases rule: forward_request_cases)
  case (stored req c w0)
  let ?d = "\<lambda>bs. ToHomeServer (hs_address (pw_servers w r)) bs"
  have w0: "pw_servers w0 r = (pw_servers w r)\<lparr>hs_stats := record_request (hs_stats (pw_servers w r))\<rparr>"
    "pw_sent w0 = pw_sent w" "pw_cache w0 = c"
    by (simp_all add: stored(3) update_server_def)
  from stored(4) obtain bs where bs: "Packet_encode req = Inr bs"
    and k: "map_sum id (\<lambda>_. generate_proxy_state_key clock (pw_counter w)) (fst (send_to_home_server net now bs r w0)) = Inr k"
    and w1: "w1 = snd (send_to_home_server net now bs r w0)"
    by (auto split: sum.splits)
  have send: "send_to_home_server net now bs r w0 = send_to net (?d bs) w0" using assms(2) w0(1) by (simp add: send_to_home_server_def)
  have "net (?d bs) = None" using k unfolding send by (cases "net (?d bs)") (simp_all add: send_to_def)
  then have w1': "w1 = w0\<lparr>pw_sent := pw_sent w @ [?d bs]\<rparr>" and key: "k = generate_proxy_state_key clock (pw_counter w)"
    using k w1 w0(2) by (simp_all add: send send_to_def)
  have get: "ProxyCache_get c k = Some (forwarded_entry clock now req source r cs w)"
    using ProxyCache_insert_laws [OF stored(2)] key by simp
  show ?thesis
  proof (rule that [of req])
    show "rewrite_request_for_home_server md5 hmac_md5 request k cs (hs_secret (pw_servers w r)) = Inr req" using stored(1) key by simp
  qed (use bs key get w1' w0 in \<open>auto simp: Packet_encode_Inr_iff\<close>)
qed simp

section \<open>Properties\<close>



text \<open>
  C13. A response from outside is either refused or relayed once. Refused (no Proxy-State of a
  request in the table, another origin, a Response Authenticator that does not verify under the
  home server's secret): nothing changes, except that a bad authenticator on a link asks for that
  connection's reset. Accepted: the entry leaves the table, no other entry changes, and the NAS
  gets one datagram, with the home server's code and Identifier and an authenticator that verifies
  under the client's secret, or none if that exceeds 4096 octets or the socket refuses it. The
  same response arriving again, from anywhere, changes nothing.
\<close>

theorem response_relayed_once:
  assumes "packet_ok response" "length (filter is_ma (pkt_attributes response)) \<le> 1"
  shows "case response_entry md5 response origin w of
     None \<Rightarrow> handle_response_from md5 hmac_md5 net rnd rnd' now response origin w \<in>
       {Inr (Inl CorrelationFailed, w), Inr (Inl InvalidResponseAuthenticator, reset_origin_link origin w)}
   | Some e \<Rightarrow> \<exists>res w'. handle_response_from md5 hmac_md5 net rnd rnd' now response origin w = Inr (res, w')
       \<and> ProxyCache_get (pw_cache w) (response_key response) = Some e
       \<and> (\<forall>k. ProxyCache_get (pw_cache w') k = (if k = response_key response then None else ProxyCache_get (pw_cache w) k))
       \<and> relay_outcome md5 net (original_source e) (pkt_authenticator (original_request e)) (client_secret e) response
           (\<lambda>_. True) (pw_sent w) res (pw_sent w')
       \<and> handle_response_from md5 hmac_md5 net rnd rnd' now' response origin' w' = Inr (Inl CorrelationFailed, w')"
proof (cases "response_entry md5 response origin w")
  case None
  have "\<forall>a \<in> set (pkt_attributes response). attribute_ok a" using assms(1) by (simp add: packet_ok_def)
  with handle_response_refused [OF None, of hmac_md5 net rnd rnd' now] None show ?thesis by auto
next
  case (Some e)
  obtain res w' where h: "handle_response_from md5 hmac_md5 net rnd rnd' now response origin w = Inr (res, w')"
    and c: "pw_cache w' = (pw_cache w)\<lparr>pc_cache := fmdrop (response_key response) (pc_cache (pw_cache w))\<rparr>"
    and s: "relay_outcome md5 net (original_source e) (pkt_authenticator (original_request e)) (client_secret e) response
       (\<lambda>q. filter opaque (pkt_attributes q) = filter (\<lambda>a. opaque a \<and> a \<noteq> own_proxy_state e) (pkt_attributes response))
       (pw_sent w) res (pw_sent w')"
    by (rule handle_response_relays [OF assms Some])
  have "last_proxy_state response \<noteq> None" using Some by (auto simp: response_entry_def split: option.splits)
  then have "handle_response_from md5 hmac_md5 net rnd rnd' now' response origin' w' = Inr (Inl CorrelationFailed, w')"
    by (rule response_again_refused) (simp add: c ProxyCache_get_def)
  moreover have "ProxyCache_get (pw_cache w) (response_key response) = Some e"
    using handle_response_accepted(1) [OF Some] by (simp add: ProxyCache_get_def)
  moreover have "\<forall>k. ProxyCache_get (pw_cache w') k = (if k = response_key response then None else ProxyCache_get (pw_cache w) k)"
    by (simp add: c ProxyCache_get_def)
  ultimately show ?thesis using h relay_outcome_mono [OF s, of "\<lambda>_. True"] Some by simp
qed

text \<open>
  C2. A proxied exchange over UDP, from the NAS and back. If forwarding a request succeeds, exactly one
  datagram goes to the home server's address, with the request's code, Identifier and Request
  Authenticator. Whatever reply the home server sends, if it echoes the Proxy-State attributes in
  order, as RFC 2865 requires, and verifies under the home server's secret, then one datagram goes
  to the NAS's address that verifies under the NAS's secret and its Request Authenticator, has the
  reply's code and Identifier and the Proxy-State attributes of the NAS's own request, and the
  entry is gone; only a reply over 4096 octets or a socket error loses it.
\<close>

theorem proxied_exchange:
  assumes "forward_request md5 hmac_md5 net clock now request source r cs w = (Inr k, w1)" "hs_transport (pw_servers w r) = Udp"
    and "\<forall>a \<in> set (pkt_attributes request). attribute_ok a" "length (filter is_ma (pkt_attributes request)) \<le> 1"
  shows "\<exists>q. pw_sent w1 = pw_sent w @ [ToHomeServer (hs_address (pw_servers w r)) (packet_bytes q)]
     \<and> q = request\<lparr>pkt_attributes := pkt_attributes q\<rparr>
     \<and> (\<forall>reply. packet_ok reply \<and> length (filter is_ma (pkt_attributes reply)) \<le> 1
          \<and> filter is_ps (pkt_attributes reply) = filter is_ps (pkt_attributes q)
          \<and> verify_response_authenticator md5 reply (pkt_authenticator q) (hs_secret (pw_servers w r)) = Inr True \<longrightarrow>
        (\<exists>res w2. handle_response_from md5 hmac_md5 net rnd rnd' now' reply (OriginUdp (hs_address (pw_servers w r))) w1 = Inr (res, w2)
          \<and> ProxyCache_get (pw_cache w2) k = None
          \<and> relay_outcome md5 net source (pkt_authenticator request) cs reply
              (\<lambda>p. filter is_ps (pkt_attributes p) = filter (\<lambda>a. is_ps a \<and> attr_value a \<noteq> bytes16 k) (pkt_attributes request))
              (pw_sent w1) res (pw_sent w2)))"
proof -
  let ?s = "pw_servers w r"
  obtain q where rw: "rewrite_request_for_home_server md5 hmac_md5 request k cs (hs_secret ?s) = Inr q"
    and k: "k = generate_proxy_state_key clock (pw_counter w)"
    and get: "ProxyCache_get (pw_cache w1) k = Some (forwarded_entry clock now q source r cs w)"
    and sent: "pw_sent w1 = pw_sent w @ [ToHomeServer (hs_address ?s) (packet_bytes q)]"
    and srv: "\<exists>st. pw_servers w1 r = ?s\<lparr>hs_stats := st\<rparr>"
    by (rule forward_request_udp [OF assms(1,2)])
  let ?e = "forwarded_entry clock now q source r cs w" and ?ps = "\<lparr>attr_type = AttributeType_as_u8 ProxyState, attr_value = bytes16 k\<rparr>"
  note rk = request_rekeyed [OF assms(3,4), of md5 cs "hs_secret ?s" k hmac_md5]
  have q: "q = request\<lparr>pkt_attributes := pkt_attributes q\<rparr>" using rk rw by simp
  have "filter (\<lambda>a. \<not> is_ma a \<and> \<not> is_up a) (pkt_attributes q) = filter (\<lambda>a. \<not> is_ma a \<and> \<not> is_up a) (pkt_attributes request @ [?ps])"
    using rk rw by simp
  from filter_mono_eq [OF this, of is_ps] have ps: "filter is_ps (pkt_attributes q) = filter is_ps (pkt_attributes request) @ [?ps]" by simp
  have auth: "pkt_authenticator q = pkt_authenticator request" by (subst q) simp
  have "\<exists>res w2. handle_response_from md5 hmac_md5 net rnd rnd' now' reply (OriginUdp (hs_address ?s)) w1 = Inr (res, w2)
      \<and> ProxyCache_get (pw_cache w2) k = None
      \<and> relay_outcome md5 net source (pkt_authenticator request) cs reply
          (\<lambda>p. filter is_ps (pkt_attributes p) = filter (\<lambda>a. is_ps a \<and> attr_value a \<noteq> bytes16 k) (pkt_attributes request))
          (pw_sent w1) res (pw_sent w2)"
    if reply: "packet_ok reply" "length (filter is_ma (pkt_attributes reply)) \<le> 1"
      "filter is_ps (pkt_attributes reply) = filter is_ps (pkt_attributes q)"
      "verify_response_authenticator md5 reply (pkt_authenticator q) (hs_secret ?s) = Inr True" for reply
  proof -
    have last: "last_proxy_state reply = Some ?ps" by (simp add: last_proxy_state_eq reply(3) ps)
    then have key: "response_key reply = k" by (simp add: response_key_def)
    have "response_entry md5 reply (OriginUdp (hs_address ?s)) w1 = Some ?e"
      using last get srv assms(2) reply(4) by (auto simp: response_entry_def from_expected_def)
    then obtain res w2 where
      h: "handle_response_from md5 hmac_md5 net rnd rnd' now' reply (OriginUdp (hs_address ?s)) w1 = Inr (res, w2)"
      and c: "pw_cache w2 = (pw_cache w1)\<lparr>pc_cache := fmdrop (response_key reply) (pc_cache (pw_cache w1))\<rparr>"
      and s: "relay_outcome md5 net (original_source ?e) (pkt_authenticator (original_request ?e)) (client_secret ?e) reply
        (\<lambda>q. filter opaque (pkt_attributes q) = filter (\<lambda>a. opaque a \<and> a \<noteq> own_proxy_state ?e) (pkt_attributes reply))
        (pw_sent w1) res (pw_sent w2)"
      by (rule handle_response_relays [OF reply(1,2)])
    have "filter is_ps (pkt_attributes p) = filter (\<lambda>a. is_ps a \<and> attr_value a \<noteq> bytes16 k) (pkt_attributes request)"
      if "filter opaque (pkt_attributes p) = filter (\<lambda>a. opaque a \<and> a \<noteq> own_proxy_state ?e) (pkt_attributes reply)" for p
      using echoed_proxy_states [OF that] reply(3) ps by (simp add: k)
    from relay_outcome_mono [OF s this] h c key show ?thesis by (simp add: auth ProxyCache_get_def)
  qed
  with sent q show ?thesis by blast
qed



section \<open>A concrete proxy\<close>

definition sample_server :: HomeServer where
  "sample_server = \<lparr>hs_name = ''home'', hs_address = SocketAddrV4 1 1812, hs_secret = [2], hs_timeout = 5, max_outstanding = 10,
     hs_transport = Udp, hs_link = None, hs_state = ServerUp, hs_stats = HomeServerStats_default\<rparr>"

definition sample_world :: ProxyWorld where
  "sample_world = \<lparr>pw_servers = (\<lambda>_. sample_server), pw_cache = ProxyCache_new 30 10, pw_counter = 0, pw_sent = []\<rparr>"

definition sample_request :: Packet where
  "sample_request = Packet_new AccessRequest 1 (arr16_of [])"

definition sample_key :: ProxyStateKey where
  "sample_key = generate_proxy_state_key 7 0"

definition sample_forwarded :: Packet where
  "sample_forwarded = sample_request\<lparr>pkt_attributes := [\<lparr>attr_type = AttributeType_as_u8 ProxyState, attr_value = bytes16 sample_key\<rparr>]\<rparr>"

definition sample_world1 :: ProxyWorld where
  "sample_world1 = update_stats 0 record_request (sample_world\<lparr>pw_counter := 1,
     pw_cache := (ProxyCache_new 30 10)\<lparr>pc_cache := fmupd sample_key (forwarded_entry 7 3 sample_forwarded (SocketAddrV4 9 1645) 0 [1] sample_world) fmempty\<rparr>,
     pw_sent := [ToHomeServer (SocketAddrV4 1 1812) (packet_bytes sample_forwarded)]\<rparr>)"

definition sample_reply :: Packet where
  "sample_reply = sample_forwarded\<lparr>pkt_code := AccessAccept\<rparr>"

abbreviation md5_0 :: "bytes \<Rightarrow> arr16" where "md5_0 \<equiv> (\<lambda>_. arr16_of [])"

abbreviation hmac_0 :: "bytes \<Rightarrow> bytes \<Rightarrow> arr16" where "hmac_0 \<equiv> (\<lambda>_ _. arr16_of [])"

abbreviation net_0 :: net where "net_0 \<equiv> (\<lambda>_. None)"

lemma sample_forwarded_ok: "packet_ok sample_forwarded" "packet_ok sample_reply"
  by (simp_all add: sample_reply_def sample_forwarded_def sample_request_def Packet_new_def packet_ok_def Packet_length_eq attribute_ok_def
      encoded_length_def attr_consts pkt_consts)

lemma sample_forward:
  "forward_request md5_0 hmac_0 net_0 7 3 sample_request (SocketAddrV4 9 1645) 0 [1] sample_world = (Inr sample_key, sample_world1)"
proof -
  have "rewrite_request_for_home_server md5_0 hmac_0 sample_request sample_key [1] [2] = Inr sample_forwarded"
    by (simp add: rewrite_request_for_home_server_def sample_request_def sample_forwarded_def Packet_new_def Attribute_new_def attr_consts
        add_attribute_def recompute_eq Let_def)
  moreover have "Packet_encode sample_forwarded = Inr (packet_bytes sample_forwarded)"
    using sample_forwarded_ok by (simp add: Packet_encode_Inr_iff)
  moreover have "ProxyCache_insert (ProxyCache_new 30 10) (forwarded_entry 7 3 sample_forwarded (SocketAddrV4 9 1645) 0 [1] sample_world) =
      (Inr (), (ProxyCache_new 30 10)\<lparr>pc_cache := fmupd sample_key (forwarded_entry 7 3 sample_forwarded (SocketAddrV4 9 1645) 0 [1] sample_world) fmempty\<rparr>)"
    by (simp add: ProxyCache_insert_def ProxyCache_new_def ProxyCache_len_def fcard.rep_eq sample_key_def sample_world_def)
  ultimately show ?thesis
    by (simp add: forward_request_def sample_world_def sample_server_def forwarded_entry_def sample_request_def MAX_PROXY_STATE_ATTRIBUTES_def
        Packet_new_def sample_key_def sample_world1_def send_to_home_server_def send_to_def update_server_def Let_def)
qed

lemma sample_entry:
  "ProxyCache_get (pw_cache sample_world1) sample_key = Some (forwarded_entry 7 3 sample_forwarded (SocketAddrV4 9 1645) 0 [1] sample_world)"
  by (simp add: sample_world1_def ProxyCache_get_def)

lemma sample_response_entry:
  "response_entry md5_0 sample_reply (OriginUdp (SocketAddrV4 1 1812)) sample_world1 =
     Some (forwarded_entry 7 3 sample_forwarded (SocketAddrV4 9 1645) 0 [1] sample_world)"
proof -
  have "last_proxy_state sample_reply = Some \<lparr>attr_type = AttributeType_as_u8 ProxyState, attr_value = bytes16 sample_key\<rparr>"
    by (simp add: last_proxy_state_def sample_reply_def sample_forwarded_def)
  moreover have "verify_response_authenticator md5_0 sample_reply ra secret = Inr True" for ra secret
    using sample_forwarded_ok(2) by (simp add: verify_response_authenticator_def calculate_response_authenticator_def append_attributes_ok
        packet_ok_def constant_time_eq_iff Let_def) (simp add: sample_reply_def sample_forwarded_def sample_request_def Packet_new_def)
  moreover have "pw_servers sample_world1 0 = sample_server\<lparr>hs_stats := record_request HomeServerStats_default\<rparr>"
    by (simp add: sample_world1_def sample_world_def update_server_def sample_server_def)
  ultimately show ?thesis
    using sample_entry by (simp add: response_entry_def from_expected_def sample_server_def)
qed

lemma sample_inv: "proxy_inv sample_world1"
proof (rule forward_request_inv [OF _ _ sample_forward])
  show "proxy_inv sample_world"
    unfolding sample_world_def by (rule proxy_inv_start) (simp_all add: sample_server_def HomeServerStats_default_def)
qed (simp add: sample_world_def)



theorem response_relayed_once_witness:
  "\<exists>res w'. handle_response_from md5_0 hmac_0 net_0 5 6 4 sample_reply (OriginUdp (SocketAddrV4 1 1812)) sample_world1 = Inr (res, w')
     \<and> handle_response_from md5_0 hmac_0 net_0 5 6 4 sample_reply (OriginUdp (SocketAddrV4 1 1812)) w' = Inr (Inl CorrelationFailed, w')"
proof -
  have "length (filter is_ma (pkt_attributes sample_reply)) \<le> 1" by (simp add: sample_reply_def sample_forwarded_def)
  from response_relayed_once [OF sample_forwarded_ok(2) this, where ?md5.0 = md5_0 and origin = "OriginUdp (SocketAddrV4 1 1812)" and w = sample_world1
      and ?hmac_md5.0 = hmac_0 and net = net_0 and rnd = 5 and rnd' = 6 and now = 4 and now' = 4 and origin' = "OriginUdp (SocketAddrV4 1 1812)"]
  show ?thesis by (auto simp: sample_response_entry)
qed

theorem proxied_exchange_witness:
  "\<exists>q. pw_sent sample_world1 = [ToHomeServer (SocketAddrV4 1 1812) (packet_bytes q)] \<and> pkt_identifier q = 1"
proof -
  from proxied_exchange [OF sample_forward, of 5 6 4] obtain q where
    "pw_sent sample_world1 = [ToHomeServer (SocketAddrV4 1 1812) (packet_bytes q)]" and q: "q = sample_request\<lparr>pkt_attributes := pkt_attributes q\<rparr>"
    by (auto simp: sample_request_def Packet_new_def sample_world_def sample_server_def)
  moreover have "pkt_identifier q = 1" by (subst q) (simp add: sample_request_def Packet_new_def)
  ultimately show ?thesis by blast
qed

definition sample_oversized :: Packet where
  "sample_oversized = sample_request\<lparr>pkt_attributes := replicate 16 \<lparr>attr_type = AttributeType_as_u8 ReplyMessage, attr_value = replicate 252 0\<rparr>\<rparr>"



end
