(* ===== verification/Proxy_Health.thy ===== *)
theory Proxy_Health
  imports Server_Messages Home_Servers
begin

text \<open>
  Health checks of home servers (\<open>proxy/health.rs\<close>): the Status-Server probe and the checks on its
  reply, the probe over UDP and over a RadSec link with the connection watchdog, the counters and
  the transitions of a server's state. What a socket or the link delivers until the deadline is a
  list; random values are parameters. The counters stand beside the home server they belong to.
\<close>

section \<open>Counters\<close>

record HealthCheckConfig =
  hc_enabled :: bool
  hc_interval :: u64
  hc_timeout :: u64
  failures_before_down :: u8
  successes_before_up :: u8

definition HealthCheckConfig_default :: HealthCheckConfig where
  "HealthCheckConfig_default =
     \<lparr>hc_enabled = True, hc_interval = 30, hc_timeout = 10, failures_before_down = 3, successes_before_up = 2\<rparr>"

record HealthCheckStats =
  total_checks :: u64
  total_successes :: u64
  total_failures :: u64
  consecutive_failures :: u64
  consecutive_successes :: u64
  watchdog_misses :: "u64 \<times> u64"

definition HealthCheckStats_new :: HealthCheckStats where
  "HealthCheckStats_new =
     \<lparr>total_checks = 0, total_successes = 0, total_failures = 0, consecutive_failures = 0, consecutive_successes = 0,
      watchdog_misses = (0, 0)\<rparr>"

definition record_success :: "HealthCheckStats \<Rightarrow> HealthCheckStats" where
  "record_success s =
     s\<lparr>total_checks := total_checks s + 1, total_successes := total_successes s + 1,
       consecutive_successes := consecutive_successes s + 1, consecutive_failures := 0,
       watchdog_misses := (fst (watchdog_misses s), 0)\<rparr>"

definition record_watchdog_miss :: "u64 \<Rightarrow> HealthCheckStats \<Rightarrow> u64 \<times> HealthCheckStats" where
  "record_watchdog_miss generation s =
     (let misses = (if fst (watchdog_misses s) \<noteq> generation then (generation, 0) else watchdog_misses s);
          misses = (fst misses, snd misses + 1)
      in (snd misses, s\<lparr>watchdog_misses := misses\<rparr>))"

definition record_failure :: "HealthCheckStats \<Rightarrow> HealthCheckStats" where
  "record_failure s =
     s\<lparr>total_checks := total_checks s + 1, total_failures := total_failures s + 1,
       consecutive_failures := consecutive_failures s + 1, consecutive_successes := 0\<rparr>"

section \<open>The probe and its reply\<close>

definition build_probe_with :: "(bytes \<Rightarrow> bytes \<Rightarrow> arr16) \<Rightarrow> bytes \<Rightarrow> u8 \<Rightarrow> arr16 \<Rightarrow> PacketError + bytes" where
  "build_probe_with hmac_md5 secret identifier request_auth =
     res_bind (Attribute_new MA_TYPE (replicate 16 0)) (\<lambda>a.
       let request = add_attribute (Packet_new StatusServer identifier request_auth) a
       in res_bind (Packet_encode request) (\<lambda>bs.
         let mac = calculate_message_authenticator hmac_md5 bs secret;
             request = request\<lparr>pkt_attributes := update_first is_ma (\<lambda>a. a\<lparr>attr_value := bytes16 mac\<rparr>) (pkt_attributes request)\<rparr>
         in Packet_encode request))"

text \<open>\<open>build_probe\<close> draws the Request Authenticator and the Identifier.\<close>

definition build_probe :: "(bytes \<Rightarrow> bytes \<Rightarrow> arr16) \<Rightarrow> arr16 \<Rightarrow> u8 \<Rightarrow> bytes \<Rightarrow> PacketError + (bytes \<times> u8 \<times> arr16)" where
  "build_probe hmac_md5 rnd_auth rnd_id secret =
     res_bind (build_probe_with hmac_md5 secret rnd_id rnd_auth) (\<lambda>bs. Inr (bs, rnd_id, rnd_auth))"

datatype ProbeReject = RejectIdentifier | RejectCode | RejectResponseAuthenticator | RejectMessageAuthenticator | RejectEncode

definition closes_connection :: "ProbeReject \<Rightarrow> bool" where
  "closes_connection r \<longleftrightarrow> r \<in> {RejectResponseAuthenticator, RejectMessageAuthenticator}"

fun ProbeReject_fmt :: "ProbeReject \<Rightarrow> string" where
  "ProbeReject_fmt RejectIdentifier = ''Identifier''"
| "ProbeReject_fmt RejectCode = ''Code''"
| "ProbeReject_fmt RejectResponseAuthenticator = ''Response Authenticator''"
| "ProbeReject_fmt RejectMessageAuthenticator = ''Message-Authenticator''"
| "ProbeReject_fmt RejectEncode = ''re-encode''"

definition verify_probe_packet ::
    "(bytes \<Rightarrow> arr16) \<Rightarrow> (bytes \<Rightarrow> bytes \<Rightarrow> arr16) \<Rightarrow> HomeServer \<Rightarrow> Packet \<Rightarrow> u8 \<Rightarrow> arr16 \<Rightarrow> panic + (ProbeReject + Code)" where
  "verify_probe_packet md5 hmac_md5 server response identifier request_auth =
     (if pkt_identifier response \<noteq> identifier then Inr (Inl RejectIdentifier)
      else if pkt_code response \<notin> {AccessAccept, AccessReject, AccountingResponse} then Inr (Inl RejectCode)
      else res_bind (verify_response_authenticator md5 response request_auth (hs_secret server)) (\<lambda>ok.
        if \<not> ok then Inr (Inl RejectResponseAuthenticator)
        else Inr (case check_message_authenticator hmac_md5 response request_auth (hs_secret server) of
                    Inr Valid \<Rightarrow> Inr (pkt_code response)
                  | Inr Absent \<Rightarrow> Inr (pkt_code response)
                  | Inr Invalid \<Rightarrow> Inl RejectMessageAuthenticator
                  | Inl _ \<Rightarrow> Inl RejectEncode)))"

definition same_peer :: "SocketAddr \<Rightarrow> SocketAddr \<Rightarrow> bool" where
  "same_peer actual expected \<longleftrightarrow>
     sock_port actual = sock_port expected \<and> to_canonical (sock_ip actual) = to_canonical (sock_ip expected)"

definition verify_probe_reply ::
    "(bytes \<Rightarrow> arr16) \<Rightarrow> (bytes \<Rightarrow> bytes \<Rightarrow> arr16) \<Rightarrow> HomeServer \<Rightarrow> bytes \<Rightarrow> SocketAddr \<Rightarrow> u8 \<Rightarrow> arr16 \<Rightarrow> panic + Code option" where
  "verify_probe_reply md5 hmac_md5 server bs src identifier request_auth =
     (if \<not> same_peer src (hs_address server) then Inr None
      else case Packet_decode bs of
             Inl _ \<Rightarrow> Inr None
           | Inr response \<Rightarrow> res_bind (verify_probe_packet md5 hmac_md5 server response identifier request_auth) (\<lambda>r. Inr (res_ok r)))"

section \<open>Probing over UDP\<close>

text \<open>What the probe's socket yields, into a buffer of 4096 octets: datagrams, then a socket error or the deadline.\<close>

fun await_udp ::
    "(bytes \<Rightarrow> arr16) \<Rightarrow> (bytes \<Rightarrow> bytes \<Rightarrow> arr16) \<Rightarrow> HomeServer \<Rightarrow> u8 \<Rightarrow> arr16 \<Rightarrow> (bytes \<times> SocketAddr) list \<Rightarrow> panic + Code option" where
  "await_udp md5 hmac_md5 server identifier request_auth [] = Inr None"
| "await_udp md5 hmac_md5 server identifier request_auth ((bs, src) # rest) =
     res_bind (verify_probe_reply md5 hmac_md5 server (take 4096 bs) src identifier request_auth) (\<lambda>r.
       case r of Some code \<Rightarrow> Inr (Some code) | None \<Rightarrow> await_udp md5 hmac_md5 server identifier request_auth rest)"

text \<open>\<open>bound\<close> and \<open>sent\<close> say whether binding the socket and sending succeed.\<close>

definition probe_over_udp ::
    "(bytes \<Rightarrow> arr16) \<Rightarrow> (bytes \<Rightarrow> bytes \<Rightarrow> arr16) \<Rightarrow> arr16 \<Rightarrow> u8 \<Rightarrow> bool \<Rightarrow> (bytes \<Rightarrow> bool) \<Rightarrow> (bytes \<times> SocketAddr) list
     \<Rightarrow> HomeServer \<Rightarrow> HealthCheckStats \<Rightarrow> panic + HealthCheckStats" where
  "probe_over_udp md5 hmac_md5 rnd_auth rnd_id bound sent received server stats =
     (if \<not> bound then Inr (record_failure stats)
      else case build_probe hmac_md5 rnd_auth rnd_id (hs_secret server) of
             Inl _ \<Rightarrow> Inr (record_failure stats)
           | Inr (request_data, identifier, request_auth) \<Rightarrow>
               if \<not> sent request_data then Inr (record_failure stats)
               else res_bind (await_udp md5 hmac_md5 server identifier request_auth received) (\<lambda>r.
                 Inr (case r of Some _ \<Rightarrow> record_success stats | None \<Rightarrow> record_failure stats)))"

section \<open>Probing over a RadSec link\<close>

datatype ProbeOutcome = Verified Code | LinkLost | PeerFault ProbeReject | TimedOut

text \<open>Replies handed over by the link until the probe's channel closes (\<open>lost\<close>) or the deadline passes.\<close>

fun await_link ::
    "(bytes \<Rightarrow> arr16) \<Rightarrow> (bytes \<Rightarrow> bytes \<Rightarrow> arr16) \<Rightarrow> HomeServer \<Rightarrow> u8 \<Rightarrow> arr16 \<Rightarrow> bool \<Rightarrow> Packet list \<Rightarrow> panic + ProbeOutcome" where
  "await_link md5 hmac_md5 server identifier request_auth lost [] = Inr (if lost then LinkLost else TimedOut)"
| "await_link md5 hmac_md5 server identifier request_auth lost (reply # rest) =
     res_bind (verify_probe_packet md5 hmac_md5 server reply identifier request_auth) (\<lambda>r.
       case r of
         Inr code \<Rightarrow> Inr (Verified code)
       | Inl reject \<Rightarrow> if closes_connection reject then Inr (PeerFault reject)
                       else await_link md5 hmac_md5 server identifier request_auth lost rest)"

text \<open>Before the wait: the registered link, the Identifier and the generation, or the counters at an early return.\<close>

definition start_link_probe ::
    "(bytes \<Rightarrow> bytes \<Rightarrow> arr16) \<Rightarrow> nat \<Rightarrow> arr16 \<Rightarrow> u64 \<Rightarrow> instant \<Rightarrow> HomeServer \<Rightarrow> RadsecLink \<Rightarrow> HealthCheckStats
     \<Rightarrow> (HealthCheckStats + (u8 \<times> u64)) \<times> RadsecLink" where
  "start_link_probe hmac_md5 rnd request_auth token now server l stats =
     (case free_identifier rnd now l of
        None \<Rightarrow> (Inl stats, l)
      | Some identifier \<Rightarrow>
        (case build_probe_with hmac_md5 (hs_secret server) identifier request_auth of
           Inl _ \<Rightarrow> (Inl (record_failure stats), l)
         | Inr request_data \<Rightarrow>
           (case register_probe token l identifier of
              (Inl _, l) \<Rightarrow> (Inl (record_failure stats), l)
            | (Inr _, l) \<Rightarrow>
                let generation = connections l
                in (case link_send now l request_data of
                      (Inl _, l) \<Rightarrow> (Inl (record_failure stats), drop_probe token l identifier)
                    | (Inr _, l) \<Rightarrow> (Inr (identifier, generation), l)))))"

definition peer_fault_reason :: "ProbeReject \<Rightarrow> string" where
  "peer_fault_reason reject = ''Status-Server reply failed the '' @ ProbeReject_fmt reject @ '' check (RFC 6613 ''
     @ [CHR 0xC2, CHR 0xA7] @ ''2.6.4)''"

definition watchdog_reason :: string where
  "watchdog_reason = ''watchdog: two Status-Server probes unanswered (RFC 3539 '' @ [CHR 0xC2, CHR 0xA7] @ ''3.4)''"

text \<open>After the wait; \<open>l\<close> is the link as it is then.\<close>

definition finish_link_probe :: "u64 \<Rightarrow> ProbeOutcome \<Rightarrow> RadsecLink \<Rightarrow> HealthCheckStats \<Rightarrow> HealthCheckStats \<times> RadsecLink" where
  "finish_link_probe generation outcome l stats =
     (case outcome of
        Verified code \<Rightarrow> (record_success stats, l)
      | LinkLost \<Rightarrow> (record_failure stats, l)
      | PeerFault reject \<Rightarrow>
          let l = link_reset l generation (peer_fault_reason reject) in (record_failure stats, l)
      | TimedOut \<Rightarrow>
          (case record_watchdog_miss generation stats of
             (misses, stats) \<Rightarrow>
               let stats = record_failure stats
               in (stats, if misses \<ge> 2 then link_reset l generation watchdog_reason else l)))"

text \<open>
  What one probe meets: the random values, the clock and the token, what the socket does, and for a
  link the replies, whether the channel closes before the deadline, and what the link task and the
  other users of the link do to it during the wait.
\<close>

record probe_env =
  pe_auth :: arr16
  pe_id :: u8
  pe_choice :: nat
  pe_token :: u64
  pe_now :: instant
  pe_bound :: bool
  pe_sent :: "bytes \<Rightarrow> bool"
  pe_received :: "(bytes \<times> SocketAddr) list"
  pe_replies :: "Packet list"
  pe_lost :: bool
  pe_meanwhile :: "RadsecLink \<Rightarrow> RadsecLink"

definition probe_over_link ::
    "(bytes \<Rightarrow> arr16) \<Rightarrow> (bytes \<Rightarrow> bytes \<Rightarrow> arr16) \<Rightarrow> probe_env \<Rightarrow> HomeServer \<Rightarrow> RadsecLink \<Rightarrow> HealthCheckStats
     \<Rightarrow> panic + (HealthCheckStats \<times> RadsecLink)" where
  "probe_over_link md5 hmac_md5 e server l stats =
     (case start_link_probe hmac_md5 (pe_choice e) (pe_auth e) (pe_token e) (pe_now e) server l stats of
        (Inl stats, l) \<Rightarrow> Inr (stats, l)
      | (Inr (identifier, generation), l) \<Rightarrow>
          res_bind (await_link md5 hmac_md5 server identifier (pe_auth e) (pe_lost e) (pe_replies e)) (\<lambda>outcome.
            case finish_link_probe generation outcome (pe_meanwhile e l) stats of
              (stats, l) \<Rightarrow> Inr (stats, drop_probe (pe_token e) l identifier)))"

text \<open>\<open>tls\<close> says whether the feature is compiled in.\<close>

definition check_server_health ::
    "bool \<Rightarrow> (bytes \<Rightarrow> arr16) \<Rightarrow> (bytes \<Rightarrow> bytes \<Rightarrow> arr16) \<Rightarrow> probe_env \<Rightarrow> HomeServer \<Rightarrow> HealthCheckStats
     \<Rightarrow> panic + (HealthCheckStats \<times> HomeServer)" where
  "check_server_health tls md5 hmac_md5 e server stats =
     (case hs_transport server of
        Udp \<Rightarrow> res_bind (probe_over_udp md5 hmac_md5 (pe_auth e) (pe_id e) (pe_bound e) (pe_sent e) (pe_received e) server stats)
                 (\<lambda>stats. Inr (stats, server))
      | Radsec \<Rightarrow>
          if tls then
            (case hs_link server of
               Some l \<Rightarrow> res_bind (probe_over_link md5 hmac_md5 e server l stats) (\<lambda>(stats, l).
                 Inr (stats, server\<lparr>hs_link := Some l\<rparr>))
             | None \<Rightarrow> Inr (record_failure stats, server))
          else Inr (record_failure stats, server))"

section \<open>Server state\<close>

definition update_server_state :: "u8 \<Rightarrow> u8 \<Rightarrow> HealthCheckStats \<Rightarrow> HomeServer \<Rightarrow> HomeServer" where
  "update_server_state down_after up_after stats server =
     (case hs_state server of
        ServerUp \<Rightarrow> if consecutive_failures stats \<ge> ucast down_after then mark_down server else server
      | ServerDown \<Rightarrow> if consecutive_successes stats \<ge> ucast up_after then mark_up server else server
      | ServerDead \<Rightarrow> if consecutive_successes stats \<ge> ucast up_after then mark_up server else server)"

text \<open>
  One tick of the background task for one server. The probe runs in a task of its own whose result
  is ignored, so a panic there would leave the counters as they were; replies are decoded packets, which never cause one.
\<close>

definition health_round ::
    "bool \<Rightarrow> (bytes \<Rightarrow> arr16) \<Rightarrow> (bytes \<Rightarrow> bytes \<Rightarrow> arr16) \<Rightarrow> HealthCheckConfig \<Rightarrow> probe_env
     \<Rightarrow> HealthCheckStats \<times> HomeServer \<Rightarrow> HealthCheckStats \<times> HomeServer" where
  "health_round tls md5 hmac_md5 config e s =
     (let (stats, server) = (case check_server_health tls md5 hmac_md5 e (snd s) (fst s) of Inl _ \<Rightarrow> s | Inr s \<Rightarrow> s)
      in (stats, update_server_state (failures_before_down config) (successes_before_up config) stats server))"

section \<open>What makes a probe succeed\<close>

text \<open>The reply a probe is waiting for, stated on the datagram.\<close>

definition genuine_packet :: "(bytes \<Rightarrow> arr16) \<Rightarrow> (bytes \<Rightarrow> bytes \<Rightarrow> arr16) \<Rightarrow> bytes \<Rightarrow> u8 \<Rightarrow> arr16 \<Rightarrow> Packet \<Rightarrow> bool" where
  "genuine_packet md5 hmac_md5 secret ident ra p \<longleftrightarrow>
     pkt_identifier p = ident \<and> pkt_code p \<in> {AccessAccept, AccessReject, AccountingResponse} \<and>
     pkt_authenticator p = md5 (packet_bytes (p\<lparr>pkt_authenticator := ra\<rparr>) @ secret) \<and>
     (filter is_ma (pkt_attributes p) = [] \<or> ma_genuine hmac_md5 p ra secret)"

definition genuine_reply ::
    "(bytes \<Rightarrow> arr16) \<Rightarrow> (bytes \<Rightarrow> bytes \<Rightarrow> arr16) \<Rightarrow> HomeServer \<Rightarrow> u8 \<Rightarrow> arr16 \<Rightarrow> bytes \<times> SocketAddr \<Rightarrow> bool" where
  "genuine_reply md5 hmac_md5 server ident ra d \<longleftrightarrow>
     same_peer (snd d) (hs_address server) \<and>
     (\<exists>p. Packet_decode (take 4096 (fst d)) = Inr p \<and> genuine_packet md5 hmac_md5 (hs_secret server) ident ra p)"

lemma packet_ok_authenticator [simp]: "packet_ok (p\<lparr>pkt_authenticator := ra\<rparr>) \<longleftrightarrow> packet_ok p"
  by (simp add: packet_ok_def)

lemma verify_response_ok:
  assumes "packet_ok p"
  shows "verify_response_authenticator md5 p ra secret =
     Inr (pkt_authenticator p = md5 (packet_bytes (p\<lparr>pkt_authenticator := ra\<rparr>) @ secret))"
proof -
  have "Packet_encode (p\<lparr>pkt_authenticator := ra\<rparr>) = Inr (packet_bytes (p\<lparr>pkt_authenticator := ra\<rparr>))"
    using assms by (simp add: res_simps)
  from calculate_response_encode [OF this] show ?thesis
    by (simp add: verify_response_authenticator_def constant_time_eq_iff bytes16_inject)
qed

lemma verify_probe_packet_ok:
  assumes "packet_ok p"
  shows "\<exists>r. verify_probe_packet md5 hmac_md5 server p ident ra = Inr r \<and>
     res_ok r = (if genuine_packet md5 hmac_md5 (hs_secret server) ident ra p then Some (pkt_code p) else None)"
proof -
  obtain c where c: "check_message_authenticator hmac_md5 p ra (hs_secret server) = Inr c"
    using check_message_authenticator_total [OF assms] by blast
  have "c \<noteq> Invalid \<longleftrightarrow> filter is_ma (pkt_attributes p) = [] \<or> ma_genuine hmac_md5 p ra (hs_secret server)"
    using check_message_authenticator_Valid [OF assms, of hmac_md5 ra "hs_secret server"]
      check_message_authenticator_Absent [of hmac_md5 p ra "hs_secret server"] c
    by (cases c) auto
  then show ?thesis
    by (cases c) (simp_all add: verify_probe_packet_def genuine_packet_def verify_response_ok [OF assms] c res_ok_def)
qed

lemma verify_probe_reply_iff:
  "\<exists>r. verify_probe_reply md5 hmac_md5 server (take 4096 bs) src ident ra = Inr r \<and>
     (r \<noteq> None \<longleftrightarrow> genuine_reply md5 hmac_md5 server ident ra (bs, src))"
proof (cases "Packet_decode (take 4096 bs)")
  case (Inr p)
  then have "packet_ok p" using Packet_decode_canonical by blast
  from verify_probe_packet_ok [OF this, of md5 hmac_md5 server ident ra] Inr
  show ?thesis by (auto simp: verify_probe_reply_def genuine_reply_def)
qed (simp add: verify_probe_reply_def genuine_reply_def)

lemma await_udp_iff:
  "\<exists>r. await_udp md5 hmac_md5 server ident ra received = Inr r \<and>
     (r \<noteq> None \<longleftrightarrow> (\<exists>d \<in> set received. genuine_reply md5 hmac_md5 server ident ra d))"
proof (induction received)
  case (Cons d received)
  obtain bs src where d: "d = (bs, src)" by (cases d)
  from verify_probe_reply_iff [of md5 hmac_md5 server bs src ident ra] Cons show ?case
    unfolding d by (auto split: option.splits)
qed simp

text \<open>The probe's own packet: always built, never longer than 38 octets, and accepted by the receiver's check.\<close>

definition probe_packet :: "(bytes \<Rightarrow> bytes \<Rightarrow> arr16) \<Rightarrow> bytes \<Rightarrow> u8 \<Rightarrow> arr16 \<Rightarrow> Packet" where
  "probe_packet hmac_md5 secret ident ra =
     (let p = \<lparr>pkt_code = StatusServer, pkt_identifier = ident, pkt_authenticator = ra, pkt_attributes = []\<rparr>
      in p\<lparr>pkt_attributes := [\<lparr>attr_type = MA_TYPE, attr_value = bytes16 (hmac_md5 secret
            (packet_bytes (p\<lparr>pkt_attributes := [\<lparr>attr_type = MA_TYPE, attr_value = replicate 16 0\<rparr>]\<rparr>)))\<rparr>]\<rparr>)"

lemma probe_packet_ok: "packet_ok (probe_packet hmac_md5 secret ident ra)"
  by (simp add: probe_packet_def packet_ok_def attribute_ok_def Packet_length_eq encoded_length_def attr_consts pkt_consts Let_def)

lemma build_probe_with_eq:
  "build_probe_with hmac_md5 secret ident ra = Inr (packet_bytes (probe_packet hmac_md5 secret ident ra))"
proof -
  let ?p = "\<lparr>pkt_code = StatusServer, pkt_identifier = ident, pkt_authenticator = ra,
    pkt_attributes = [\<lparr>attr_type = MA_TYPE, attr_value = replicate 16 0\<rparr>]\<rparr>"
  have "packet_ok ?p"
    by (simp add: packet_ok_def attribute_ok_def Packet_length_eq encoded_length_def attr_consts pkt_consts)
  then have "Packet_encode ?p = Inr (packet_bytes ?p)" by (simp add: res_simps)
  moreover have "Packet_encode (probe_packet hmac_md5 secret ident ra) =
      Inr (packet_bytes (probe_packet hmac_md5 secret ident ra))"
    using probe_packet_ok by (simp add: res_simps)
  ultimately show ?thesis
    by (simp add: build_probe_with_def Attribute_new_def Packet_new_def add_attribute_def attr_consts
        calculate_message_authenticator_def probe_packet_def Let_def)
qed

lemma udp_probe_verdict_eq:
  "probe_over_udp md5 hmac_md5 ra ident bound sent received server stats =
     Inr (if bound \<and> sent (packet_bytes (probe_packet hmac_md5 (hs_secret server) ident ra)) \<and>
             (\<exists>d. d \<in> set received \<and> genuine_reply md5 hmac_md5 server ident ra d)
          then record_success stats else record_failure stats)"
  using await_udp_iff [of md5 hmac_md5 server ident ra received]
  by (auto simp: probe_over_udp_def build_probe_def build_probe_with_eq split: option.splits)

text \<open>
  C32. A UDP probe that can be sent counts as a success exactly if one of the datagrams that arrive
  before the deadline is genuine: it comes from the home server's address, answers this probe, has
  the Response Authenticator for the shared secret, and carries no Message-Authenticator or a
  single right one. No other datagram, in whatever number and order, changes the result.
\<close>

theorem udp_probe_verdict:
  "probe_over_udp md5 hmac_md5 ra ident bound sent received server stats =
     Inr (if bound \<and> sent (packet_bytes (probe_packet hmac_md5 (hs_secret server) ident ra)) \<and>
             (\<exists>d. d \<in> set received \<and> genuine_reply md5 hmac_md5 server ident ra d)
          then record_success stats else record_failure stats)"
  by (rule udp_probe_verdict_eq)

section \<open>The watchdog of a connection\<close>

text \<open>The counters after a list of probes on the link, each with the connection it went out on.\<close>

definition after_probes :: "(u64 \<times> ProbeOutcome) list \<Rightarrow> HealthCheckStats" where
  "after_probes h = foldl (\<lambda>s (g, out). fst (finish_link_probe g out (link_new 1 0) s)) HealthCheckStats_new h"

definition answered_or_missed :: "(u64 \<times> ProbeOutcome) list \<Rightarrow> (u64 \<times> ProbeOutcome) list" where
  "answered_or_missed h = filter (\<lambda>(g, out). out = TimedOut \<or> (\<exists>code. out = Verified code)) h"

lemma finish_link_probe_stats:
  "fst (finish_link_probe g out l s) = fst (finish_link_probe g out l' s)"
  by (simp add: finish_link_probe_def Let_def split: ProbeOutcome.split prod.split)

lemma watchdog_misses_record [simp]:
  "watchdog_misses (record_failure s) = watchdog_misses s"
  "watchdog_misses (record_success s) = (fst (watchdog_misses s), 0)"
  by (simp_all add: record_failure_def record_success_def)

lemma after_probes_snoc: "after_probes (h @ [(g, out)]) = fst (finish_link_probe g out (link_new 1 0) (after_probes h))"
  by (simp add: after_probes_def)

lemma finish_link_probe_misses:
  "watchdog_misses (fst (finish_link_probe g out l s)) =
     (case out of
        Verified code \<Rightarrow> (fst (watchdog_misses s), 0)
      | TimedOut \<Rightarrow> (g, if fst (watchdog_misses s) = g then snd (watchdog_misses s) + 1 else 1)
      | _ \<Rightarrow> watchdog_misses s)"
  by (cases out) (simp_all add: finish_link_probe_def record_watchdog_miss_def Let_def)

text \<open>The counter of misses read off the history.\<close>

definition missed_last :: "(u64 \<times> ProbeOutcome) list \<Rightarrow> bool" where
  "missed_last h \<longleftrightarrow> answered_or_missed h \<noteq> [] \<and> snd (last (answered_or_missed h)) = TimedOut"

lemma answered_or_missed_snoc:
  "answered_or_missed (h @ [(g, out)]) =
     answered_or_missed h @ (case out of Verified code \<Rightarrow> [(g, out)] | TimedOut \<Rightarrow> [(g, out)] | _ \<Rightarrow> [])"
  by (cases out) (simp_all add: answered_or_missed_def)

lemma after_probes_misses:
  "length h < 2 ^ 64 \<Longrightarrow>
     unat (snd (watchdog_misses (after_probes h))) \<le> length h \<and>
     (snd (watchdog_misses (after_probes h)) \<noteq> 0 \<longleftrightarrow> missed_last h) \<and>
     (missed_last h \<longrightarrow> fst (watchdog_misses (after_probes h)) = fst (last (answered_or_missed h)))"
proof (induction h rule: rev_induct)
  case Nil
  show ?case by (simp add: after_probes_def answered_or_missed_def missed_last_def HealthCheckStats_new_def)
next
  case (snoc x h)
  obtain g out where x: "x = (g, out)" by (cases x)
  obtain g0 n where m: "watchdog_misses (after_probes h) = (g0, n)" by (cases "watchdog_misses (after_probes h)")
  have IH: "unat n \<le> length h" "n \<noteq> 0 \<longleftrightarrow> missed_last h" "missed_last h \<Longrightarrow> g0 = fst (last (answered_or_missed h))"
    using snoc m by simp_all
  have n1: "unat (n + 1) = unat n + 1" using IH(1) snoc.prems unat_add_lem [of n 1] by simp
  then have n2: "n + 1 \<noteq> 0" by (metis Suc_eq_plus1 nat.distinct(1) unat_0)
  have step: "watchdog_misses (after_probes (h @ [(g, out)])) =
      (case out of Verified code \<Rightarrow> (g0, 0) | TimedOut \<Rightarrow> (g, if g0 = g then n + 1 else 1) | _ \<Rightarrow> (g0, n))"
    unfolding after_probes_snoc finish_link_probe_misses m by (cases out) simp_all
  show ?case
  proof (cases out)
    case TimedOut
    then show ?thesis using IH n1 n2 step by (simp add: x missed_last_def answered_or_missed_snoc)
  next
    case (Verified code)
    then show ?thesis using step by (simp add: x missed_last_def answered_or_missed_snoc)
  qed (use IH step in \<open>simp_all add: x missed_last_def answered_or_missed_snoc\<close>)
qed

lemma watchdog_second_miss:
  assumes "length h < 2 ^ 64 - 1"
  shows "2 \<le> fst (record_watchdog_miss g (after_probes h)) \<longleftrightarrow>
     answered_or_missed h \<noteq> [] \<and> last (answered_or_missed h) = (g, TimedOut)"
proof -
  obtain g0 n where m: "watchdog_misses (after_probes h) = (g0, n)" by (cases "watchdog_misses (after_probes h)")
  have inv: "unat n \<le> length h" "n \<noteq> 0 \<longleftrightarrow> missed_last h" "missed_last h \<Longrightarrow> g0 = fst (last (answered_or_missed h))"
    using after_probes_misses [of h] assms m by simp_all
  have n1: "unat (n + 1) = unat n + 1" using inv(1) assms unat_add_lem [of n 1] by simp
  have n: "2 \<le> n + 1 \<longleftrightarrow> n \<noteq> 0" using n1 unat_eq_zero [of n] by (simp add: word_le_nat_alt) linarith
  have "fst (record_watchdog_miss g (after_probes h)) = (if g0 = g then n + 1 else 1)"
    by (simp add: record_watchdog_miss_def m Let_def)
  moreover have "\<not> 2 \<le> (1 :: u64)" by (simp add: word_le_nat_alt)
  ultimately have "2 \<le> fst (record_watchdog_miss g (after_probes h)) \<longleftrightarrow> g0 = g \<and> missed_last h"
    using n inv(2) by simp
  then show ?thesis using inv(3) by (auto simp: missed_last_def prod_eq_iff)
qed

text \<open>
  A probe that times out asks for the connection to be closed exactly if the last probe before it
  that was answered or missed is a miss on the same connection, and that connection is still the
  link's current one with no request pending: never after one miss, and never for misses on an
  earlier connection.
\<close>

theorem watchdog_closes_on_second_miss:
  assumes "length h < 2 ^ 64 - 1"
  shows "lk_reset (snd (finish_link_probe g TimedOut l (after_probes h))) =
     (if answered_or_missed h \<noteq> [] \<and> last (answered_or_missed h) = (g, TimedOut) \<and>
         lk_connected l \<and> connections l = g \<and> lk_open l \<and> lk_reset l = None
      then Some (g, watchdog_reason) else lk_reset l)"
proof -
  let ?m = "record_watchdog_miss g (after_probes h)"
  have "snd (finish_link_probe g TimedOut l (after_probes h)) = (if 2 \<le> fst ?m then link_reset l g watchdog_reason else l)"
    by (simp add: finish_link_probe_def Let_def split: prod.split)
  then show ?thesis unfolding watchdog_second_miss [OF assms] by (auto simp: link_reset_def)
qed

theorem watchdog_closes_on_second_miss_witness:
  "lk_reset (snd (finish_link_probe 1 TimedOut (link_up (link_new 4 100)) (after_probes [(1, Verified AccessAccept), (1, TimedOut)])))
     = Some (1, watchdog_reason) \<and>
   lk_reset (snd (finish_link_probe 1 TimedOut (link_up (link_new 4 100)) (after_probes [(0, TimedOut)]))) = None"
  using watchdog_closes_on_second_miss [of "[(1, Verified AccessAccept), (1, TimedOut)]" 1 "link_up (link_new 4 100)"]
    watchdog_closes_on_second_miss [of "[(0, TimedOut)]" 1 "link_up (link_new 4 100)"]
  by (simp add: link_up_def link_new_def drain_outbound_def connections_def answered_or_missed_def Let_def)

section \<open>Up and down\<close>

text \<open>
  The verdicts of a server's checks, oldest first; \<open>None\<close> is a probe that was skipped. A round
  counts the verdict and then looks at the state.
\<close>

definition count_verdict :: "bool option \<Rightarrow> HealthCheckStats \<Rightarrow> HealthCheckStats" where
  "count_verdict v s = (case v of Some True \<Rightarrow> record_success s | Some False \<Rightarrow> record_failure s | None \<Rightarrow> s)"

definition verdict_rounds :: "HealthCheckConfig \<Rightarrow> HomeServer \<Rightarrow> bool option list \<Rightarrow> HealthCheckStats \<times> HomeServer" where
  "verdict_rounds config server vs =
     foldl (\<lambda>(stats, server) v. (count_verdict v stats,
         update_server_state (failures_before_down config) (successes_before_up config) (count_verdict v stats) server))
       (HealthCheckStats_new, server) vs"

definition streak :: "bool \<Rightarrow> bool option list \<Rightarrow> nat" where
  "streak b vs = length (takeWhile (\<lambda>v. v = Some b) (filter (\<lambda>v. v \<noteq> None) (rev vs)))"

lemma streak_snoc [simp]: "streak b (vs @ [v]) = (case v of None \<Rightarrow> streak b vs | Some c \<Rightarrow> if c = b then Suc (streak b vs) else 0)"
  by (cases v) (simp_all add: streak_def)

lemma streak_le: "streak b vs \<le> length vs"
  unfolding streak_def by (metis length_filter_le length_rev length_takeWhile_le order_trans)

lemma verdict_rounds_counts:
  "consecutive_failures (fst (verdict_rounds config server vs)) = of_nat (streak False vs) \<and>
   consecutive_successes (fst (verdict_rounds config server vs)) = of_nat (streak True vs)"
proof (induction vs rule: rev_induct)
  case Nil
  show ?case by (simp add: verdict_rounds_def streak_def HealthCheckStats_new_def)
next
  case (snoc v vs)
  then show ?case
    by (cases v) (auto simp: verdict_rounds_def count_verdict_def record_success_def record_failure_def
        add.commute split: prod.splits bool.splits)
qed

text \<open>Every check counts as a success, as a failure, or not at all.\<close>

definition counted :: "HealthCheckStats \<Rightarrow> HealthCheckStats \<Rightarrow> bool" where
  "counted stats stats' \<longleftrightarrow>
     (\<exists>v. total_checks stats' = total_checks (count_verdict v stats) \<and>
        consecutive_failures stats' = consecutive_failures (count_verdict v stats) \<and>
        consecutive_successes stats' = consecutive_successes (count_verdict v stats))"

lemma counted_success [intro]: "counted s (record_success s)"
  unfolding counted_def by (rule exI [of _ "Some True"]) (simp add: count_verdict_def)

lemma counted_failure [intro]: "counted s (record_failure s)"
  unfolding counted_def by (rule exI [of _ "Some False"]) (simp add: count_verdict_def)

lemma counted_miss [intro]: "counted s (record_failure (snd (record_watchdog_miss g s)))"
  unfolding counted_def
  by (rule exI [of _ "Some False"]) (simp add: count_verdict_def record_watchdog_miss_def record_failure_def Let_def)

lemma counted_miss_eq: "record_watchdog_miss g s = (n, s') \<Longrightarrow> counted s (record_failure s')"
  using counted_miss [of s g] by simp

lemma counted_skip [intro]: "counted s s"
  unfolding counted_def by (rule exI [of _ None]) (simp add: count_verdict_def)

lemma start_link_probe_counted:
  "start_link_probe hmac_md5 c ra token now server l stats = (Inl s, l') \<Longrightarrow> counted stats s"
  by (auto simp: start_link_probe_def Let_def split: option.splits sum.splits prod.splits)

lemma finish_link_probe_counted: "counted stats (fst (finish_link_probe g out l stats))"
  by (cases out) (auto simp: finish_link_probe_def Let_def split: prod.split intro: counted_miss_eq)

lemma probe_over_link_counted:
  assumes "probe_over_link md5 hmac_md5 e server l stats = Inr (stats', l')"
  shows "counted stats stats'"
proof -
  obtain r l1 where s: "start_link_probe hmac_md5 (pe_choice e) (pe_auth e) (pe_token e) (pe_now e) server l stats = (r, l1)"
    by (cases "start_link_probe hmac_md5 (pe_choice e) (pe_auth e) (pe_token e) (pe_now e) server l stats")
  show ?thesis
  proof (cases r)
    case (Inl stats1)
    then show ?thesis using assms s start_link_probe_counted by (simp add: probe_over_link_def)
  next
    case (Inr x)
    obtain i g where x: "x = (i, g)" by (cases x)
    from assms obtain out where "(case finish_link_probe g out (pe_meanwhile e l1) stats of
        (stats, l) \<Rightarrow> Inr (stats, drop_probe (pe_token e) l i)) = (Inr (stats', l') :: panic + _)"
      by (auto simp: probe_over_link_def s Inr x res_bind_Inr_iff)
    then show ?thesis
      using finish_link_probe_counted [of stats g out "pe_meanwhile e l1"]
      by (cases "finish_link_probe g out (pe_meanwhile e l1) stats") simp
  qed
qed

lemma check_server_health_counted:
  assumes "check_server_health tls md5 hmac_md5 e server stats = Inr (stats', server')"
  shows "counted stats stats'"
proof (cases "hs_transport server")
  case Udp
  then show ?thesis using assms
    by (simp add: check_server_health_def udp_probe_verdict_eq split: if_splits) auto
next
  case Radsec
  show ?thesis
  proof (cases "tls \<and> hs_link server \<noteq> None")
    case True
    then obtain l where l: "hs_link server = Some l" by blast
    from assms True Radsec l obtain l' where "probe_over_link md5 hmac_md5 e server l stats = Inr (stats', l')"
      by (cases "probe_over_link md5 hmac_md5 e server l stats") (auto simp: check_server_health_def)
    then show ?thesis by (rule probe_over_link_counted)
  qed (use assms Radsec in \<open>auto simp: check_server_health_def split: option.splits\<close>)
qed

text \<open>
  A server that is up goes down in a round exactly if the checks up to this one end in at least
  \<open>failures_before_down\<close> failures in a row, and one that is down or dead comes up exactly if they
  end in \<open>successes_before_up\<close> successes in a row. Skipped probes neither count nor break a run.
\<close>

theorem state_follows_streak:
  assumes "length vs < 2 ^ 64"
  shows "hs_state (update_server_state (failures_before_down config) (successes_before_up config)
       (fst (verdict_rounds config server vs)) s) =
     (if hs_state s = ServerUp
      then if unat (failures_before_down config) \<le> streak False vs then ServerDown else ServerUp
      else if unat (successes_before_up config) \<le> streak True vs then ServerUp else hs_state s)"
proof -
  have b: "streak b vs < 2 ^ 64" for b using assms streak_le [of b vs] by simp
  have k: "take_bit 64 (unat k) = unat k" for k :: u8
    using unat_u8_le [of k] by (simp add: take_bit_nat_eq_self_iff)
  have w: "(ucast k :: u64) \<le> of_nat (streak b vs) \<longleftrightarrow> unat k \<le> streak b vs" for k :: u8 and b
    using b [of b] by (simp add: word_le_nat_alt unat_of_nat unsigned_ucast_eq k)
  show ?thesis
    using verdict_rounds_counts [of config server vs]
    by (cases "hs_state s") (simp_all add: update_server_state_def mark_down_def mark_up_def w)
qed

end
