(* ===== verification/Request_Cache.thy ===== *)
theory Request_Cache
  imports Server_Prelude "HOL-Library.Finite_Map"
begin

text \<open>
  The duplicate-detection cache of the server (\<open>cache.rs\<close>). The concurrent map is a finite map;
  the order in which an iteration walks it is the parameter \<open>iter\<close> and the hash is the parameter
  \<open>sha256\<close>. Operations of concurrent tasks interleave at the map's own atomic accesses, so
  \<open>admit\<close> is split into making room and deciding under the entry's lock, and a cleanup tick into
  one conditional removal per key. The cache is shown to refine a specification that decides from
  the log of everything that happened.
\<close>

section \<open>Definitions\<close>

record RequestFingerprint =
  source_ip :: IpAddr
  fp_identifier :: u8
  auth_prefix :: bytes

definition RequestFingerprint_new :: "IpAddr \<Rightarrow> u8 \<Rightarrow> arr16 \<Rightarrow> RequestFingerprint" where
  "RequestFingerprint_new ip i authenticator =
     \<lparr>source_ip = ip, fp_identifier = i, auth_prefix = take 8 (bytes16 authenticator)\<rparr>"

definition MAX_REPLAYS_PER_REQUEST :: u8 where
  "MAX_REPLAYS_PER_REQUEST = 8"

record CacheEntry =
  inserted_at :: instant
  ce_digest :: arr32
  ce_source :: SocketAddr
  ce_reply :: "bytes option"
  replays :: u8

datatype Admission = New | InProgress | Replay bytes | Conflict

text \<open>\<open>secret.len() as u64\<close> in network order, the secret, the request.\<close>

definition request_digest :: "(bytes \<Rightarrow> arr32) \<Rightarrow> bytes \<Rightarrow> bytes \<Rightarrow> arr32" where
  "request_digest sha256 secret request = sha256 (u64_to_be_bytes (word_of_nat (length secret)) @ secret @ request)"

record RequestCache =
  rc_cache :: "(RequestFingerprint, CacheEntry) fmap"
  rc_ttl :: duration
  rc_max_entries :: nat

definition RequestCache_new :: "duration \<Rightarrow> nat \<Rightarrow> RequestCache" where
  "RequestCache_new ttl max_entries = \<lparr>rc_cache = fmempty, rc_ttl = ttl, rc_max_entries = max_entries\<rparr>"

definition RequestCache_len :: "RequestCache \<Rightarrow> nat" where
  "RequestCache_len c = fcard (fmdom (rc_cache c))"

definition RequestCache_is_empty :: "RequestCache \<Rightarrow> bool" where
  "RequestCache_is_empty c \<longleftrightarrow> RequestCache_len c = 0"

definition RequestCache_clear :: "RequestCache \<Rightarrow> RequestCache" where
  "RequestCache_clear c = c\<lparr>rc_cache := fmempty\<rparr>"

type_synonym entry_walk = "(RequestFingerprint, CacheEntry) fmap \<Rightarrow> (RequestFingerprint \<times> CacheEntry) list"

definition expired :: "RequestCache \<Rightarrow> instant \<Rightarrow> CacheEntry \<Rightarrow> bool" where
  "expired c now e \<longleftrightarrow> duration_since now (inserted_at e) > rc_ttl c"

text \<open>The first part of \<open>admit\<close>: the entry dropped to make room, if any.\<close>

definition room_victim :: "entry_walk \<Rightarrow> RequestCache \<Rightarrow> RequestFingerprint \<Rightarrow> RequestFingerprint option" where
  "room_victim iter c fp =
     (if RequestCache_len c \<ge> rc_max_entries c \<and> fmlookup (rc_cache c) fp = None
      then (case iter (rc_cache c) of [] \<Rightarrow> None | (k, _) # _ \<Rightarrow> Some k)
      else None)"

definition make_room :: "entry_walk \<Rightarrow> RequestCache \<Rightarrow> RequestFingerprint \<Rightarrow> RequestCache" where
  "make_room iter c fp =
     (case room_victim iter c fp of None \<Rightarrow> c | Some k \<Rightarrow> c\<lparr>rc_cache := fmdrop k (rc_cache c)\<rparr>)"

text \<open>The second part, under the lock of the fingerprint's entry.\<close>

definition admit_entry ::
    "instant \<Rightarrow> RequestCache \<Rightarrow> RequestFingerprint \<Rightarrow> SocketAddr \<Rightarrow> arr32 \<Rightarrow> Admission \<times> RequestCache" where
  "admit_entry now c fp src digest =
     (let fresh = \<lparr>inserted_at = now, ce_digest = digest, ce_source = src, ce_reply = None, replays = 0\<rparr>
      in case fmlookup (rc_cache c) fp of
           None \<Rightarrow> (New, c\<lparr>rc_cache := fmupd fp fresh (rc_cache c)\<rparr>)
         | Some entry \<Rightarrow>
             if expired c now entry then (New, c\<lparr>rc_cache := fmupd fp fresh (rc_cache c)\<rparr>)
             else if ce_digest entry \<noteq> digest then (Conflict, c)
             else if ce_source entry \<noteq> src \<or> replays entry \<ge> MAX_REPLAYS_PER_REQUEST then (InProgress, c)
             else (case ce_reply entry of
                     Some reply \<Rightarrow> (Replay reply,
                       c\<lparr>rc_cache := fmupd fp (entry\<lparr>replays := replays entry + 1\<rparr>) (rc_cache c)\<rparr>)
                   | None \<Rightarrow> (InProgress, c)))"

definition admit ::
    "entry_walk \<Rightarrow> instant \<Rightarrow> RequestCache \<Rightarrow> RequestFingerprint \<Rightarrow> SocketAddr \<Rightarrow> arr32 \<Rightarrow> Admission \<times> RequestCache" where
  "admit iter now c fp src digest = admit_entry now (make_room iter c fp) fp src digest"

definition is_duplicate ::
    "(bytes \<Rightarrow> arr32) \<Rightarrow> entry_walk \<Rightarrow> instant \<Rightarrow> RequestCache \<Rightarrow> RequestFingerprint \<Rightarrow> arr16 \<Rightarrow> bool \<times> RequestCache" where
  "is_duplicate sha256 iter now c fp authenticator =
     (case admit iter now c fp (SocketAddr_new (source_ip fp) 0) (request_digest sha256 [] (bytes16 authenticator)) of
        (a, c) \<Rightarrow> (a \<noteq> New, c))"

definition store_reply :: "RequestCache \<Rightarrow> RequestFingerprint \<Rightarrow> arr32 \<Rightarrow> bytes \<Rightarrow> RequestCache" where
  "store_reply c fp digest reply =
     (case fmlookup (rc_cache c) fp of
        None \<Rightarrow> c
      | Some entry \<Rightarrow> if ce_digest entry = digest
          then c\<lparr>rc_cache := fmupd fp (entry\<lparr>ce_reply := Some reply\<rparr>) (rc_cache c)\<rparr> else c)"

text \<open>A tick of the cleanup task: the keys it collects, and the conditional removal of one of them.\<close>

definition expired_keys :: "entry_walk \<Rightarrow> instant \<Rightarrow> RequestCache \<Rightarrow> RequestFingerprint list" where
  "expired_keys iter now c = map fst (filter (\<lambda>(_, e). expired c now e) (iter (rc_cache c)))"

definition remove_if_expired :: "instant \<Rightarrow> RequestCache \<Rightarrow> RequestFingerprint \<Rightarrow> bool \<times> RequestCache" where
  "remove_if_expired now c fp =
     (case fmlookup (rc_cache c) fp of
        None \<Rightarrow> (False, c)
      | Some e \<Rightarrow> if expired c now e then (True, c\<lparr>rc_cache := fmdrop fp (rc_cache c)\<rparr>) else (False, c))"

record CacheStats =
  cs_entries :: nat
  cs_max_entries :: nat
  cs_ttl_seconds :: nat

definition RequestCache_stats :: "RequestCache \<Rightarrow> CacheStats" where
  "RequestCache_stats c =
     \<lparr>cs_entries = RequestCache_len c, cs_max_entries = rc_max_entries c, cs_ttl_seconds = rc_ttl c div 1000000000\<rparr>"

section \<open>Interleaved accesses and what they log\<close>

datatype cache_access =
    MakeRoom RequestFingerprint
  | AdmitEntry instant RequestFingerprint SocketAddr arr32
  | StoreReply RequestFingerprint arr32 bytes
  | RemoveIfExpired instant RequestFingerprint
  | ClearAll

datatype cache_event =
    Evicted RequestFingerprint
  | Admitted instant RequestFingerprint SocketAddr arr32 Admission
  | Stored RequestFingerprint arr32 bytes
  | Expired instant RequestFingerprint
  | Cleared

fun access :: "entry_walk \<Rightarrow> cache_access \<Rightarrow> RequestCache \<Rightarrow> cache_event list \<times> RequestCache" where
  "access iter (MakeRoom fp) c =
     (case room_victim iter c fp of None \<Rightarrow> [] | Some k \<Rightarrow> [Evicted k], make_room iter c fp)"
| "access iter (AdmitEntry now fp src digest) c =
     (case admit_entry now c fp src digest of (a, c) \<Rightarrow> ([Admitted now fp src digest a], c))"
| "access iter (StoreReply fp digest reply) c = ([Stored fp digest reply], store_reply c fp digest reply)"
| "access iter (RemoveIfExpired now fp) c =
     (case remove_if_expired now c fp of (removed, c) \<Rightarrow> (if removed then [Expired now fp] else [], c))"
| "access iter ClearAll c = ([Cleared], RequestCache_clear c)"

text \<open>The log is kept newest first.\<close>

fun accesses :: "entry_walk \<Rightarrow> cache_access list \<Rightarrow> cache_event list \<times> RequestCache \<Rightarrow> cache_event list \<times> RequestCache" where
  "accesses iter [] s = s"
| "accesses iter (a # as) (log, c) = (case access iter a c of (ev, c) \<Rightarrow> accesses iter as (ev @ log, c))"

section \<open>The specification: decide from the log\<close>

text \<open>The events that start or end the life of a fingerprint's record.\<close>

fun closes :: "RequestFingerprint \<Rightarrow> cache_event \<Rightarrow> bool" where
  "closes fp (Evicted f) = (f = fp)"
| "closes fp (Admitted t f s d a) = (f = fp \<and> a = New)"
| "closes fp (Stored f d r) = False"
| "closes fp (Expired t f) = (f = fp)"
| "closes fp Cleared = True"

fun replay_of :: "RequestFingerprint \<Rightarrow> cache_event \<Rightarrow> bool" where
  "replay_of fp (Admitted t f s d (Replay r)) = (f = fp)"
| "replay_of fp _ = False"

fun reply_for :: "RequestFingerprint \<Rightarrow> arr32 \<Rightarrow> cache_event \<Rightarrow> bytes option" where
  "reply_for fp d (Stored f d' r) = (if f = fp \<and> d' = d then Some r else None)"
| "reply_for fp d _ = None"

definition epoch :: "RequestFingerprint \<Rightarrow> cache_event list \<Rightarrow> cache_event list" where
  "epoch fp log = takeWhile (\<lambda>e. \<not> closes fp e) log"

record spec_entry =
  se_since :: instant
  se_source :: SocketAddr
  se_digest :: arr32
  se_reply :: "bytes option"
  se_replays :: nat

text \<open>
  What the log says about a fingerprint: the last event that opened or closed its record must have
  opened it; the reply is the latest one stored for the same digest since, and the replays are
  counted since.
\<close>

definition recorded :: "cache_event list \<Rightarrow> RequestFingerprint \<Rightarrow> spec_entry option" where
  "recorded log fp =
     (case find (closes fp) log of
        Some (Admitted t f s d a) \<Rightarrow>
          Some \<lparr>se_since = t, se_source = s, se_digest = d,
            se_reply = (case List.map_filter (reply_for fp d) (epoch fp log) of [] \<Rightarrow> None | r # _ \<Rightarrow> Some r),
            se_replays = length (filter (replay_of fp) (epoch fp log))\<rparr>
      | _ \<Rightarrow> None)"

definition spec_admit ::
    "duration \<Rightarrow> cache_event list \<Rightarrow> instant \<Rightarrow> RequestFingerprint \<Rightarrow> SocketAddr \<Rightarrow> arr32 \<Rightarrow> Admission" where
  "spec_admit ttl log now fp src digest =
     (case recorded log fp of
        None \<Rightarrow> New
      | Some e \<Rightarrow>
          if now > se_since e + ttl then New
          else if se_digest e \<noteq> digest then Conflict
          else case se_reply e of
                 Some r \<Rightarrow> if se_source e = src \<and> se_replays e < 8 then Replay r else InProgress
               | None \<Rightarrow> InProgress)"

text \<open>When an event may be appended: evictions only from a full cache, expiry only past the lifetime.\<close>

fun spec_allows :: "duration \<Rightarrow> nat \<Rightarrow> cache_event list \<Rightarrow> cache_event \<Rightarrow> bool" where
  "spec_allows ttl max_entries log (Evicted fp) = (max_entries \<le> card {k. recorded log k \<noteq> None})"
| "spec_allows ttl max_entries log (Admitted t fp s d a) = (a = spec_admit ttl log t fp s d)"
| "spec_allows ttl max_entries log (Stored fp d r) = True"
| "spec_allows ttl max_entries log (Expired t fp) =
     (case recorded log fp of Some e \<Rightarrow> t > se_since e + ttl | None \<Rightarrow> False)"
| "spec_allows ttl max_entries log Cleared = True"

fun spec_log :: "duration \<Rightarrow> nat \<Rightarrow> cache_event list \<Rightarrow> bool" where
  "spec_log ttl max_entries [] = True"
| "spec_log ttl max_entries (e # log) = (spec_log ttl max_entries log \<and> spec_allows ttl max_entries log e)"

section \<open>The simulation\<close>

definition abs_entry :: "CacheEntry \<Rightarrow> spec_entry" where
  "abs_entry e = \<lparr>se_since = inserted_at e, se_source = ce_source e, se_digest = ce_digest e,
     se_reply = ce_reply e, se_replays = unat (replays e)\<rparr>"

definition abs_cache :: "RequestCache \<Rightarrow> RequestFingerprint \<Rightarrow> spec_entry option" where
  "abs_cache c fp = map_option abs_entry (fmlookup (rc_cache c) fp)"

lemma recorded_Nil [simp]: "recorded [] fp = None"
  by (simp add: recorded_def)

lemma recorded_closing:
  "closes fp e \<Longrightarrow> recorded (e # log) fp = (case e of
     Admitted t f s d a \<Rightarrow> Some \<lparr>se_since = t, se_source = s, se_digest = d, se_reply = None, se_replays = 0\<rparr> | _ \<Rightarrow> None)"
  by (cases e) (auto simp: recorded_def epoch_def map_filter_def)

lemma recorded_replay:
  assumes "recorded log fp = Some e"
  shows "recorded (Admitted t fp s d (Replay r) # log) fp = Some (e\<lparr>se_replays := se_replays e + 1\<rparr>)"
  using assms by (auto simp: recorded_def epoch_def map_filter_def split: option.splits cache_event.splits)

lemma recorded_stored:
  assumes "recorded log fp = Some e" "se_digest e = d"
  shows "recorded (Stored fp d r # log) fp = Some (e\<lparr>se_reply := Some r\<rparr>)"
  using assms by (auto simp: recorded_def epoch_def map_filter_def split: option.splits cache_event.splits)

text \<open>Every other event leaves the record as it was.\<close>

lemma recorded_other:
  assumes "\<not> closes fp e" "\<not> replay_of fp e"
    and "\<And>d. recorded log fp \<noteq> None \<Longrightarrow> se_digest (the (recorded log fp)) = d \<Longrightarrow> reply_for fp d e = None"
  shows "recorded (e # log) fp = recorded log fp"
  using assms by (auto simp: recorded_def epoch_def map_filter_def split: option.splits cache_event.splits)

definition sim :: "duration \<Rightarrow> nat \<Rightarrow> cache_event list \<Rightarrow> RequestCache \<Rightarrow> bool" where
  "sim ttl max_entries log c \<longleftrightarrow>
     rc_ttl c = ttl \<and> rc_max_entries c = max_entries \<and> abs_cache c = recorded log \<and> spec_log ttl max_entries log"

lemma abs_cache_upd [simp]:
  "abs_cache (c\<lparr>rc_cache := fmupd fp e (rc_cache c)\<rparr>) = (abs_cache c)(fp \<mapsto> abs_entry e)"
  by (auto simp: abs_cache_def)

lemma abs_cache_drop [simp]:
  "abs_cache (c\<lparr>rc_cache := fmdrop fp (rc_cache c)\<rparr>) = (abs_cache c)(fp := None)"
  by (auto simp: abs_cache_def)

lemma abs_cache_clear [simp]: "abs_cache (RequestCache_clear c) = (\<lambda>_. None)"
  by (auto simp: abs_cache_def RequestCache_clear_def)

lemma abs_cache_lookup:
  "fmlookup (rc_cache c) fp = None \<longleftrightarrow> abs_cache c fp = None"
  "fmlookup (rc_cache c) fp = Some e \<Longrightarrow> abs_cache c fp = Some (abs_entry e)"
  by (simp_all add: abs_cache_def)

lemma abs_cache_len: "card {k. abs_cache c k \<noteq> None} = RequestCache_len c"
proof -
  have "{k. abs_cache c k \<noteq> None} = fset (fmdom (rc_cache c))"
    by (auto simp: abs_cache_def fmlookup_dom_iff)
  then show ?thesis by (simp add: RequestCache_len_def fcard.rep_eq)
qed

lemma expired_abs: "expired c now e \<longleftrightarrow> now > se_since (abs_entry e) + rc_ttl c"
  by (auto simp: expired_def duration_since_def abs_entry_def)

lemma replays_below [simp]:
  "r < MAX_REPLAYS_PER_REQUEST \<longleftrightarrow> unat r < 8"
  "r \<ge> MAX_REPLAYS_PER_REQUEST \<longleftrightarrow> 8 \<le> unat r"
  by (simp_all add: MAX_REPLAYS_PER_REQUEST_def word_less_nat_alt word_le_nat_alt)

lemma abs_entry_replay: "unat (replays e) < 8 \<Longrightarrow> abs_entry (e\<lparr>replays := replays e + 1\<rparr>) = (abs_entry e)\<lparr>se_replays := se_replays (abs_entry e) + 1\<rparr>"
proof -
  assume "unat (replays e) < 8"
  then have "unat (replays e + 1) = unat (replays e) + 1"
    by (subst unat_plus_simple [THEN iffD1]) (simp_all add: word_le_nat_alt unat_word_ariths)
  then show ?thesis by (simp add: abs_entry_def)
qed

text \<open>Events about one fingerprint do not touch another's record.\<close>

fun about :: "cache_event \<Rightarrow> RequestFingerprint option" where
  "about (Evicted f) = Some f"
| "about (Admitted t f s d a) = Some f"
| "about (Stored f d r) = Some f"
| "about (Expired t f) = Some f"
| "about Cleared = None"

lemma recorded_about:
  assumes "about e = Some f" "f \<noteq> fp"
  shows "recorded (e # log) fp = recorded log fp"
proof (rule recorded_other)
  show "\<not> closes fp e" "\<not> replay_of fp e" using assms by (cases e; auto elim: replay_of.elims)+
  show "reply_for fp d e = None" for d using assms by (cases e) auto
qed

lemma recorded_fun:
  assumes "about e = Some f" "recorded (e # log) f = x"
  shows "recorded (e # log) = (recorded log)(f := x)"
  using assms recorded_about by fastforce

text \<open>One lemma per access.\<close>

lemma admit_entry_sim:
  assumes "sim ttl n log c" "admit_entry now c fp src d = (a, c')"
  shows "sim ttl n (Admitted now fp src d a # log) c'"
proof -
  let ?ev = "Admitted now fp src d a"
  have abs: "abs_cache c = recorded log" and ttl: "rc_ttl c = ttl" and n: "rc_max_entries c = n" and ok: "spec_log ttl n log"
    using assms(1) by (simp_all add: sim_def)
  have same: "recorded (?ev # log) = recorded log" if "a = Conflict \<or> a = InProgress"
    using recorded_fun [of ?ev fp log "recorded log fp"] recorded_other [of fp ?ev log] that by auto
  have new: "recorded (?ev # log) = (recorded log)(fp \<mapsto> \<lparr>se_since = now, se_source = src, se_digest = d, se_reply = None, se_replays = 0\<rparr>)"
    if "a = New" using that by (intro recorded_fun) (simp_all add: recorded_closing)
  consider (absent) "fmlookup (rc_cache c) fp = None" | (present) e where "fmlookup (rc_cache c) fp = Some e" by blast
  then show ?thesis
  proof cases
    case absent
    then have r: "recorded log fp = None" by (simp add: abs_cache_lookup abs)
    from absent assms(2) have a: "a = New" by (auto simp: admit_entry_def)
    with absent assms(2) abs ttl n ok r new show ?thesis
      by (auto simp: admit_entry_def sim_def spec_admit_def abs_entry_def)
  next
    case present
    then have r: "recorded log fp = Some (abs_entry e)" using abs_cache_lookup(2) abs by fastforce
    have ex: "expired c now e \<longleftrightarrow> now > se_since (abs_entry e) + ttl" by (simp add: expired_abs ttl)
    consider "expired c now e" | "\<not> expired c now e" "ce_digest e \<noteq> d"
      | "\<not> expired c now e" "ce_digest e = d" "ce_source e \<noteq> src \<or> 8 \<le> unat (replays e) \<or> ce_reply e = None"
      | reply where "\<not> expired c now e" "ce_digest e = d" "ce_source e = src" "unat (replays e) < 8" "ce_reply e = Some reply"
      by (metis not_le option.exhaust)
    then show ?thesis
    proof cases
      case 1
      then have "a = New" using assms(2) present by (auto simp: admit_entry_def)
      with 1 show ?thesis using assms(2) present abs ttl n ok r ex new
        by (auto simp: admit_entry_def sim_def spec_admit_def abs_entry_def)
    next
      case 2
      then have "a = Conflict" "c' = c" using assms(2) present by (auto simp: admit_entry_def)
      with 2 same abs ttl n ok r ex show ?thesis
        by (auto simp: sim_def spec_admit_def abs_entry_def)
    next
      case 3
      then have "a = InProgress" "c' = c" using assms(2) present
        by (auto simp: admit_entry_def split: option.splits if_splits)
      with 3 same abs ttl n ok r ex show ?thesis
        by (auto simp: sim_def spec_admit_def abs_entry_def split: option.splits)
    next
      case 4
      then have "a = Replay reply" "c' = c\<lparr>rc_cache := fmupd fp (e\<lparr>replays := replays e + 1\<rparr>) (rc_cache c)\<rparr>"
        using assms(2) present by (auto simp: admit_entry_def)
      moreover from this have "recorded (?ev # log) = (recorded log)(fp \<mapsto> abs_entry (e\<lparr>replays := replays e + 1\<rparr>))"
        using 4 r by (intro recorded_fun) (simp_all add: recorded_replay abs_entry_replay)
      ultimately show ?thesis using 4 abs ttl n ok r ex
        by (simp add: sim_def spec_admit_def) (simp add: abs_entry_def)
    qed
  qed
qed

lemma store_reply_sim:
  assumes "sim ttl n log c"
  shows "sim ttl n (Stored fp d r # log) (store_reply c fp d r)"
proof -
  let ?ev = "Stored fp d r"
  have abs: "abs_cache c = recorded log" using assms by (simp add: sim_def)
  show ?thesis
  proof (cases "\<exists>e. fmlookup (rc_cache c) fp = Some e \<and> ce_digest e = d")
    case True
    then obtain e where e: "fmlookup (rc_cache c) fp = Some e" "ce_digest e = d" by blast
    then have "recorded log fp = Some (abs_entry e)" "se_digest (abs_entry e) = d"
      using abs_cache_lookup(2) abs by (fastforce simp: abs_entry_def)+
    from recorded_fun [OF _ recorded_stored [OF this]] e assms show ?thesis
      by (simp add: sim_def store_reply_def) (simp add: abs_entry_def)
  next
    case False
    then have c: "store_reply c fp d r = c" by (auto simp: store_reply_def split: option.split)
    have "recorded (?ev # log) fp = recorded log fp"
    proof (rule recorded_other)
      fix d' assume "recorded log fp \<noteq> None" "se_digest (the (recorded log fp)) = d'"
      then show "reply_for fp d' ?ev = None"
        using False unfolding abs [symmetric] by (auto simp: abs_cache_def abs_entry_def)
    qed simp_all
    then have "recorded (?ev # log) = recorded log" using recorded_fun [of ?ev fp log] by simp
    with c assms show ?thesis by (simp add: sim_def)
  qed
qed

lemma access_sim:
  assumes "sim ttl n log c" "access iter a c = (ev, c')"
  shows "sim ttl n (ev @ log) c'"
proof (cases a)
  case (MakeRoom fp)
  have abs: "abs_cache c = recorded log" and n: "rc_max_entries c = n" using assms(1) by (simp_all add: sim_def)
  show ?thesis
  proof (cases "room_victim iter c fp")
    case None
    then show ?thesis using assms MakeRoom by (simp add: make_room_def)
  next
    case (Some k)
    then have "n \<le> card {k. recorded log k \<noteq> None}"
      unfolding abs [symmetric] abs_cache_len n [symmetric] by (auto simp: room_victim_def split: if_splits)
    moreover have "recorded (Evicted k # log) = (recorded log)(k := None)"
      by (rule recorded_fun) (simp_all add: recorded_closing)
    ultimately show ?thesis using assms MakeRoom Some
      by (auto simp: make_room_def sim_def)
  qed
next
  case (AdmitEntry now fp src d)
  then show ?thesis using assms by (auto split: prod.splits intro: admit_entry_sim)
next
  case (StoreReply fp d r)
  then show ?thesis using assms by (auto intro: store_reply_sim)
next
  case (RemoveIfExpired now fp)
  have abs: "abs_cache c = recorded log" using assms(1) by (simp add: sim_def)
  show ?thesis
  proof (cases "\<exists>e. fmlookup (rc_cache c) fp = Some e \<and> expired c now e")
    case True
    then obtain e where e: "fmlookup (rc_cache c) fp = Some e" "expired c now e" by blast
    then have "recorded log fp = Some (abs_entry e)" using abs_cache_lookup(2) abs by fastforce
    moreover have "recorded (Expired now fp # log) = (recorded log)(fp := None)"
      by (rule recorded_fun) (simp_all add: recorded_closing)
    ultimately show ?thesis using e assms RemoveIfExpired
      by (auto simp: remove_if_expired_def sim_def expired_abs)
  next
    case False
    then have "remove_if_expired now c fp = (False, c)" by (auto simp: remove_if_expired_def split: option.split)
    with assms RemoveIfExpired show ?thesis by simp
  qed
next
  case ClearAll
  then show ?thesis using assms
    by (auto simp: sim_def recorded_closing fun_eq_iff) (simp_all add: RequestCache_clear_def)
qed

lemma accesses_sim:
  "sim ttl n log c \<Longrightarrow> accesses iter as (log, c) = (log', c') \<Longrightarrow> sim ttl n log' c'"
  by (induction iter as "(log, c)" arbitrary: log c rule: accesses.induct)
    (auto split: prod.splits dest: access_sim)

lemma sim_new: "sim ttl n [] (RequestCache_new ttl n)"
  by (auto simp: sim_def RequestCache_new_def abs_cache_def)

section \<open>What the specification promises\<close>

lemma find_closes_split:
  "find (closes fp) log = Some e \<Longrightarrow> \<exists>older. log = epoch fp log @ e # older"
  by (induction log) (auto simp: epoch_def split: if_splits)

lemma recorded_split:
  assumes "recorded log fp = Some e"
  obtains older f a where "log = epoch fp log @ Admitted (se_since e) f (se_source e) (se_digest e) a # older"
    and "closes fp (Admitted (se_since e) f (se_source e) (se_digest e) a)"
proof -
  from assms obtain t f s d a where fnd: "find (closes fp) log = Some (Admitted t f s d a)"
      and e: "se_since e = t" "se_source e = s" "se_digest e = d"
    by (auto simp: recorded_def split: option.splits cache_event.splits)
  from fnd have "closes fp (Admitted t f s d a)" by (metis find_Some_iff)
  with find_closes_split [OF fnd] e that show thesis by metis
qed

lemma recorded_reply:
  assumes "recorded log fp = Some e" "se_reply e = Some r"
  shows "Stored fp (se_digest e) r \<in> set (epoch fp log)"
proof -
  have "\<exists>x \<in> set xs. reply_for fp d x = Some r" if "List.map_filter (reply_for fp d) xs = r # rs" for xs d rs
    using that by (induction xs) (auto simp: map_filter_simps split: option.splits)
  moreover have "x = Stored fp d r" if "reply_for fp d x = Some r" for x d
    using that by (cases x) (auto split: if_splits)
  ultimately show ?thesis using assms
    by (auto simp: recorded_def split: option.splits cache_event.splits list.splits) (metis)
qed

lemma recorded_replays: "recorded log fp = Some e \<Longrightarrow> se_replays e = length (filter (replay_of fp) (epoch fp log))"
  by (auto simp: recorded_def split: option.splits cache_event.splits)

lemma epoch_not_closes: "x \<in> set (epoch fp log) \<Longrightarrow> \<not> closes fp x"
  by (auto simp: epoch_def dest: set_takeWhileD)

lemma spec_log_append: "spec_log ttl n (newer @ log) \<Longrightarrow> spec_log ttl n log"
  by (induction newer) simp_all

lemma spec_replay:
  assumes "spec_log ttl n (newer @ Admitted now fp src d (Replay r) # log)"
  shows "\<exists>between_events since older. log = between_events @ Admitted since fp src d New # older
    \<and> now \<le> since + ttl \<and> Stored fp d r \<in> set between_events
    \<and> (\<forall>e \<in> set between_events. \<not> closes fp e) \<and> length (filter (replay_of fp) between_events) < 8"
proof -
  from spec_log_append [OF assms] have "Replay r = spec_admit ttl log now fp src d" by simp
  then obtain e where e: "recorded log fp = Some e" "now \<le> se_since e + ttl" "se_digest e = d" "se_source e = src"
      "se_replays e < 8" "se_reply e = Some r"
    by (auto simp: spec_admit_def split: option.splits if_splits)
  from recorded_split [OF e(1)] obtain older f a where
      "log = epoch fp log @ Admitted (se_since e) f (se_source e) (se_digest e) a # older"
      "closes fp (Admitted (se_since e) f (se_source e) (se_digest e) a)" by blast
  then have "log = epoch fp log @ Admitted (se_since e) fp src d New # older" using e by simp
  then show ?thesis
    using e recorded_reply [OF e(1) e(6)] recorded_replays [OF e(1)] epoch_not_closes [of _ fp log] by metis
qed

lemma accesses_new_sim:
  "accesses iter as ([], RequestCache_new ttl n) = (log, c) \<Longrightarrow> sim ttl n log c"
  using accesses_sim sim_new by blast

section \<open>Size\<close>

definition walks_map :: "entry_walk \<Rightarrow> bool" where
  "walks_map iter \<longleftrightarrow> (\<forall>m. map_of (iter m) = fmlookup m)"

lemma make_room_len:
  assumes "walks_map iter" "RequestCache_len c \<le> max 1 (rc_max_entries c)"
  shows "RequestCache_len (make_room iter c fp) \<le> max 1 (rc_max_entries c)"
    and "fmlookup (rc_cache c) fp = None \<Longrightarrow> RequestCache_len (make_room iter c fp) < max 1 (rc_max_entries c)"
proof -
  show "RequestCache_len (make_room iter c fp) \<le> max 1 (rc_max_entries c)"
    using assms(2) by (auto simp: make_room_def RequestCache_len_def split: option.split)
      (metis fcard_fminus1_le fmdom_drop le_trans)
  assume fp: "fmlookup (rc_cache c) fp = None"
  show "RequestCache_len (make_room iter c fp) < max 1 (rc_max_entries c)"
  proof (cases "RequestCache_len c \<ge> rc_max_entries c")
    case False
    then show ?thesis using fp by (simp add: make_room_def room_victim_def)
  next
    case True
    show ?thesis
    proof (cases "iter (rc_cache c)")
      case Nil
      with assms(1) have "fmlookup (rc_cache c) = Map.empty" by (auto simp: walks_map_def dest: spec [of _ "rc_cache c"])
      then have "rc_cache c = fmempty" by (metis fmap_ext fmempty_lookup)
      with Nil show ?thesis by (simp add: make_room_def room_victim_def RequestCache_len_def fcard_fempty max_def)
    next
      case (Cons kv rest)
      obtain k v where kv: "kv = (k, v)" by force
      have "fmlookup (rc_cache c) k = Some v"
        using assms(1) Cons kv by (metis (full_types) fun_upd_same map_of.simps(2) walks_map_def fst_conv snd_conv)
      then have "k |\<in>| fmdom (rc_cache c)" by (rule fmdomI)
      then have "fcard (fmdom (fmdrop k (rc_cache c))) < fcard (fmdom (rc_cache c))"
        unfolding fmdom_drop by (rule fcard_fminus1_less)
      then show ?thesis using True fp Cons kv assms(2)
        by (simp add: make_room_def room_victim_def RequestCache_len_def)
    qed
  qed
qed

lemma admit_len:
  assumes "walks_map iter" "RequestCache_len c \<le> max 1 (rc_max_entries c)" "admit iter now c fp src d = (a, c')"
  shows "RequestCache_len c' \<le> max 1 (rc_max_entries c') \<and> rc_max_entries c' = rc_max_entries c"
proof -
  let ?c = "make_room iter c fp"
  have n: "rc_max_entries ?c = rc_max_entries c" by (simp add: make_room_def split: option.split)
  have absent: "fmlookup (rc_cache ?c) fp = None \<Longrightarrow> RequestCache_len ?c < max 1 (rc_max_entries c)"
  proof -
    assume a: "fmlookup (rc_cache ?c) fp = None"
    then have "fmlookup (rc_cache c) fp = None"
      by (auto simp: make_room_def room_victim_def split: option.splits if_splits)
    then show ?thesis using make_room_len(2) [OF assms(1,2)] by blast
  qed
  have upd: "fcard (fmdom (fmupd fp e m)) = (if fmlookup m fp = None then Suc (fcard (fmdom m)) else fcard (fmdom m))" for e m
    by (auto simp: fcard_finsert_if finsert_absorb fmdom_notI fmdomI)
  have fresh: "RequestCache_len (?c\<lparr>rc_cache := fmupd fp e (rc_cache ?c)\<rparr>) \<le> max 1 (rc_max_entries c)" for e
    using absent make_room_len(1) [OF assms(1,2), of fp] by (auto simp: RequestCache_len_def upd simp del: fmdom_fmupd)
  have "c' = ?c \<or> (\<exists>e. c' = ?c\<lparr>rc_cache := fmupd fp e (rc_cache ?c)\<rparr>)"
    using assms(3) by (auto simp: admit_def admit_entry_def Let_def split: option.splits if_splits)
  then show ?thesis using n fresh make_room_len(1) [OF assms(1,2), of fp] by auto
qed

section \<open>Retransmissions\<close>

text \<open>The answers to a sequence of copies of one request.\<close>

fun readmit :: "RequestCache \<Rightarrow> RequestFingerprint \<Rightarrow> SocketAddr \<Rightarrow> arr32 \<Rightarrow> instant list \<Rightarrow> Admission list" where
  "readmit c fp src d [] = []"
| "readmit c fp src d (t # ts) = (case admit_entry t c fp src d of (a, c) \<Rightarrow> a # readmit c fp src d ts)"

lemma readmit_answers:
  assumes "fmlookup (rc_cache c) fp = Some e" "ce_digest e = d" "ce_source e = src" "ce_reply e = Some r"
    and "unat (replays e) + k = 8" "\<forall>t \<in> set ts. t \<le> inserted_at e + rc_ttl c"
  shows "readmit c fp src d ts = replicate (min k (length ts)) (Replay r) @ replicate (length ts - k) InProgress"
  using assms
proof (induction ts arbitrary: c e k)
  case (Cons t ts)
  then have ex: "\<not> expired c t e" by (auto simp: expired_def duration_since_def)
  show ?case
  proof (cases k)
    case 0
    then have "admit_entry t c fp src d = (InProgress, c)" using Cons.prems ex by (auto simp: admit_entry_def)
    moreover have "readmit c fp src d ts = replicate (length ts) InProgress"
      using Cons.IH [of c e 0] Cons.prems 0 by simp
    ultimately show ?thesis using 0 by simp
  next
    case (Suc j)
    let ?e = "e\<lparr>replays := replays e + 1\<rparr>" and ?c = "c\<lparr>rc_cache := fmupd fp (e\<lparr>replays := replays e + 1\<rparr>) (rc_cache c)\<rparr>"
    have lt: "unat (replays e) < 8" using Cons.prems Suc by simp
    then have a: "admit_entry t c fp src d = (Replay r, ?c)" using Cons.prems ex by (auto simp: admit_entry_def)
    have "unat (replays ?e) = unat (replays e) + 1"
      using arg_cong [OF abs_entry_replay [OF lt], of se_replays] by (simp add: abs_entry_def)
    then have "readmit ?c fp src d ts = replicate (min j (length ts)) (Replay r) @ replicate (length ts - j) InProgress"
      using Cons.prems Suc by (intro Cons.IH [of ?c ?e j]) auto
    then show ?thesis using a Suc by simp
  qed
qed simp

lemma stored_reply_lookup:
  assumes "admit_entry t0 c fp src d = (New, c1)"
  shows "fmlookup (rc_cache (store_reply c1 fp d r)) fp =
     Some \<lparr>inserted_at = t0, ce_digest = d, ce_source = src, ce_reply = Some r, replays = 0\<rparr> \<and> rc_ttl (store_reply c1 fp d r) = rc_ttl c"
proof -
  let ?e = "\<lparr>inserted_at = t0, ce_digest = d, ce_source = src, ce_reply = None, replays = 0\<rparr>"
  have "c1 = c\<lparr>rc_cache := fmupd fp ?e (rc_cache c)\<rparr>"
    using assms by (auto simp: admit_entry_def Let_def split: option.splits if_splits)
  then show ?thesis by (simp add: store_reply_def)
qed

section \<open>Digests\<close>

text \<open>The hashed octets determine the secret and the request.\<close>

lemma request_digest_preimage:
  assumes "length s < 2 ^ 64" "length s' < 2 ^ 64"
  shows "u64_to_be_bytes (word_of_nat (length s)) @ s @ q = u64_to_be_bytes (word_of_nat (length s')) @ s' @ q' \<longleftrightarrow> s = s' \<and> q = q'"
proof
  assume eq: "u64_to_be_bytes (word_of_nat (length s)) @ s @ q = u64_to_be_bytes (word_of_nat (length s')) @ s' @ q'"
  then have "(word_of_nat (length s) :: u64) = word_of_nat (length s')" and sq: "s @ q = s' @ q'"
    by (simp_all add: append_eq_append_conv)
  from arg_cong [OF this(1), of unat] assms have "length s = length s'"
    by (simp add: unat_of_nat take_bit_nat_eq_self)
  with sq show "s = s' \<and> q = q'" by simp
qed simp

section \<open>Properties\<close>


text \<open>
  A cached reply is sent again only for a request with the digest and the source address of the
  one it answered, which was admitted within the lifetime and has kept its record since, and at most
  eight times.
\<close>

theorem replay_only_to_requester:
  assumes "accesses iter as ([], RequestCache_new ttl n) = (newer @ Admitted now fp src d (Replay r) # log, c)"
  shows "\<exists>between_events since older. log = between_events @ Admitted since fp src d New # older
    \<and> now \<le> since + ttl \<and> Stored fp d r \<in> set between_events
    \<and> (\<forall>e \<in> set between_events. \<not> closes fp e) \<and> length (filter (replay_of fp) between_events) < 8"
  by (rule spec_replay [of ttl n newer]) (use accesses_new_sim [OF assms] in \<open>simp add: sim_def\<close>)

definition sample_fp :: RequestFingerprint where
  "sample_fp = RequestFingerprint_new (IpV4 0x0A000001) 7 (arr16_of (replicate 16 0x2A))"

definition sample_src :: SocketAddr where
  "sample_src = SocketAddrV4 0x0A000001 1812"

theorem replay_only_to_requester_witness:
  "\<exists>between_events since older. [Stored sample_fp (arr32_of []) [2, 7], Admitted 5 sample_fp sample_src (arr32_of []) New]
      = between_events @ Admitted since sample_fp sample_src (arr32_of []) New # older
    \<and> 60 \<le> since + 100 \<and> Stored sample_fp (arr32_of []) [2, 7] \<in> set between_events
    \<and> (\<forall>e \<in> set between_events. \<not> closes sample_fp e) \<and> length (filter (replay_of sample_fp) between_events) < 8"
  by (rule replay_only_to_requester [where newer = "[]" and ttl = 100 and n = 4 and now = 60 and iter = "\<lambda>_. []"
        and r = "[2, 7]" and as = "[MakeRoom sample_fp, AdmitEntry 5 sample_fp sample_src (arr32_of []),
          StoreReply sample_fp (arr32_of []) [2, 7], AdmitEntry 60 sample_fp sample_src (arr32_of [])]", OF surjective_pairing [THEN trans]])
    (simp add: RequestCache_new_def room_victim_def make_room_def RequestCache_len_def admit_entry_def store_reply_def
      expired_def duration_since_def MAX_REPLAYS_PER_REQUEST_def)

text \<open>
  A request that was answered gets the same reply for its first eight retransmissions from the same
  address within the lifetime, and none afterwards.
\<close>

theorem retransmissions_answered:
  assumes "admit iter t0 c fp src d = (New, c1)" "\<forall>t \<in> set ts. t \<le> t0 + rc_ttl c"
  shows "readmit (store_reply c1 fp d r) fp src d ts =
     replicate (min 8 (length ts)) (Replay r) @ replicate (length ts - 8) InProgress"
proof -
  have "rc_ttl (make_room iter c fp) = rc_ttl c" by (simp add: make_room_def split: option.split)
  with stored_reply_lookup [OF assms(1) [unfolded admit_def]] assms(2) show ?thesis
    by (intro readmit_answers [where e = "\<lparr>inserted_at = t0, ce_digest = d, ce_source = src, ce_reply = Some r, replays = 0\<rparr>"]) auto
qed

theorem retransmissions_answered_witness:
  "readmit (store_reply (snd (admit (\<lambda>_. []) 5 (RequestCache_new 100 4) sample_fp sample_src (arr32_of [])))
      sample_fp (arr32_of []) [2, 7]) sample_fp sample_src (arr32_of []) [10, 20] = [Replay [2, 7], Replay [2, 7]]"
  using retransmissions_answered [of "\<lambda>_. []" 5 "RequestCache_new 100 4" sample_fp sample_src "arr32_of []" _ "[10, 20]" "[2, 7]"]
  by (simp add: admit_def RequestCache_new_def room_victim_def make_room_def RequestCache_len_def admit_entry_def)

end
