(* ===== verification/Rate_Limiter.thy ===== *)
theory Rate_Limiter
  imports Complex_Main Server_Prelude "HOL-Library.Finite_Map"
begin

text \<open>
  The token-bucket limiter (\<open>ratelimit.rs\<close>). An \<open>f64\<close> is the real number it represents and the
  rounding of every inexact operation is the parameter \<open>rnd\<close>; the facts used about it are that it is
  monotone and exact on the integers an \<open>f64\<close> represents. Readings of the clock are parameters.
  Unchecked \<open>u64\<close> addition wraps, as it does in a release build.
\<close>

section \<open>Definitions\<close>

record Bucket =
  tokens :: real
  capacity :: real
  refill_rate :: real
  last_refill :: instant

definition Bucket_new :: "instant \<Rightarrow> real \<Rightarrow> real \<Rightarrow> Bucket" where
  "Bucket_new now cap rate = \<lparr>tokens = cap, capacity = cap, refill_rate = rate, last_refill = now\<rparr>"

definition as_secs_f64 :: "(real \<Rightarrow> real) \<Rightarrow> duration \<Rightarrow> real" where
  "as_secs_f64 rnd d = rnd (rnd (real (d div 1000000000)) + rnd (real (d mod 1000000000) / 1000000000))"

definition Bucket_try_consume :: "(real \<Rightarrow> real) \<Rightarrow> instant \<Rightarrow> Bucket \<Rightarrow> bool \<times> Bucket" where
  "Bucket_try_consume rnd now b =
     (let elapsed = as_secs_f64 rnd (duration_since now (last_refill b));
          new_tokens = rnd (elapsed * refill_rate b);
          b = b\<lparr>tokens := min (rnd (tokens b + new_tokens)) (capacity b), last_refill := now\<rparr>
      in if tokens b \<ge> 1 then (True, b\<lparr>tokens := rnd (tokens b - 1)\<rparr>) else (False, b))"

record RateLimitConfig =
  per_client_rps :: u32
  per_client_burst :: u32
  global_rps :: u32
  global_burst :: u32
  max_concurrent_connections :: u32
  max_bandwidth_bps :: u64

definition RateLimitConfig_default :: RateLimitConfig where
  "RateLimitConfig_default =
     \<lparr>per_client_rps = 100, per_client_burst = 200, global_rps = 1000, global_burst = 2000,
      max_concurrent_connections = 100, max_bandwidth_bps = 1048576\<rparr>"

record ConnectionTracker =
  active_connections :: u32
  last_activity :: instant

definition ConnectionTracker_new :: "instant \<Rightarrow> ConnectionTracker" where
  "ConnectionTracker_new now = \<lparr>active_connections = 0, last_activity = now\<rparr>"

definition increment :: "instant \<Rightarrow> ConnectionTracker \<Rightarrow> bool \<times> ConnectionTracker" where
  "increment now c = (True, c\<lparr>active_connections := active_connections c + 1, last_activity := now\<rparr>)"

definition decrement :: "instant \<Rightarrow> ConnectionTracker \<Rightarrow> ConnectionTracker" where
  "decrement now c =
     (let c = (if active_connections c > 0 then c\<lparr>active_connections := active_connections c - 1\<rparr> else c)
      in c\<lparr>last_activity := now\<rparr>)"

record BandwidthTracker =
  bytes_consumed :: u64
  window_start :: instant
  limit_bps :: u64

definition BandwidthTracker_new :: "instant \<Rightarrow> u64 \<Rightarrow> BandwidthTracker" where
  "BandwidthTracker_new now limit = \<lparr>bytes_consumed = 0, window_start = now, limit_bps = limit\<rparr>"

definition Bandwidth_try_consume :: "(real \<Rightarrow> real) \<Rightarrow> instant \<Rightarrow> BandwidthTracker \<Rightarrow> u64 \<Rightarrow> bool \<times> BandwidthTracker" where
  "Bandwidth_try_consume rnd now b n =
     (let elapsed = as_secs_f64 rnd (duration_since now (window_start b));
          b = (if elapsed \<ge> 1 then b\<lparr>bytes_consumed := 0, window_start := now\<rparr> else b)
      in if bytes_consumed b + n \<le> limit_bps b then (True, b\<lparr>bytes_consumed := bytes_consumed b + n\<rparr>) else (False, b))"

record RateLimiter =
  client_buckets :: "(IpAddr, Bucket) fmap"
  global_bucket :: "Bucket option"
  connection_trackers :: "(IpAddr, ConnectionTracker) fmap"
  bandwidth_trackers :: "(IpAddr, BandwidthTracker) fmap"
  rl_config :: RateLimitConfig

definition f64_of_u32 :: "u32 \<Rightarrow> real" where
  "f64_of_u32 w = of_nat (unat w)"

definition RateLimiter_new :: "instant \<Rightarrow> RateLimitConfig \<Rightarrow> RateLimiter" where
  "RateLimiter_new now config =
     \<lparr>client_buckets = fmempty,
      global_bucket = (if global_rps config > 0
        then Some (Bucket_new now (f64_of_u32 (global_burst config)) (f64_of_u32 (global_rps config))) else None),
      connection_trackers = fmempty, bandwidth_trackers = fmempty, rl_config = config\<rparr>"

text \<open>\<open>check_rate_limit\<close> reads the clock once in each bucket: \<open>t1\<close> for the global one, \<open>t2\<close> for the client's.\<close>

definition check_rate_limit :: "(real \<Rightarrow> real) \<Rightarrow> instant \<times> instant \<Rightarrow> RateLimiter \<Rightarrow> IpAddr \<Rightarrow> bool \<times> RateLimiter" where
  "check_rate_limit rnd = (\<lambda>(t1, t2) r client_ip.
     (let (ok, r) = (case global_bucket r of
            Some g \<Rightarrow> (case Bucket_try_consume rnd t1 g of (ok, g) \<Rightarrow> (ok, r\<lparr>global_bucket := Some g\<rparr>))
          | None \<Rightarrow> (True, r))
      in if \<not> ok then (False, r)
         else if per_client_rps (rl_config r) > 0 then
           let b = (case fmlookup (client_buckets r) client_ip of
                 Some b \<Rightarrow> b
               | None \<Rightarrow> Bucket_new t2 (f64_of_u32 (per_client_burst (rl_config r))) (f64_of_u32 (per_client_rps (rl_config r))))
           in (case Bucket_try_consume rnd t2 b of (ok, b) \<Rightarrow>
                 (ok, r\<lparr>client_buckets := fmupd client_ip b (client_buckets r)\<rparr>))
         else (True, r)))"

definition track_connection :: "instant \<Rightarrow> RateLimiter \<Rightarrow> IpAddr \<Rightarrow> bool \<times> RateLimiter" where
  "track_connection now r ip =
     (if max_concurrent_connections (rl_config r) = 0 then (True, r)
      else let c = (case fmlookup (connection_trackers r) ip of Some c \<Rightarrow> c | None \<Rightarrow> ConnectionTracker_new now);
               r = r\<lparr>connection_trackers := fmupd ip c (connection_trackers r)\<rparr>
           in if active_connections c \<ge> max_concurrent_connections (rl_config r) then (False, r)
              else (case increment now c of (ok, c) \<Rightarrow> (ok, r\<lparr>connection_trackers := fmupd ip c (connection_trackers r)\<rparr>)))"

definition release_connection :: "instant \<Rightarrow> RateLimiter \<Rightarrow> IpAddr \<Rightarrow> RateLimiter" where
  "release_connection now r ip =
     (case fmlookup (connection_trackers r) ip of
        Some c \<Rightarrow> r\<lparr>connection_trackers := fmupd ip (decrement now c) (connection_trackers r)\<rparr>
      | None \<Rightarrow> r)"

definition get_connection_count :: "RateLimiter \<Rightarrow> IpAddr \<Rightarrow> u32" where
  "get_connection_count r ip = (case fmlookup (connection_trackers r) ip of Some c \<Rightarrow> active_connections c | None \<Rightarrow> 0)"

definition check_bandwidth :: "(real \<Rightarrow> real) \<Rightarrow> instant \<Rightarrow> RateLimiter \<Rightarrow> IpAddr \<Rightarrow> u64 \<Rightarrow> bool \<times> RateLimiter" where
  "check_bandwidth rnd now r ip n =
     (if max_bandwidth_bps (rl_config r) = 0 then (True, r)
      else let b = (case fmlookup (bandwidth_trackers r) ip of
                Some b \<Rightarrow> b | None \<Rightarrow> BandwidthTracker_new now (max_bandwidth_bps (rl_config r)))
           in (case Bandwidth_try_consume rnd now b n of (ok, b) \<Rightarrow>
                 (ok, r\<lparr>bandwidth_trackers := fmupd ip b (bandwidth_trackers r)\<rparr>)))"

text \<open>Entries idle for longer than \<open>max_age\<close> go; a tracker with active connections stays.\<close>

definition cleanup_old_buckets :: "instant \<Rightarrow> duration \<Rightarrow> RateLimiter \<Rightarrow> RateLimiter" where
  "cleanup_old_buckets now max_age r =
     r\<lparr>client_buckets := fmfilter (\<lambda>ip. \<not> duration_since now (last_refill (the (fmlookup (client_buckets r) ip))) > max_age) (client_buckets r),
       connection_trackers := fmfilter (\<lambda>ip. let c = the (fmlookup (connection_trackers r) ip)
           in \<not> (duration_since now (last_activity c) > max_age \<and> active_connections c = 0)) (connection_trackers r),
       bandwidth_trackers := fmfilter (\<lambda>ip. \<not> duration_since now (window_start (the (fmlookup (bandwidth_trackers r) ip))) > max_age) (bandwidth_trackers r)\<rparr>"

definition client_count :: "RateLimiter \<Rightarrow> nat" where
  "client_count r = fcard (fmdom (client_buckets r))"

record ClientStats =
  current_tokens :: real
  stat_capacity :: real
  stat_refill_rate :: real

definition get_client_stats :: "RateLimiter \<Rightarrow> IpAddr \<Rightarrow> ClientStats option" where
  "get_client_stats r ip = map_option (\<lambda>b. \<lparr>current_tokens = tokens b, stat_capacity = capacity b, stat_refill_rate = refill_rate b\<rparr>)
     (fmlookup (client_buckets r) ip)"

text \<open>\<open>get_global_stats\<close>; \<open>try_get_global_stats_sync\<close> leaves the token count out.\<close>

definition get_global_stats :: "RateLimiter \<Rightarrow> ClientStats option" where
  "get_global_stats r = map_option (\<lambda>b. \<lparr>current_tokens = tokens b, stat_capacity = f64_of_u32 (global_burst (rl_config r)),
     stat_refill_rate = f64_of_u32 (global_rps (rl_config r))\<rparr>) (global_bucket r)"

section \<open>Buckets\<close>

text \<open>What is used of binary64 rounding to nearest.\<close>

definition F64_EXACT :: nat where
  "F64_EXACT = 2 ^ 53"

definition f64_rounding :: "(real \<Rightarrow> real) \<Rightarrow> bool" where
  "f64_rounding rnd \<longleftrightarrow> mono rnd \<and> (\<forall>n :: nat. n \<le> F64_EXACT \<longrightarrow> rnd (real n) = real n)"

lemma rnd_le_nat: "f64_rounding rnd \<Longrightarrow> n \<le> F64_EXACT \<Longrightarrow> x \<le> real n \<Longrightarrow> rnd x \<le> real n"
  unfolding f64_rounding_def by (metis monoD)

lemma rnd_0: "f64_rounding rnd \<Longrightarrow> rnd 0 = 0"
  unfolding f64_rounding_def by (erule conjE, drule spec [of _ 0]) simp

lemma rnd_ge_0: "f64_rounding rnd \<Longrightarrow> 0 \<le> x \<Longrightarrow> 0 \<le> rnd x"
  using rnd_0 [of rnd] monoD [of rnd 0 x] by (simp add: f64_rounding_def)

definition bucket_ok :: "Bucket \<Rightarrow> bool" where
  "bucket_ok b \<longleftrightarrow> 0 \<le> tokens b \<and> tokens b \<le> capacity b \<and> 0 \<le> refill_rate b \<and> (\<exists>n \<le> F64_EXACT. capacity b = real n)"

lemma u32_exact: "unat (w :: u32) \<le> F64_EXACT"
proof -
  have "unat w < 2 ^ 32" using unsigned_less [of w, where 'a = nat] by simp
  also have "(2 :: nat) ^ 32 \<le> 2 ^ 53" by (rule power_increasing) simp_all
  finally show ?thesis by (simp add: F64_EXACT_def)
qed

lemma f64_of_u32_nat: "\<exists>n \<le> F64_EXACT. f64_of_u32 w = real n"
  unfolding f64_of_u32_def using u32_exact by blast

lemma f64_of_u32_ge_0: "0 \<le> f64_of_u32 w"
  unfolding f64_of_u32_def by (rule of_nat_0_le_iff)

lemma bucket_ok_new: "bucket_ok (Bucket_new now (f64_of_u32 c) (f64_of_u32 r))"
  using f64_of_u32_nat [of c] f64_of_u32_ge_0 [of c] f64_of_u32_ge_0 [of r] by (simp add: bucket_ok_def Bucket_new_def)

text \<open>The tokens after the refill.\<close>

definition refilled :: "(real \<Rightarrow> real) \<Rightarrow> instant \<Rightarrow> Bucket \<Rightarrow> real" where
  "refilled rnd now b =
     min (rnd (tokens b + rnd (as_secs_f64 rnd (duration_since now (last_refill b)) * refill_rate b))) (capacity b)"

lemma try_consume_eq:
  "Bucket_try_consume rnd now b =
     (if 1 \<le> refilled rnd now b then (True, b\<lparr>tokens := rnd (refilled rnd now b - 1), last_refill := now\<rparr>)
      else (False, b\<lparr>tokens := refilled rnd now b, last_refill := now\<rparr>))"
  by (simp add: Bucket_try_consume_def refilled_def Let_def)

lemma refilled_bounds:
  assumes "f64_rounding rnd" "bucket_ok b"
  shows "0 \<le> refilled rnd now b" "refilled rnd now b \<le> capacity b"
proof -
  note nn = rnd_ge_0 [OF assms(1)]
  have el: "0 \<le> as_secs_f64 rnd d" for d
    unfolding as_secs_f64_def by (intro nn add_nonneg_nonneg divide_nonneg_nonneg of_nat_0_le_iff) simp
  have "0 \<le> rnd (as_secs_f64 rnd d * refill_rate b)" for d
    using assms(2) by (intro nn mult_nonneg_nonneg el) (simp add: bucket_ok_def)
  then have "0 \<le> rnd (tokens b + rnd (as_secs_f64 rnd d * refill_rate b))" for d
    using assms(2) by (intro nn add_nonneg_nonneg) (simp_all add: bucket_ok_def el)
  moreover have "0 \<le> capacity b" using assms(2) by (auto simp: bucket_ok_def)
  ultimately show "0 \<le> refilled rnd now b" unfolding refilled_def by (rule min.boundedI)
  show "refilled rnd now b \<le> capacity b" unfolding refilled_def by (rule min.cobounded2)
qed

lemma bucket_ok_consume:
  assumes "f64_rounding rnd" "bucket_ok b" "Bucket_try_consume rnd now b = (ok, b')"
  shows "bucket_ok b' \<and> capacity b' = capacity b \<and> last_refill b' = now"
proof -
  define t where "t = refilled rnd now b"
  have t: "0 \<le> t" "t \<le> capacity b" using refilled_bounds [OF assms(1,2)] by (simp_all add: t_def)
  obtain n where n: "n \<le> F64_EXACT" "capacity b = real n" using assms(2) by (auto simp: bucket_ok_def)
  have "t - 1 \<le> real n" using t(2) n(2) by simp
  then have up: "rnd (t - 1) \<le> capacity b" using rnd_le_nat [OF assms(1) n(1)] n(2) by simp
  have lo: "0 \<le> rnd (t - 1)" if "1 \<le> t" using rnd_ge_0 [OF assms(1), of "t - 1"] that by simp
  have "b' = b\<lparr>tokens := if 1 \<le> t then rnd (t - 1) else t, last_refill := now\<rparr>"
    using assms(3) by (simp add: try_consume_eq t_def split: if_splits)
  then show ?thesis using assms(2) t up lo by (simp add: bucket_ok_def)
qed

text \<open>With the clock standing still, every token handed out lowers a whole bound on them by one.\<close>

lemma consume_bound:
  assumes "f64_rounding rnd" "n \<le> F64_EXACT" "refilled rnd now b \<le> real n" "Bucket_try_consume rnd now b = (ok, b')"
  shows "(ok \<longrightarrow> n > 0) \<and> refilled rnd now b' \<le> real (if ok then n - 1 else n)"
proof -
  define t where "t = refilled rnd now b"
  have still: "refilled rnd now c \<le> real m" if "last_refill c = now" "tokens c \<le> real m" "m \<le> F64_EXACT" for c m
    using rnd_le_nat [OF assms(1) that(3,2)] that(1) assms(1)
    by (simp add: refilled_def duration_since_def as_secs_f64_def rnd_0 min.coboundedI1)
  show ?thesis
  proof (cases "1 \<le> t")
    case True
    then have n: "n > 0" using assms(3) by (cases n) (simp_all add: t_def)
    then have "t - 1 \<le> real (n - 1)" using assms(3) by (simp add: t_def of_nat_diff)
    then have "rnd (t - 1) \<le> real (n - 1)" using rnd_le_nat [OF assms(1), of "n - 1" "t - 1"] assms(2) n by simp
    moreover have "ok" "b' = b\<lparr>tokens := rnd (t - 1), last_refill := now\<rparr>"
      using assms(4) True by (simp_all add: try_consume_eq t_def)
    ultimately show ?thesis using n assms(2) still [of b' "n - 1"] by simp
  next
    case False
    then have "\<not> ok" "b' = b\<lparr>tokens := t, last_refill := now\<rparr>" using assms(4) by (simp_all add: try_consume_eq t_def)
    then show ?thesis using still [of b' n] assms(2,3) by (simp add: t_def)
  qed
qed

section \<open>A burst of requests\<close>

text \<open>Requests from the given clients, all at one instant.\<close>

fun serve :: "(real \<Rightarrow> real) \<Rightarrow> instant \<Rightarrow> RateLimiter \<Rightarrow> IpAddr list \<Rightarrow> (IpAddr \<times> bool) list" where
  "serve rnd t r [] = []"
| "serve rnd t r (ip # ips) = (case check_rate_limit rnd (t, t) r ip of (ok, r) \<Rightarrow> (ip, ok) # serve rnd t r ips)"

definition global_bound :: "(real \<Rightarrow> real) \<Rightarrow> instant \<Rightarrow> RateLimiter \<Rightarrow> nat \<Rightarrow> bool" where
  "global_bound rnd t r n \<longleftrightarrow> n \<le> F64_EXACT \<and> (\<exists>g. global_bucket r = Some g \<and> refilled rnd t g \<le> real n)"

definition client_bound :: "(real \<Rightarrow> real) \<Rightarrow> instant \<Rightarrow> RateLimiter \<Rightarrow> IpAddr \<Rightarrow> nat \<Rightarrow> bool" where
  "client_bound rnd t r ip n \<longleftrightarrow> n \<le> F64_EXACT \<and> per_client_rps (rl_config r) > 0 \<and>
     (case fmlookup (client_buckets r) ip of Some b \<Rightarrow> refilled rnd t b \<le> real n | None \<Rightarrow> n = unat (per_client_burst (rl_config r)))"

lemma check_global:
  assumes "f64_rounding rnd" "global_bound rnd t r n" "check_rate_limit rnd (t, t) r ip = (ok, r')"
  shows "(ok \<longrightarrow> n > 0) \<and> global_bound rnd t r' (if ok then n - 1 else n)"
proof -
  obtain g where g: "global_bucket r = Some g" "refilled rnd t g \<le> real n" and n: "n \<le> F64_EXACT"
    using assms(2) by (auto simp: global_bound_def)
  obtain gok g' where c: "Bucket_try_consume rnd t g = (gok, g')" by force
  note b = consume_bound [OF assms(1) n g(2) c]
  have "global_bucket r' = Some g' \<and> (ok \<longrightarrow> gok)"
    using assms(3) g(1) c by (auto simp: check_rate_limit_def Let_def split: if_splits prod.splits)
  then show ?thesis using b n by (cases gok; cases ok) (auto simp: global_bound_def intro: order_trans)
qed

lemma check_client:
  assumes "f64_rounding rnd" "client_bound rnd t r ip n" "check_rate_limit rnd (t, t) r ip' = (ok, r')"
  shows "(ok \<and> ip' = ip \<longrightarrow> n > 0) \<and> client_bound rnd t r' ip (if ok \<and> ip' = ip then n - 1 else n)"
proof -
  have n: "n \<le> F64_EXACT" and rps: "per_client_rps (rl_config r) > 0" using assms(2) by (simp_all add: client_bound_def)
  define b where "b = (case fmlookup (client_buckets r) ip' of Some b \<Rightarrow> b
      | None \<Rightarrow> Bucket_new t (f64_of_u32 (per_client_burst (rl_config r))) (f64_of_u32 (per_client_rps (rl_config r))))"
  obtain bok b' where c: "Bucket_try_consume rnd t b = (bok, b')" by force
  have r': "rl_config r' = rl_config r \<and> (client_buckets r' = client_buckets r \<and> \<not> ok
      \<or> client_buckets r' = fmupd ip' b' (client_buckets r) \<and> ok = bok)"
    using assms(3) rps c by (auto simp: check_rate_limit_def Let_def b_def split: if_splits prod.splits option.splits)
  show ?thesis
  proof (cases "ip' = ip")
    case False
    then show ?thesis using r' assms(2) by (auto simp: client_bound_def split: option.splits)
  next
    case True
    have "capacity (Bucket_new t c w) = c" for c w by (simp add: Bucket_new_def)
    then have "refilled rnd t (Bucket_new t (f64_of_u32 w) v) \<le> real (unat w)" for w v
      unfolding refilled_def by (metis f64_of_u32_def min.cobounded2)
    then have "refilled rnd t b \<le> real n"
      using assms(2) True by (auto simp: client_bound_def b_def split: option.splits)
    from consume_bound [OF assms(1) n this c] show ?thesis
      using r' True assms(2) n rps by (cases bok) (auto simp: client_bound_def split: option.splits)
  qed
qed

lemma serve_client:
  "f64_rounding rnd \<Longrightarrow> client_bound rnd t r ip n \<Longrightarrow> length (filter (\<lambda>x. x = (ip, True)) (serve rnd t r ips)) \<le> n"
proof (induction ips arbitrary: r n)
  case (Cons ip' ips)
  obtain ok r' where c: "check_rate_limit rnd (t, t) r ip' = (ok, r')" by force
  note b = check_client [OF Cons.prems c]
  show ?case
  proof (cases "ok \<and> ip' = ip")
    case True
    then show ?thesis using Cons.IH [OF Cons.prems(1), of r' "n - 1"] b c by auto
  next
    case False
    then show ?thesis using Cons.IH [OF Cons.prems(1), of r' n] b c by auto
  qed
qed simp

lemma serve_global:
  "f64_rounding rnd \<Longrightarrow> global_bound rnd t r n \<Longrightarrow> length (filter snd (serve rnd t r ips)) \<le> n"
proof (induction ips arbitrary: r n)
  case (Cons ip' ips)
  obtain ok r' where c: "check_rate_limit rnd (t, t) r ip' = (ok, r')" by force
  note b = check_global [OF Cons.prems c]
  show ?case using Cons.IH [OF Cons.prems(1), of r'] b c by (cases ok) fastforce+
qed simp

section \<open>Connections\<close>

datatype conn_step = Track instant IpAddr | Release instant IpAddr | CleanUp instant duration

fun conn_do :: "RateLimiter \<Rightarrow> conn_step \<Rightarrow> RateLimiter" where
  "conn_do r (Track t ip) = snd (track_connection t r ip)"
| "conn_do r (Release t ip) = release_connection t r ip"
| "conn_do r (CleanUp t age) = cleanup_old_buckets t age r"

definition conn_inv :: "RateLimitConfig \<Rightarrow> RateLimiter \<Rightarrow> bool" where
  "conn_inv cfg r \<longleftrightarrow> rl_config r = cfg \<and> (\<forall>ip c. fmlookup (connection_trackers r) ip = Some c \<longrightarrow>
     max_concurrent_connections cfg > 0 \<and> active_connections c \<le> max_concurrent_connections cfg)"

lemma u32_less_Suc: "(a :: u32) < m \<Longrightarrow> a + 1 \<le> m"
  by (metis inc_le)

lemma u32_pred_le: "(a :: u32) \<le> m \<Longrightarrow> a > 0 \<Longrightarrow> a - 1 \<le> m"
  using word_sub_le [of 1 a] u32_less_Suc [of 0 a] by (simp add: order_trans)

lemma conn_inv_do: "conn_inv cfg r \<Longrightarrow> conn_inv cfg (conn_do r s)"
proof (cases s)
  case (Track t ip)
  assume inv: "conn_inv cfg r"
  define c where "c = (case fmlookup (connection_trackers r) ip of Some c \<Rightarrow> c | None \<Rightarrow> ConnectionTracker_new t)"
  have c: "active_connections c \<le> max_concurrent_connections cfg"
    using inv by (auto simp: c_def conn_inv_def ConnectionTracker_new_def split: option.split)
  show ?thesis using Track inv c
    by (auto simp: track_connection_def c_def [symmetric] increment_def conn_inv_def Let_def not_le word_gt_0 intro: u32_less_Suc)
next
  case (Release t ip)
  assume "conn_inv cfg r"
  then show ?thesis using Release
    by (auto simp: release_connection_def decrement_def conn_inv_def Let_def intro: u32_pred_le split: option.split)
next
  case (CleanUp t age)
  assume "conn_inv cfg r"
  then show ?thesis using CleanUp by (auto simp: cleanup_old_buckets_def conn_inv_def)
qed

lemma conn_inv_run: "conn_inv cfg r \<Longrightarrow> conn_inv cfg (foldl conn_do r ss)"
  by (induction ss arbitrary: r) (simp_all add: conn_inv_do)

section \<open>Properties\<close>


definition sample_limits :: RateLimitConfig where
  "sample_limits = \<lparr>per_client_rps = 1, per_client_burst = 1, global_rps = 2, global_burst = 2,
     max_concurrent_connections = 1, max_bandwidth_bps = 0\<rparr>"

lemma exact_rounding: "f64_rounding (\<lambda>x. x)"
  by (simp add: f64_rounding_def mono_def)


text \<open>
  A request that its client's own limit refuses has already taken a global token: one client that
  keeps sending exhausts the global limit and another client's first request is refused, although
  a single request was admitted.
\<close>

theorem refused_requests_spend_global_tokens:
  "serve (\<lambda>x. x) 7 (RateLimiter_new 7 sample_limits) [IpV4 1, IpV4 1, IpV4 2] = [(IpV4 1, True), (IpV4 1, False), (IpV4 2, False)]
   \<and> serve (\<lambda>x. x) 7 (RateLimiter_new 7 sample_limits) [IpV4 1, IpV4 2] = [(IpV4 1, True), (IpV4 2, True)]"
  by (simp add: check_rate_limit_def RateLimiter_new_def sample_limits_def Bucket_new_def f64_of_u32_def Bucket_try_consume_def
      as_secs_f64_def duration_since_def Let_def)

text \<open>
  The number of active connections recorded for a client never exceeds the configured maximum,
  through any sequence of opened and closed connections and clean-ups.
\<close>

theorem connection_limit_kept:
  "max_concurrent_connections cfg > 0 \<longrightarrow>
     get_connection_count (foldl conn_do (RateLimiter_new t cfg) ss) ip \<le> max_concurrent_connections cfg"
proof -
  have "conn_inv cfg (RateLimiter_new t cfg)" by (simp add: conn_inv_def RateLimiter_new_def)
  from conn_inv_run [OF this, of ss] show ?thesis
    by (auto simp: conn_inv_def get_connection_count_def split: option.split)
qed

theorem connection_limit_kept_witness:
  "get_connection_count (foldl conn_do (RateLimiter_new 7 sample_limits) [Track 8 (IpV4 1), Track 9 (IpV4 1)]) (IpV4 1) \<le> 1"
  using connection_limit_kept [of sample_limits 7 "[Track 8 (IpV4 1), Track 9 (IpV4 1)]" "IpV4 1"] by (simp add: sample_limits_def)

end
