(* ===== verification/Access_Control.thy ===== *)
theory Access_Control
  imports Server_Prelude "HOL-Library.Finite_Map"
begin

text \<open>
  Authorization of the management API: the statement language and its evaluation (\<open>access.rs\<close>) and
  the middleware that maps a request to an action, builds the attribute context and decides
  (\<open>mgmt.rs\<close>). Unicode lower-casing (as code points), address parsing and the network type of the
  \<open>ipnetwork\<close> crate are parameters. The wildcard matcher is an index loop; it is compared with the
  usual recursive meaning of \<open>*\<close> and \<open>?\<close>.
\<close>

section \<open>Wildcards\<close>

abbreviation STAR :: nat where "STAR \<equiv> 42"
abbreviation QMARK :: nat where "QMARK \<equiv> 63"

function glob_loop :: "nat list \<Rightarrow> nat list \<Rightarrow> nat \<Rightarrow> nat \<Rightarrow> nat option \<Rightarrow> nat \<Rightarrow> nat option" where
  "glob_loop p t pi ti star star_t =
     (if ti < length t then
        if pi < length p \<and> (p ! pi = QMARK \<or> p ! pi = t ! ti) then glob_loop p t (pi + 1) (ti + 1) star star_t
        else if pi < length p \<and> p ! pi = STAR then glob_loop p t (pi + 1) ti (Some pi) ti
        else (case star of
                Some s \<Rightarrow> glob_loop p t (s + 1) (star_t + 1) star (star_t + 1)
              | None \<Rightarrow> None)
      else Some pi)"
  by pat_completeness auto
termination
  by (relation "measures
        [\<lambda>(p, t, pi, ti, star, star_t). if star \<noteq> None \<and> ti < star_t then 1 else 0,
         \<lambda>(p, t, pi, ti, star, star_t). if star = None then length t + 1 else length t - star_t,
         \<lambda>(p, t, pi, ti, star, star_t). length t - ti,
         \<lambda>(p, t, pi, ti, star, star_t). length p - pi]") auto

declare glob_loop.simps [simp del]

function skip_stars :: "nat list \<Rightarrow> nat \<Rightarrow> nat" where
  "skip_stars p pi = (if pi < length p \<and> p ! pi = STAR then skip_stars p (pi + 1) else pi)"
  by pat_completeness auto
termination
  by (relation "measure (\<lambda>(p, pi). length p - pi)") auto

declare skip_stars.simps [simp del]

text \<open>The loop returns \<open>None\<close> at the early \<open>return false\<close> and the pattern index otherwise.\<close>

definition glob_chars :: "nat list \<Rightarrow> nat list \<Rightarrow> bool" where
  "glob_chars p t = (case glob_loop p t 0 0 None 0 of None \<Rightarrow> False | Some pi \<Rightarrow> skip_stars p pi = length p)"

definition glob_match :: "(string \<Rightarrow> nat list) \<Rightarrow> string \<Rightarrow> string \<Rightarrow> bool" where
  "glob_match lower_chars pat txt = glob_chars (lower_chars pat) (lower_chars txt)"

section \<open>Conditions, statements, policies\<close>

datatype AccessEffect = Allow | Deny

datatype ConditionOp =
  StringEquals | StringNotEquals | StringLike | StringNotLike | IpAddress | NotIpAddress | Bool

record ConditionEntry =
  operator :: ConditionOp
  ckey :: string
  cvalues :: "string list"

type_synonym AccessContext = "(string, string list) fmap"

definition context_get :: "AccessContext \<Rightarrow> string \<Rightarrow> string list" where
  "context_get ctx k = (case fmlookup ctx k of Some v \<Rightarrow> v | None \<Rightarrow> [])"

definition context_set :: "AccessContext \<Rightarrow> string \<Rightarrow> string option \<Rightarrow> AccessContext" where
  "context_set ctx k v = (case v of Some v \<Rightarrow> if v \<noteq> [] then fmupd k [v] ctx else ctx | None \<Rightarrow> ctx)"

definition context_set_multi :: "AccessContext \<Rightarrow> string \<Rightarrow> string list \<Rightarrow> AccessContext" where
  "context_set_multi ctx k vs =
     (let vals = filter (\<lambda>v. v \<noteq> []) vs in if vals \<noteq> [] then fmupd k vals ctx else ctx)"

definition is_negative :: "ConditionEntry \<Rightarrow> bool" where
  "is_negative c \<longleftrightarrow> operator c \<in> {StringNotEquals, StringNotLike, NotIpAddress}"

definition pair_matches :: "(string \<Rightarrow> nat list) \<Rightarrow> 'n ip_lib \<Rightarrow> ConditionEntry \<Rightarrow> string \<Rightarrow> string \<Rightarrow> bool" where
  "pair_matches lower_chars lib c actual expected =
     (case operator c of
        StringEquals \<Rightarrow> eq_ignore_ascii_case actual expected
      | StringNotEquals \<Rightarrow> eq_ignore_ascii_case actual expected
      | StringLike \<Rightarrow> glob_match lower_chars expected actual
      | StringNotLike \<Rightarrow> glob_match lower_chars expected actual
      | IpAddress \<Rightarrow> in_cidr lib actual expected
      | NotIpAddress \<Rightarrow> in_cidr lib actual expected
      | Bool \<Rightarrow> eq_ignore_ascii_case actual expected)"

definition entry_matches :: "(string \<Rightarrow> nat list) \<Rightarrow> 'n ip_lib \<Rightarrow> ConditionEntry \<Rightarrow> AccessContext \<Rightarrow> bool" where
  "entry_matches lower_chars lib c ctx =
     (let actuals = context_get ctx (ckey c)
      in if is_negative c
         then \<not> list_ex (\<lambda>a. list_ex (pair_matches lower_chars lib c a) (cvalues c)) actuals
         else list_ex (\<lambda>a. list_ex (pair_matches lower_chars lib c a) (cvalues c)) actuals)"

fun check_cidrs :: "'n ip_lib \<Rightarrow> string \<Rightarrow> string list \<Rightarrow> string + unit" where
  "check_cidrs lib k [] = Inr ()"
| "check_cidrs lib k (v # vs) =
     res_bind (map_err (\<lambda>e. ''invalid CIDR '' @ quoted v @ '' in condition on '' @ quoted k @ '': '' @ e) (parse_net lib v))
       (\<lambda>_. check_cidrs lib k vs)"

definition entry_validate :: "'n ip_lib \<Rightarrow> ConditionEntry \<Rightarrow> string + unit" where
  "entry_validate lib c =
     (if cvalues c = [] then Inl (''condition on '' @ quoted (ckey c) @ '' has no values'')
      else if operator c \<in> {IpAddress, NotIpAddress} then check_cidrs lib (ckey c) (cvalues c)
      else Inr ())"

record Statement =
  sid :: "string option"
  effect :: AccessEffect
  st_action :: "string list"
  st_resource :: "string list"
  st_condition :: "ConditionEntry list"

definition applies :: "(string \<Rightarrow> nat list) \<Rightarrow> 'n ip_lib \<Rightarrow> Statement \<Rightarrow> string \<Rightarrow> string \<Rightarrow> AccessContext \<Rightarrow> bool" where
  "applies lower_chars lib s action resource ctx \<longleftrightarrow>
     list_ex (\<lambda>a. glob_match lower_chars a action) (st_action s)
     \<and> list_ex (\<lambda>r. glob_match lower_chars r resource) (st_resource s)
     \<and> list_all (\<lambda>c. entry_matches lower_chars lib c ctx) (st_condition s)"

definition sid_or_unnamed :: "string option \<Rightarrow> string" where
  "sid_or_unnamed s = (case s of Some n \<Rightarrow> n | None \<Rightarrow> ''<unnamed>'')"

fun check_conditions :: "'n ip_lib \<Rightarrow> string \<Rightarrow> ConditionEntry list \<Rightarrow> string + unit" where
  "check_conditions lib who [] = Inr ()"
| "check_conditions lib who (c # cs) =
     res_bind (map_err (\<lambda>e. ''statement '' @ quoted who @ '': '' @ e) (entry_validate lib c))
       (\<lambda>_. check_conditions lib who cs)"

definition statement_validate :: "'n ip_lib \<Rightarrow> Statement \<Rightarrow> string + unit" where
  "statement_validate lib s =
     (let who = sid_or_unnamed (sid s)
      in if st_action s = [] then Inl (''statement '' @ quoted who @ '' has no actions'')
         else if st_resource s = [] then Inl (''statement '' @ quoted who @ '' has no resources'')
         else check_conditions lib who (st_condition s))"

record AccessPolicy =
  version :: "string option"
  statements :: "Statement list"

record AccessDecision =
  allowed :: bool
  matched_sid :: "string option"
  reason :: string

fun check_statements :: "'n ip_lib \<Rightarrow> Statement list \<Rightarrow> string + unit" where
  "check_statements lib [] = Inr ()"
| "check_statements lib (s # ss) = res_bind (statement_validate lib s) (\<lambda>_. check_statements lib ss)"

definition policy_validate :: "'n ip_lib \<Rightarrow> AccessPolicy \<Rightarrow> string + unit" where
  "policy_validate lib p = check_statements lib (statements p)"

text \<open>The scan with the identifier of the first applicable \<open>Allow\<close> so far.\<close>

fun evaluate_loop ::
    "(string \<Rightarrow> nat list) \<Rightarrow> 'n ip_lib \<Rightarrow> string \<Rightarrow> string \<Rightarrow> AccessContext \<Rightarrow> Statement list \<Rightarrow> string option option \<Rightarrow> AccessDecision" where
  "evaluate_loop lower_chars lib action resource ctx [] allow_sid =
     (case allow_sid of
        Some i \<Rightarrow> \<lparr>allowed = True, matched_sid = i,
          reason = ''allowed by statement '' @ quoted (sid_or_unnamed i) @ '' for '' @ action @ '' on '' @ resource\<rparr>
      | None \<Rightarrow> \<lparr>allowed = False, matched_sid = None,
          reason = ''implicit Deny (no statement allows '' @ action @ '' on '' @ resource @ '')''\<rparr>)"
| "evaluate_loop lower_chars lib action resource ctx (s # ss) allow_sid =
     (if \<not> applies lower_chars lib s action resource ctx then evaluate_loop lower_chars lib action resource ctx ss allow_sid
      else (case effect s of
              Deny \<Rightarrow> \<lparr>allowed = False, matched_sid = sid s,
                reason = ''explicit Deny by statement '' @ quoted (sid_or_unnamed (sid s)) @ '' for '' @ action @ '' on '' @ resource\<rparr>
            | Allow \<Rightarrow> evaluate_loop lower_chars lib action resource ctx ss
                (if allow_sid = None then Some (sid s) else allow_sid)))"

definition evaluate_access ::
    "(string \<Rightarrow> nat list) \<Rightarrow> 'n ip_lib \<Rightarrow> AccessPolicy \<Rightarrow> string \<Rightarrow> string \<Rightarrow> AccessContext \<Rightarrow> AccessDecision" where
  "evaluate_access lower_chars lib p action resource ctx =
     evaluate_loop lower_chars lib action resource ctx (statements p) None"

section \<open>The meaning of a pattern\<close>

fun glob :: "nat list \<Rightarrow> nat list \<Rightarrow> bool" where
  "glob [] t = (t = [])"
| "glob (c # p) t =
     (if c = STAR then list_ex (\<lambda>k. glob p (drop k t)) [0..<Suc (length t)]
      else case t of [] \<Rightarrow> False | x # t \<Rightarrow> (c = QMARK \<or> c = x) \<and> glob p t)"

lemma glob_star: "glob (STAR # p) t \<longleftrightarrow> (\<exists>k \<le> length t. glob p (drop k t))"
  by (auto simp: list_ex_iff less_Suc_eq_le simp del: upt_Suc)

lemma glob_star_drop: "glob (STAR # p) (drop k t) \<Longrightarrow> glob (STAR # p) t"
proof -
  assume "glob (STAR # p) (drop k t)"
  then obtain j where "j \<le> length t - k" "glob p (drop (j + k) t)" unfolding glob_star by (auto simp: add.commute)
  then show ?thesis unfolding glob_star
    by (cases "k \<le> length t") (auto intro: exI [of _ "j + k"] exI [of _ "length t"])
qed

lemma glob_star_skip: "glob p t \<Longrightarrow> glob (STAR # p) t"
  unfolding glob_star by (auto intro: exI [of _ 0])

lemma glob_star_Cons: "glob (STAR # p) (x # t) \<longleftrightarrow> glob p (x # t) \<or> glob (STAR # p) t"
proof
  assume "glob (STAR # p) (x # t)"
  then obtain k where "k \<le> Suc (length t)" "glob p (drop k (x # t))" unfolding glob_star by auto
  then show "glob p (x # t) \<or> glob (STAR # p) t" unfolding glob_star by (cases k) auto
next
  assume "glob p (x # t) \<or> glob (STAR # p) t"
  then show "glob (STAR # p) (x # t)"
    using glob_star_skip [of p "x # t"] glob_star_drop [of p 1 "x # t"] by (auto simp del: glob.simps)
qed

lemma glob_Nil: "glob p [] \<longleftrightarrow> (\<forall>c \<in> set p. c = STAR)"
  by (induction p) auto

declare glob.simps(2) [simp del]

lemma glob_lit: "c \<noteq> STAR \<Longrightarrow> glob (c # p) (x # t) \<longleftrightarrow> (c = QMARK \<or> c = x) \<and> glob p t"
  by (simp add: glob.simps)

text \<open>A stretch of pattern without \<open>*\<close> against as many characters.\<close>

definition lit :: "nat list \<Rightarrow> nat list \<Rightarrow> bool" where
  "lit = list_all2 (\<lambda>c x. c \<noteq> STAR \<and> (c = QMARK \<or> c = x))"

lemma lit_simps [simp]: "lit [] xs \<longleftrightarrow> xs = []" "lit (c # s) (x # xs) \<longleftrightarrow> c \<noteq> STAR \<and> (c = QMARK \<or> c = x) \<and> lit s xs"
  by (simp_all add: lit_def)

lemma lit_append: "lit s xs \<Longrightarrow> c \<noteq> STAR \<Longrightarrow> c = QMARK \<or> c = x \<Longrightarrow> lit (s @ [c]) (xs @ [x])"
  by (auto simp: lit_def intro: list_all2_appendI)

lemma glob_lit_append: "lit s xs \<Longrightarrow> glob (s @ p) (xs @ t) = glob p t"
  unfolding lit_def by (induction rule: list_all2_induct) (auto simp: glob_lit)

lemma glob_segment:
  assumes "\<forall>c \<in> set s. c \<noteq> STAR" "glob (s @ p) t"
  shows "length s \<le> length t \<and> glob p (drop (length s) t)"
  using assms by (induction s arbitrary: t) (auto simp: glob.simps split: list.splits)

lemma lit_no_star: "lit s xs \<Longrightarrow> (\<forall>c \<in> set s. c \<noteq> STAR) \<and> length s = length xs"
  by (auto simp: lit_def list_all2_conv_all_nth in_set_conv_nth)

text \<open>The last \<open>*\<close> absorbs what an earlier one could have skipped.\<close>

lemma glob_last_star:
  assumes "lit s xs"
  shows "glob (STAR # s @ STAR # q) (xs @ t) \<longleftrightarrow> glob (STAR # q) t"
proof
  assume "glob (STAR # s @ STAR # q) (xs @ t)"
  then obtain k where k: "k \<le> length (xs @ t)" "glob (s @ STAR # q) (drop k (xs @ t))" unfolding glob_star by blast
  have "length xs + (k - length xs) - (length xs - k) = k" by simp
  with glob_segment [OF _ k(2)] lit_no_star [OF assms] have "glob (STAR # q) (drop k t)" by simp
  then show "glob (STAR # q) t" by (rule glob_star_drop)
next
  assume "glob (STAR # q) t"
  then show "glob (STAR # s @ STAR # q) (xs @ t)" using glob_lit_append [OF assms] glob_star_skip by blast
qed

lemma glob_end_star:
  assumes "lit s xs"
  shows "glob (STAR # s @ q) xs \<longleftrightarrow> glob q []"
proof
  assume "glob (STAR # s @ q) xs"
  then obtain k where k: "k \<le> length xs" "glob (s @ q) (drop k xs)" unfolding glob_star by blast
  from glob_segment [OF _ k(2)] lit_no_star [OF assms] k(1) have "length xs \<le> length xs - k" "glob q (drop (length xs + k) xs)"
    by simp_all
  then show "glob q []" by simp
next
  assume "glob q []"
  then show "glob (STAR # s @ q) xs" using glob_lit_append [OF assms, of q "[]"] glob_star_skip by auto
qed

lemma skip_stars_all: "pi \<le> length p \<Longrightarrow> skip_stars p pi = length p \<longleftrightarrow> glob (drop pi p) []"
proof (induction p pi rule: skip_stars.induct)
  case (1 p pi)
  show ?case
  proof (cases "pi < length p")
    case True
    then have "drop pi p = p ! pi # drop (pi + 1) p" by (simp add: Cons_nth_drop_Suc)
    then show ?thesis using 1 True by (subst skip_stars.simps) (auto simp: glob_Nil)
  next
    case False
    then show ?thesis using "1.prems" by (subst skip_stars.simps) (auto simp: glob_Nil)
  qed
qed

section \<open>The loop decides the pattern\<close>

definition glob_state :: "nat list \<Rightarrow> nat list \<Rightarrow> nat \<Rightarrow> nat \<Rightarrow> nat option \<Rightarrow> nat \<Rightarrow> bool" where
  "glob_state p t pi ti star star_t \<longleftrightarrow> pi \<le> length p \<and> ti \<le> length t \<and>
     (case star of
        None \<Rightarrow> glob p t = glob (drop pi p) (drop ti t)
      | Some s \<Rightarrow> \<exists>seg xs. drop s p = STAR # seg @ drop pi p \<and> drop star_t t = xs @ drop ti t \<and> lit seg xs
          \<and> s < length p \<and> glob p t = glob (drop s p) (drop star_t t))"

definition glob_result :: "nat list \<Rightarrow> nat option \<Rightarrow> bool" where
  "glob_result p r = (case r of None \<Rightarrow> False | Some pi \<Rightarrow> skip_stars p pi = length p)"

lemma glob_state_char:
  assumes "glob_state p t pi ti star star_t" "ti < length t" "pi < length p" "p ! pi = QMARK \<or> p ! pi = t ! ti" "p ! pi \<noteq> STAR"
  shows "glob_state p t (pi + 1) (ti + 1) star star_t"
proof -
  have d: "drop pi p = p ! pi # drop (pi + 1) p" "drop ti t = t ! ti # drop (ti + 1) t"
    using assms by (simp_all add: Cons_nth_drop_Suc)
  show ?thesis
  proof (cases star)
    case None
    then show ?thesis using assms d by (simp add: glob_state_def glob_lit)
  next
    case (Some s)
    then obtain seg xs where s: "drop s p = STAR # seg @ drop pi p" "drop star_t t = xs @ drop ti t" "lit seg xs"
        "s < length p" "glob p t = glob (drop s p) (drop star_t t)"
      using assms(1) by (auto simp: glob_state_def)
    have "drop s p = STAR # (seg @ [p ! pi]) @ drop (pi + 1) p" "drop star_t t = (xs @ [t ! ti]) @ drop (ti + 1) t"
        "lit (seg @ [p ! pi]) (xs @ [t ! ti])"
      using s(1-3) d assms by (auto intro: lit_append)
    moreover have "pi + 1 \<le> length p" "ti + 1 \<le> length t" using assms(2,3) by simp_all
    ultimately show ?thesis unfolding glob_state_def Some option.case using s(4,5) by blast
  qed
qed

lemma glob_state_star:
  assumes "glob_state p t pi ti star star_t" "ti < length t" "pi < length p" "p ! pi = STAR"
  shows "glob_state p t (pi + 1) ti (Some pi) ti"
proof -
  have d: "drop pi p = STAR # drop (pi + 1) p" using assms Cons_nth_drop_Suc [of pi p] by simp
  have "glob p t = glob (drop pi p) (drop ti t)"
    using assms(1) by (cases star) (auto simp: glob_state_def d glob_last_star)
  then show ?thesis using assms d by (auto simp: glob_state_def)
qed

text \<open>Neither a character nor a \<open>*\<close> at the current position: the position itself cannot match.\<close>

lemma glob_mismatch:
  assumes "ti < length t" "\<not> (pi < length p \<and> (p ! pi = QMARK \<or> p ! pi = t ! ti))" "\<not> (pi < length p \<and> p ! pi = STAR)"
  shows "\<not> glob (drop pi p) (drop ti t)"
proof -
  have t: "drop ti t = t ! ti # drop (ti + 1) t" using assms by (simp add: Cons_nth_drop_Suc)
  show ?thesis
  proof (cases "pi < length p")
    case True
    then have "drop pi p = p ! pi # drop (pi + 1) p" by (simp add: Cons_nth_drop_Suc)
    then show ?thesis using assms True t by (auto simp: glob_lit)
  next
    case False
    then show ?thesis using t by simp
  qed
qed

lemma glob_state_backtrack:
  assumes "glob_state p t pi ti (Some s) star_t" "ti < length t" "\<not> glob (drop pi p) (drop ti t)"
  shows "glob_state p t (s + 1) (star_t + 1) (Some s) (star_t + 1)"
proof -
  obtain seg xs where s: "drop s p = STAR # seg @ drop pi p" "drop star_t t = xs @ drop ti t" "lit seg xs"
      "s < length p" "glob p t = glob (drop s p) (drop star_t t)"
    using assms(1) by (auto simp: glob_state_def)
  have tail: "drop (s + 1) p = seg @ drop pi p" using s(1) by (metis One_nat_def Suc_eq_plus1 drop_Suc list.sel(3) tl_drop)
  have lt: "star_t < length t" using s(2) assms(2) by (metis append_is_Nil_conv drop_eq_Nil not_le)
  then have t: "drop star_t t = t ! star_t # drop (star_t + 1) t" by (simp add: Cons_nth_drop_Suc)
  have "\<not> glob (drop (s + 1) p) (drop star_t t)"
    unfolding tail s(2) using assms(3) glob_lit_append [OF s(3)] by simp
  moreover have p: "drop s p = STAR # drop (s + 1) p" using s(1) tail by simp
  ultimately have "glob p t = glob (drop s p) (drop (star_t + 1) t)"
    unfolding s(5) p by (metis glob_star_Cons t)
  then show ?thesis using s(4) lt p by (auto simp: glob_state_def)
qed

lemma glob_loop_result:
  assumes "STAR \<notin> set t" "glob_state p t pi ti star star_t"
  shows "glob_result p (glob_loop p t pi ti star star_t) = glob p t"
  using assms
proof (induction p t pi ti star star_t rule: glob_loop.induct)
  case (1 p t pi ti star star_t)
  let ?char = "pi < length p \<and> (p ! pi = QMARK \<or> p ! pi = t ! ti)" and ?star = "pi < length p \<and> p ! pi = STAR"
  consider "ti < length t" ?char | "ti < length t" "\<not> ?char" ?star
    | "ti < length t" "\<not> ?char" "\<not> ?star" | "\<not> ti < length t" by blast
  then show ?case
  proof cases
    case 1
    then have "p ! pi \<noteq> STAR" using "1.prems" by (metis nth_mem numeral_eq_iff semiring_norm(83,86,89,90))
    then show ?thesis using 1 "1.prems" "1.IH"(1) glob_state_char by (subst glob_loop.simps) simp
  next
    case 2
    then show ?thesis using "1.prems" "1.IH"(2) glob_state_star by (subst glob_loop.simps) simp
  next
    case 3
    then have no: "\<not> glob (drop pi p) (drop ti t)" by (rule glob_mismatch)
    show ?thesis
    proof (cases star)
      case None
      then show ?thesis using 3 no "1.prems" by (subst glob_loop.simps) (auto simp: glob_result_def glob_state_def)
    next
      case (Some s)
      then show ?thesis using 3 no "1.prems" "1.IH"(3) glob_state_backtrack
        by (subst glob_loop.simps) (simp split del: if_split add: if_not_P)
    qed
  next
    case 4
    then have "drop ti t = []" by simp
    then have "glob p t = glob (drop pi p) []"
      using "1.prems"(2) by (cases star) (auto simp: glob_state_def glob_end_star)
    then show ?thesis using 4 "1.prems" by (subst glob_loop.simps) (simp add: glob_result_def skip_stars_all glob_state_def)
  qed
qed

lemma glob_chars_result: "glob_chars p t = glob_result p (glob_loop p t 0 0 None 0)"
  by (simp add: glob_chars_def glob_result_def)

text \<open>Without the assumption on the text a positive answer is still right.\<close>

definition glob_sound :: "nat list \<Rightarrow> nat list \<Rightarrow> nat \<Rightarrow> nat \<Rightarrow> nat option \<Rightarrow> nat \<Rightarrow> bool" where
  "glob_sound p t pi ti star star_t \<longleftrightarrow> pi \<le> length p \<and> (glob (drop pi p) (drop ti t) \<longrightarrow> glob p t)
     \<and> (case star of None \<Rightarrow> True
        | Some s \<Rightarrow> s < length p \<and> p ! s = STAR \<and> (glob (drop s p) (drop star_t t) \<longrightarrow> glob p t))"

lemma glob_loop_sound:
  assumes "glob_sound p t pi ti star star_t" "glob_result p (glob_loop p t pi ti star star_t)"
  shows "glob p t"
  using assms
proof (induction p t pi ti star star_t rule: glob_loop.induct)
  case (1 p t pi ti star star_t)
  let ?char = "pi < length p \<and> (p ! pi = QMARK \<or> p ! pi = t ! ti)" and ?star = "pi < length p \<and> p ! pi = STAR"
  have cons: "drop i xs = xs ! i # drop (i + 1) xs" if "i < length xs" for i and xs :: "nat list"
    using that by (simp add: Cons_nth_drop_Suc)
  have star: "glob (drop (i + 1) p) (drop j t) \<Longrightarrow> glob (drop i p) (drop j t)"
      "glob (drop i p) (drop (j + 1) t) \<Longrightarrow> glob (drop i p) (drop j t)" if "i < length p" "p ! i = STAR" for i j
    using that glob_star_skip glob_star_drop [of "drop (i + 1) p" 1 "drop j t"] by (simp_all add: cons)
  note inv = "1.prems"(1) [unfolded glob_sound_def]
  note res = "1.prems"(2)
  consider "ti < length t" ?char | "ti < length t" "\<not> ?char" ?star
    | s where "ti < length t" "\<not> ?char" "\<not> ?star" "star = Some s" | "ti < length t" "\<not> ?char" "\<not> ?star" "star = None" | "\<not> ti < length t" by blast
  then show ?case
  proof cases
    case 1
    have "glob (drop (pi + 1) p) (drop (ti + 1) t) \<Longrightarrow> glob (drop pi p) (drop ti t)"
      using star(1) [of pi "ti + 1"] star(2) [of pi ti] 1 cons [of pi p] cons [of ti t] glob_lit by (cases "p ! pi = STAR") auto
    then have "glob_sound p t (pi + 1) (ti + 1) star star_t" using 1 inv by (auto simp: glob_sound_def)
    then show ?thesis using 1 "1.IH"(1) res by (subst (asm) glob_loop.simps) simp
  next
    case 2
    then have "glob_sound p t (pi + 1) ti (Some pi) ti" using inv star(1) [of pi ti] by (auto simp: glob_sound_def)
    then show ?thesis using 2 "1.IH"(2) res by (subst (asm) glob_loop.simps) simp
  next
    case (3 s)
    then have "glob_sound p t (s + 1) (star_t + 1) (Some s) (star_t + 1)"
      using inv star(1) [of s "star_t + 1"] star(2) [of s star_t] by (auto simp: glob_sound_def)
    then show ?thesis using 3 "1.IH"(3) res by (subst (asm) glob_loop.simps) (simp add: if_not_P split del: if_split)
  next
    case 4
    then have "glob_loop p t pi ti star star_t = None" by (subst glob_loop.simps) auto
    then show ?thesis using res by (simp add: glob_result_def)
  next
    case 5
    then show ?thesis using res inv by (subst (asm) glob_loop.simps) (simp add: glob_result_def skip_stars_all)
  qed
qed

section \<open>Evaluation\<close>

lemma evaluate_loop_spec:
  "evaluate_loop lower_chars lib action resource ctx ss allow_sid =
     (case find (\<lambda>s. applies lower_chars lib s action resource ctx \<and> effect s = Deny) ss of
        Some s \<Rightarrow> \<lparr>allowed = False, matched_sid = sid s,
          reason = ''explicit Deny by statement '' @ quoted (sid_or_unnamed (sid s)) @ '' for '' @ action @ '' on '' @ resource\<rparr>
      | None \<Rightarrow> evaluate_loop lower_chars lib action resource ctx []
          (case allow_sid of Some i \<Rightarrow> Some i
           | None \<Rightarrow> map_option sid (find (\<lambda>s. applies lower_chars lib s action resource ctx \<and> effect s = Allow) ss)))"
proof (induction ss arbitrary: allow_sid)
  case (Cons s ss)
  then show ?case
    by (cases "effect s"; cases allow_sid) (simp_all del: evaluate_loop.simps(1) split: option.split)
qed (simp split: option.split)

lemma evaluate_allowed:
  "allowed (evaluate_access lower_chars lib policy action resource ctx) \<longleftrightarrow>
     (\<exists>s \<in> set (statements policy). effect s = Allow \<and> applies lower_chars lib s action resource ctx)
     \<and> \<not> (\<exists>s \<in> set (statements policy). effect s = Deny \<and> applies lower_chars lib s action resource ctx)"
  unfolding evaluate_access_def
  by (subst evaluate_loop_spec) (auto simp: find_None_iff split: option.split dest: find_SomeD)

section \<open>The middleware\<close>

record CertIdentity =
  common_name :: "string option"
  org_unit :: "string option"
  sans :: "string list"
  fingerprint_sha256 :: string

record ConnContext =
  conn_cert :: "CertIdentity option"
  conn_peer :: SocketAddr

datatype Method = GET | PUT | POST | OtherMethod string

fun Method_as_str :: "Method \<Rightarrow> string" where
  "Method_as_str GET = ''GET''"
| "Method_as_str PUT = ''PUT''"
| "Method_as_str POST = ''POST''"
| "Method_as_str (OtherMethod m) = m"

definition route_action :: "Method \<Rightarrow> string \<Rightarrow> (string \<times> string) option" where
  "route_action m path =
     (if m = GET \<and> path = ''/api/v1/status'' then Some (''radius:GetStatus'', ''arn:usgradius:mgmt:::status'')
      else if m = GET \<and> path = ''/api/v1/clients'' then Some (''radius:ListClients'', ''arn:usgradius:mgmt:::clients'')
      else if m = GET \<and> path = ''/api/v1/users'' then Some (''radius:ListUsers'', ''arn:usgradius:mgmt:::users'')
      else if m = GET \<and> path = ''/api/v1/sessions'' then Some (''radius:ListSessions'', ''arn:usgradius:mgmt:::sessions'')
      else if m = GET \<and> path = ''/api/v1/dictionary'' then Some (''radius:GetDictionary'', ''arn:usgradius:mgmt:::dictionary'')
      else if m = GET \<and> path = ''/api/v1/policy'' then Some (''radius:GetPolicy'', ''arn:usgradius:mgmt:::policy'')
      else if m = PUT \<and> path = ''/api/v1/policy'' then Some (''radius:PutPolicy'', ''arn:usgradius:mgmt:::policy'')
      else if m = POST \<and> path = ''/api/v1/policy/dry-run'' then Some (''radius:SimulatePolicy'', ''arn:usgradius:mgmt:::policy'')
      else if m = POST \<and> path = ''/api/v1/coa'' then Some (''radius:SendCoA'', ''arn:usgradius:mgmt:::coa'')
      else None)"

text \<open>
  \<open>headers\<close> gives the value of a header that is present and visible ASCII (\<open>header_str\<close>);
  \<open>trim\<close> is the standard library's and \<open>show_ip\<close> the display form of an address.
\<close>

fun split_on :: "char \<Rightarrow> string \<Rightarrow> string list" where
  "split_on c [] = [[]]"
| "split_on c (x # xs) = (if x = c then [] # split_on c xs else (case split_on c xs of w # ws \<Rightarrow> (x # w) # ws | [] \<Rightarrow> [[x]]))"

definition build_access_context ::
    "(string \<Rightarrow> string) \<Rightarrow> (IpAddr \<Rightarrow> string) \<Rightarrow> string \<Rightarrow> string \<Rightarrow> Method \<Rightarrow> ConnContext option
     \<Rightarrow> (string \<Rightarrow> string option) \<Rightarrow> bool \<Rightarrow> AccessContext" where
  "build_access_context trim show_ip action resource m conn headers trust_forwarded_identity =
     (let ctx = fmempty;
          ctx = context_set ctx ''request:Action'' (Some action);
          ctx = context_set ctx ''request:Resource'' (Some resource);
          ctx = context_set ctx ''request:Method'' (Some (Method_as_str m));
          cert = Option.bind conn conn_cert;
          ctx = (case cert of
                   Some c \<Rightarrow>
                     let ctx = context_set ctx ''tls:ClientCN'' (common_name c);
                         ctx = context_set ctx ''tls:ClientOU'' (org_unit c);
                         ctx = context_set ctx ''tls:Fingerprint'' (Some (fingerprint_sha256 c))
                     in context_set_multi ctx ''tls:ClientSAN'' (sans c)
                 | None \<Rightarrow> ctx);
          ctx = (case conn of
                   Some c \<Rightarrow> context_set ctx ''request:SourceIp'' (Some (show_ip (sock_ip (conn_peer c))))
                 | None \<Rightarrow> ctx)
      in if cert \<noteq> None \<or> trust_forwarded_identity then
           let ctx = context_set ctx ''identity:User'' (headers ''x-auth-request-user'');
               ctx = context_set ctx ''identity:Email'' (headers ''x-auth-request-email'')
           in (case headers ''x-auth-request-groups'' of
                 Some groups \<Rightarrow> context_set_multi ctx ''identity:Group''
                   (filter (\<lambda>s. s \<noteq> []) (map trim (split_on CHR '','' groups)))
               | None \<Rightarrow> ctx)
         else ctx)"

text \<open>What the middleware does with a request: the body of the 403, or the next handler runs.\<close>

datatype MgmtOutcome = Next | Forbidden string

record MgmtSecurity =
  access_policy :: "AccessPolicy option"
  trust_forwarded :: bool

text \<open>The principal and the details of the audit entry recorded with a denial by the policy, when a logger is configured.\<close>

definition authorize ::
    "(string \<Rightarrow> nat list) \<Rightarrow> 'n ip_lib \<Rightarrow> (string \<Rightarrow> string) \<Rightarrow> (IpAddr \<Rightarrow> string) \<Rightarrow> MgmtSecurity
     \<Rightarrow> Method \<Rightarrow> string \<Rightarrow> ConnContext option \<Rightarrow> (string \<Rightarrow> string option) \<Rightarrow> MgmtOutcome \<times> (string \<times> string) option" where
  "authorize lower_chars lib trim show_ip sec m path conn headers =
     (case access_policy sec of
        None \<Rightarrow> (Next, None)
      | Some policy \<Rightarrow>
        (case route_action m path of
           None \<Rightarrow> (Forbidden ''unknown management route'', None)
         | Some (action, resource) \<Rightarrow>
             let ctx = build_access_context trim show_ip action resource m conn headers (trust_forwarded sec);
                 decision = evaluate_access lower_chars lib policy action resource ctx
             in if allowed decision then (Next, None)
                else
                  let principal = (case Option.bind (Option.bind conn conn_cert) common_name of
                        Some cn \<Rightarrow> cn
                      | None \<Rightarrow> (case headers ''x-auth-request-user'' of Some u \<Rightarrow> u | None \<Rightarrow> ''unknown''))
                  in (Forbidden (reason decision @ [CHR 0x0A]),
                      Some (principal, ''mgmt '' @ action @ '' on '' @ resource @ '': '' @ reason decision))))"

section \<open>Properties\<close>

text \<open>
  C23. The index loop decides the usual meaning of \<open>*\<close> and \<open>?\<close> on every text without a literal \<open>*\<close>, and
  a positive answer is right on every text.
\<close>

theorem glob_match_meaning:
  "(STAR \<notin> set (lower_chars txt) \<longrightarrow> glob_match lower_chars pat txt = glob (lower_chars pat) (lower_chars txt))
   \<and> (glob_match lower_chars pat txt \<longrightarrow> glob (lower_chars pat) (lower_chars txt))"
  using glob_loop_result [of "lower_chars txt" "lower_chars pat" 0 0 None 0]
    glob_loop_sound [of "lower_chars pat" "lower_chars txt" 0 0 None 0]
  by (auto simp: glob_match_def glob_chars_result glob_state_def glob_sound_def)

definition ascii_chars :: "string \<Rightarrow> nat list" where
  "ascii_chars s = map (\<lambda>c. of_char (ascii_lower c)) s"

lemmas ascii_eval = ascii_chars_def ascii_lower_def
lemmas glob_eval = glob_match_def glob_chars_def glob_loop.simps skip_stars.simps

theorem glob_match_meaning_witness:
  "STAR \<notin> set (ascii_chars ''Get'') \<and> glob_match ascii_chars ''g*T'' ''Get''
   \<and> (glob_match ascii_chars ''g*T'' ''Get'' = glob (ascii_chars ''g*T'') (ascii_chars ''Get''))"
proof -
  have "STAR \<notin> set (ascii_chars ''Get'')" by (simp add: ascii_eval)
  moreover have "glob_match ascii_chars ''g*T'' ''Get''" by (simp add: ascii_eval glob_eval)
  ultimately show ?thesis using glob_match_meaning [of ascii_chars "''Get''" "''g*T''"] by blast
qed

text \<open>
  C22. A request to the management API reaches its handler exactly when no policy is configured, or its
  route is known, some statement that applies to it allows and none denies.
\<close>

theorem authorize_iff:
  "fst (authorize lower_chars lib trim show_ip sec m path conn headers) = Next \<longleftrightarrow>
     (case access_policy sec of
        None \<Rightarrow> True
      | Some policy \<Rightarrow>
        (case route_action m path of
           None \<Rightarrow> False
         | Some (action, resource) \<Rightarrow>
             let ctx = build_access_context trim show_ip action resource m conn headers (trust_forwarded sec)
             in (\<exists>s \<in> set (statements policy). effect s = Allow \<and> applies lower_chars lib s action resource ctx)
                \<and> \<not> (\<exists>s \<in> set (statements policy). effect s = Deny \<and> applies lower_chars lib s action resource ctx)))"
  by (auto simp: authorize_def Let_def evaluate_allowed split: option.split)

text \<open>
  Identity headers have no influence on the decision unless a client certificate authenticated the
  connection or the operator opted into trusting them.
\<close>

theorem forwarded_identity_ignored:
  assumes "Option.bind conn conn_cert = None" "\<not> trust_forwarded sec"
  shows "fst (authorize lower_chars lib trim show_ip sec m path conn headers) =
     fst (authorize lower_chars lib trim show_ip sec m path conn headers')"
proof -
  have "build_access_context trim show_ip action resource m conn headers False =
      build_access_context trim show_ip action resource m conn headers' False" for action resource
    using assms(1) by (simp add: build_access_context_def)
  then show ?thesis using assms(2) by (auto simp: authorize_def Let_def split: option.split)
qed

definition sample_lib :: "unit ip_lib" where
  "sample_lib = \<lparr>parse_ip = \<lambda>_. None, parse_net = \<lambda>_. Inl ''invalid address'', net_contains = \<lambda>_ _. False\<rparr>"

text \<open>Anyone may do anything, except clients with a name under \<open>mil\<close>.\<close>

definition sample_policy :: AccessPolicy where
  "sample_policy = \<lparr>version = None, statements =
     [\<lparr>sid = Some ''any'', effect = Allow, st_action = [''*''], st_resource = [''*''], st_condition = []\<rparr>,
      \<lparr>sid = Some ''guard'', effect = Deny, st_action = [''*''], st_resource = [''*''],
       st_condition = [\<lparr>operator = StringLike, ckey = ''tls:ClientSAN'', cvalues = [''*.mil'']\<rparr>]\<rparr>]\<rparr>"

definition sample_conn :: "string \<Rightarrow> ConnContext" where
  "sample_conn name =
     \<lparr>conn_cert = Some \<lparr>common_name = None, org_unit = None, sans = [name], fingerprint_sha256 = ''00''\<rparr>,
      conn_peer = SocketAddrV4 0x0A000001 443\<rparr>"

definition sample_authorize :: "ConnContext option \<Rightarrow> (string \<Rightarrow> string option) \<Rightarrow> MgmtOutcome" where
  "sample_authorize conn headers = fst (authorize ascii_chars sample_lib id (\<lambda>_. ''10.0.0.1'')
     \<lparr>access_policy = Some sample_policy, trust_forwarded = False\<rparr> GET ''/api/v1/users'' conn headers)"

theorem forwarded_identity_ignored_witness:
  "sample_authorize None (\<lambda>_. Some ''admin'') = sample_authorize None (\<lambda>_. None)"
  unfolding sample_authorize_def by (rule forwarded_identity_ignored) simp_all

lemma glob_match_any:
  assumes "lower_chars pat = [STAR]" "STAR \<notin> set (lower_chars txt)"
  shows "glob_match lower_chars pat txt"
  using glob_loop_result [OF assms(2), of "[STAR]" 0 0 None 0] assms(1)
  by (simp add: glob_match_def glob_chars_result glob_state_def) (simp add: glob_star exI [of _ "length (lower_chars txt)"])

lemma sample_authorize_name:
  "name \<noteq> [] \<Longrightarrow> sample_authorize (Some (sample_conn name)) (\<lambda>_. None) = Next \<longleftrightarrow> \<not> glob_match ascii_chars ''*.mil'' name"
proof -
  assume "name \<noteq> []"
  then have ctx: "context_get (build_access_context id (\<lambda>_. ''10.0.0.1'') a r GET (Some (sample_conn name)) (\<lambda>_. None) False) ''tls:ClientSAN'' = [name]"
    for a r by (simp add: build_access_context_def context_get_def context_set_def context_set_multi_def sample_conn_def Let_def)
  have any: "glob_match ascii_chars ''*'' ''radius:ListUsers''" "glob_match ascii_chars ''*'' ''arn:usgradius:mgmt:::users''"
    by (rule glob_match_any; simp add: ascii_chars_def ascii_lower_def)+
  show ?thesis
    by (simp add: sample_authorize_def authorize_def Let_def route_action_def evaluate_allowed sample_policy_def applies_def any
        entry_matches_def ctx is_negative_def pair_matches_def)
qed

text \<open>
  A name that itself starts with \<open>*\<close>, as in a wildcard certificate, escapes a \<open>Deny\<close> whose pattern
  starts with \<open>*\<close>, because the loop takes the two for equal literal characters and has no position
  to return to: the name matches the pattern, the request is let through; another name under the
  same domain is refused.
\<close>

theorem wildcard_name_escapes_deny:
  "glob (ascii_chars ''*.mil'') (ascii_chars ''*.a.mil'')
   \<and> \<not> glob_match ascii_chars ''*.mil'' ''*.a.mil''
   \<and> sample_authorize (Some (sample_conn ''*.a.mil'')) (\<lambda>_. None) = Next
   \<and> sample_authorize (Some (sample_conn ''b.a.mil'')) (\<lambda>_. None) \<noteq> Next"
proof -
  have "glob (ascii_chars ''*.mil'') (ascii_chars ''*.a.mil'')"
      "\<not> glob_match ascii_chars ''*.mil'' ''*.a.mil''" "glob_match ascii_chars ''*.mil'' ''b.a.mil''"
    by (simp_all add: ascii_eval glob_eval glob.simps)
  then show ?thesis by (simp add: sample_authorize_name)
qed

end
