(* ===== verification/Policy_Engine.thy ===== *)
theory Policy_Engine
  imports Server_Prelude "HOL-Library.Finite_Map" "HOL-Library.List_Lexorder" "HOL-Library.Char_ord"
begin

text \<open>
  The authorization policy of the request path: conditions, rules, policy sets and their validation
  and evaluation (\<open>policy.rs\<close>), the context built from an Access-Request and the RADIUS attributes
  a profile returns (\<open>policy_enforce.rs\<close>). Unicode lower-casing and the \<open>regex\<close> crate are the
  fields of a \<open>text_lib\<close>; the order in which the context's map is walked is the parameter \<open>iter\<close>.
\<close>

section \<open>The policy language\<close>

record text_lib =
  to_lowercase :: "string \<Rightarrow> string"
  regex_ci :: "string \<Rightarrow> (string \<Rightarrow> bool) option"
  regex_new :: "string \<Rightarrow> string + unit"

record ReplyAttribute =
  ra_name :: string
  ra_value :: string

datatype Effect = EffectAccept | EffectReject

record AuthzProfile =
  prof_id :: string
  prof_name :: string
  prof_effect :: Effect
  prof_attributes :: "ReplyAttribute list"
  prof_reply_message :: "string option"

datatype Operator = Equals | NotEquals | Contains | StartsWith | EndsWith | MatchesRegex | InCidr

definition str_starts_with :: "string \<Rightarrow> string \<Rightarrow> bool" where
  "str_starts_with a e \<longleftrightarrow> take (length e) a = e"

definition str_ends_with :: "string \<Rightarrow> string \<Rightarrow> bool" where
  "str_ends_with a e \<longleftrightarrow> length e \<le> length a \<and> drop (length a - length e) a = e"

definition str_contains :: "string \<Rightarrow> string \<Rightarrow> bool" where
  "str_contains a e \<longleftrightarrow> list_ex (\<lambda>k. str_starts_with (drop k a) e) [0..<Suc (length a)]"

fun Operator_apply :: "text_lib \<Rightarrow> 'n ip_lib \<Rightarrow> Operator \<Rightarrow> string \<Rightarrow> string \<Rightarrow> bool" where
  "Operator_apply tx lib Equals actual expected = (to_lowercase tx actual = to_lowercase tx expected)"
| "Operator_apply tx lib NotEquals actual expected = (to_lowercase tx actual \<noteq> to_lowercase tx expected)"
| "Operator_apply tx lib Contains actual expected = str_contains (to_lowercase tx actual) (to_lowercase tx expected)"
| "Operator_apply tx lib StartsWith actual expected = str_starts_with (to_lowercase tx actual) (to_lowercase tx expected)"
| "Operator_apply tx lib EndsWith actual expected = str_ends_with (to_lowercase tx actual) (to_lowercase tx expected)"
| "Operator_apply tx lib MatchesRegex actual expected = (case regex_ci tx expected of Some is_match \<Rightarrow> is_match actual | None \<Rightarrow> False)"
| "Operator_apply tx lib InCidr actual expected = in_cidr lib actual expected"

datatype Condition =
    CondAll "Condition list"
  | CondAny "Condition list"
  | CondNot Condition
  | CondAttr string Operator string
  | CondAlways

fun condition_validate :: "text_lib \<Rightarrow> Condition \<Rightarrow> string + unit"
  and conditions_validate :: "text_lib \<Rightarrow> Condition list \<Rightarrow> string + unit" where
  "condition_validate tx (CondAll cs) =
     (if cs = [] then Inl (''an '' @ quoted ''all'' @ ''/'' @ quoted ''any'' @ '' condition must have at least one sub-condition (use ''
        @ quoted ''always'' @ '' to match every request)'')
      else conditions_validate tx cs)"
| "condition_validate tx (CondAny cs) =
     (if cs = [] then Inl (''an '' @ quoted ''all'' @ ''/'' @ quoted ''any'' @ '' condition must have at least one sub-condition (use ''
        @ quoted ''always'' @ '' to match every request)'')
      else conditions_validate tx cs)"
| "condition_validate tx (CondNot c) = condition_validate tx c"
| "condition_validate tx (CondAttr attribute operator value) =
     (if operator = MatchesRegex
      then map_err (\<lambda>e. ''invalid regex for attribute '' @ quoted attribute @ '': '' @ e) (regex_new tx value)
      else Inr ())"
| "condition_validate tx CondAlways = Inr ()"
| "conditions_validate tx [] = Inr ()"
| "conditions_validate tx (c # cs) = res_bind (condition_validate tx c) (\<lambda>_. conditions_validate tx cs)"

type_synonym context_map = "(string, string) fmap"
type_synonym context_walk = "context_map \<Rightarrow> (string \<times> string) list"

definition RequestContext_get :: "context_walk \<Rightarrow> context_map \<Rightarrow> string \<Rightarrow> string option" where
  "RequestContext_get iter ctx k = map_option snd (find (\<lambda>(name, _). eq_ignore_ascii_case name k) (iter ctx))"

fun condition_matches :: "text_lib \<Rightarrow> 'n ip_lib \<Rightarrow> context_walk \<Rightarrow> context_map \<Rightarrow> Condition \<Rightarrow> bool" where
  "condition_matches tx lib iter ctx (CondAll cs) = list_all (condition_matches tx lib iter ctx) cs"
| "condition_matches tx lib iter ctx (CondAny cs) = list_ex (condition_matches tx lib iter ctx) cs"
| "condition_matches tx lib iter ctx (CondNot c) = (\<not> condition_matches tx lib iter ctx c)"
| "condition_matches tx lib iter ctx CondAlways = True"
| "condition_matches tx lib iter ctx (CondAttr attribute operator value) =
     (case RequestContext_get iter ctx attribute of
        Some actual \<Rightarrow> Operator_apply tx lib operator actual value
      | None \<Rightarrow> operator = NotEquals)"

record Rule =
  rule_id :: string
  rule_name :: string
  rule_enabled :: bool
  rule_condition :: Condition
  rule_profile :: string

record PolicySet =
  set_id :: string
  set_name :: string
  set_enabled :: bool
  set_condition :: Condition
  set_rules :: "Rule list"

record PolicyConfig =
  policy_sets :: "PolicySet list"
  authz_profiles :: "AuthzProfile list"
  default_profile :: "string option"

record Decision =
  dec_effect :: Effect
  dec_policy_set :: "string option"
  dec_rule :: "string option"
  dec_profile :: "string option"
  dec_attributes :: "ReplyAttribute list"
  dec_reply_message :: "string option"
  dec_reason :: string

definition Decision_reject :: "string \<Rightarrow> Decision" where
  "Decision_reject why =
     \<lparr>dec_effect = EffectReject, dec_policy_set = None, dec_rule = None, dec_profile = None,
      dec_attributes = [], dec_reply_message = None, dec_reason = why\<rparr>"

definition KNOWN_REPLY_ATTRIBUTES :: "string list" where
  "KNOWN_REPLY_ATTRIBUTES =
     [''Filter-Id'', ''Reply-Message'', ''Class'', ''Session-Timeout'', ''Idle-Timeout'', ''Termination-Action'',
      ''Tunnel-Type'', ''Tunnel-Medium-Type'', ''Tunnel-Private-Group-ID'']"

definition find_profile :: "PolicyConfig \<Rightarrow> string \<Rightarrow> AuthzProfile option" where
  "find_profile p i = find (\<lambda>pr. prof_id pr = i) (authz_profiles p)"

section \<open>Validation\<close>

fun join_comma :: "string list \<Rightarrow> string" where
  "join_comma [] = []"
| "join_comma [w] = w"
| "join_comma (w # ws) = w @ '', '' @ join_comma ws"

fun check_reply_names :: "string \<Rightarrow> ReplyAttribute list \<Rightarrow> string + unit" where
  "check_reply_names pid [] = Inr ()"
| "check_reply_names pid (a # as) =
     (if ra_name a \<notin> set KNOWN_REPLY_ATTRIBUTES
      then Inl (''profile '' @ quoted pid @ '' returns unsupported attribute '' @ quoted (ra_name a)
             @ '' (supported: '' @ join_comma KNOWN_REPLY_ATTRIBUTES @ '')'')
      else check_reply_names pid as)"

text \<open>The loop over the profiles returns the set of their identifiers.\<close>

fun check_profiles :: "string set \<Rightarrow> AuthzProfile list \<Rightarrow> string + string set" where
  "check_profiles seen [] = Inr seen"
| "check_profiles seen (p # ps) =
     (if prof_id p \<in> seen then Inl (''duplicate authorization profile id '' @ quoted (prof_id p))
      else res_bind (check_reply_names (prof_id p) (prof_attributes p)) (\<lambda>_. check_profiles (insert (prof_id p) seen) ps))"

fun check_rules :: "text_lib \<Rightarrow> string set \<Rightarrow> string \<Rightarrow> string set \<Rightarrow> Rule list \<Rightarrow> string + unit" where
  "check_rules tx profile_ids sid seen [] = Inr ()"
| "check_rules tx profile_ids sid seen (r # rs) =
     (if rule_id r \<in> seen then Inl (''duplicate rule id '' @ quoted (rule_id r) @ '' in set '' @ quoted sid)
      else res_bind (map_err (\<lambda>e. ''rule '' @ quoted (rule_id r) @ '' in set '' @ quoted sid @ '': '' @ e)
             (condition_validate tx (rule_condition r))) (\<lambda>_.
        if rule_profile r \<notin> profile_ids
        then Inl (''rule '' @ quoted (rule_id r) @ '' in set '' @ quoted sid @ '' references unknown profile '' @ quoted (rule_profile r))
        else check_rules tx profile_ids sid (insert (rule_id r) seen) rs))"

fun check_sets :: "text_lib \<Rightarrow> string set \<Rightarrow> string set \<Rightarrow> PolicySet list \<Rightarrow> string + unit" where
  "check_sets tx profile_ids seen [] = Inr ()"
| "check_sets tx profile_ids seen (s # ss) =
     (if set_id s \<in> seen then Inl (''duplicate policy set id '' @ quoted (set_id s))
      else res_bind (map_err (\<lambda>e. ''policy set '' @ quoted (set_id s) @ '': '' @ e) (condition_validate tx (set_condition s))) (\<lambda>_.
        res_bind (check_rules tx profile_ids (set_id s) {} (set_rules s)) (\<lambda>_.
          check_sets tx profile_ids (insert (set_id s) seen) ss)))"

definition PolicyConfig_validate :: "text_lib \<Rightarrow> PolicyConfig \<Rightarrow> string + unit" where
  "PolicyConfig_validate tx p =
     res_bind (check_profiles {} (authz_profiles p)) (\<lambda>profile_ids.
       case default_profile p of
         Some d \<Rightarrow> if d \<notin> profile_ids then Inl (''default_profile '' @ quoted d @ '' is not a defined profile'')
                   else check_sets tx profile_ids {} (policy_sets p)
       | None \<Rightarrow> check_sets tx profile_ids {} (policy_sets p))"

section \<open>Evaluation\<close>

definition decision_from :: "PolicyConfig \<Rightarrow> string \<Rightarrow> string option \<Rightarrow> string option \<Rightarrow> Decision" where
  "decision_from p profile_id pset rule =
     (case find_profile p profile_id of
        Some pr \<Rightarrow>
          \<lparr>dec_effect = prof_effect pr, dec_policy_set = pset, dec_rule = rule, dec_profile = Some (prof_id pr),
           dec_attributes = prof_attributes pr, dec_reply_message = prof_reply_message pr,
           dec_reason = (case (pset, rule) of
               (Some s, Some r) \<Rightarrow> ''set '' @ quoted s @ '' rule '' @ quoted r @ '' -> profile '' @ quoted (prof_name pr)
             | _ \<Rightarrow> ''default profile '' @ quoted (prof_name pr))\<rparr>
      | None \<Rightarrow> Decision_reject (''profile '' @ quoted profile_id @ '' not found''))"

fun evaluate_sets :: "text_lib \<Rightarrow> 'n ip_lib \<Rightarrow> context_walk \<Rightarrow> PolicyConfig \<Rightarrow> context_map \<Rightarrow> PolicySet list \<Rightarrow> Decision" where
  "evaluate_sets tx lib iter p ctx [] =
     (case default_profile p of
        Some i \<Rightarrow> decision_from p i None None
      | None \<Rightarrow> Decision_reject ''no policy set matched'')"
| "evaluate_sets tx lib iter p ctx (s # ss) =
     (if \<not> condition_matches tx lib iter ctx (set_condition s) then evaluate_sets tx lib iter p ctx ss
      else (case find (\<lambda>r. condition_matches tx lib iter ctx (rule_condition r)) (filter rule_enabled (set_rules s)) of
              Some r \<Rightarrow> decision_from p (rule_profile r) (Some (set_name s)) (Some (rule_name r))
            | None \<Rightarrow> (case default_profile p of
                Some i \<Rightarrow> decision_from p i None None
              | None \<Rightarrow> Decision_reject (''set '' @ quoted (set_name s) @ '' matched no rule''))))"

definition evaluate :: "text_lib \<Rightarrow> 'n ip_lib \<Rightarrow> context_walk \<Rightarrow> PolicyConfig \<Rightarrow> context_map \<Rightarrow> Decision" where
  "evaluate tx lib iter p ctx = evaluate_sets tx lib iter p ctx (filter set_enabled (policy_sets p))"

section \<open>The context of a request\<close>

definition read_u32 :: "Packet \<Rightarrow> u8 \<Rightarrow> u32 option" where
  "read_u32 req ty = Option.bind (find_attribute req ty) (\<lambda>a.
     if length (attr_value a) = 4
     then Some (u32_from_be_bytes (attr_value a ! 0) (attr_value a ! 1) (attr_value a ! 2) (attr_value a ! 3)) else None)"

definition named_or :: "('a :: len word \<times> string) list \<Rightarrow> ('a word \<Rightarrow> string) \<Rightarrow> 'a word \<Rightarrow> string" where
  "named_or names other n = (case map_of names n of Some s \<Rightarrow> s | None \<Rightarrow> other n)"

definition nas_port_type_name :: "u32 \<Rightarrow> string" where
  "nas_port_type_name = named_or
     [(0, ''Async''), (1, ''Sync''), (2, ''ISDN-Sync''), (5, ''Virtual''), (15, ''Ethernet''), (17, ''Cable''),
      (18, ''Wireless-Other''), (19, ''Wireless-802.11'')] (\<lambda>n. show_nat (unat n))"

definition service_type_name :: "u32 \<Rightarrow> string" where
  "service_type_name = named_or
     [(1, ''Login''), (2, ''Framed''), (3, ''Callback-Login''), (4, ''Callback-Framed''), (5, ''Outbound''),
      (6, ''Administrative''), (7, ''NAS-Prompt''), (8, ''Authenticate-Only''), (9, ''Callback-NAS-Prompt''),
      (10, ''Call-Check''), (11, ''Callback-Administrative'')] (\<lambda>n. show_nat (unat n))"

definition framed_protocol_name :: "u32 \<Rightarrow> string" where
  "framed_protocol_name = named_or
     [(1, ''PPP''), (2, ''SLIP''), (3, ''ARAP''), (4, ''Gandalf-SLML''), (5, ''Xylogics-IPX-SLIP''),
      (6, ''X.75-Synchronous'')] (\<lambda>n. show_nat (unat n))"

definition eap_type_name :: "u8 \<Rightarrow> string" where
  "eap_type_name = named_or
     [(1, ''Identity''), (2, ''Notification''), (4, ''MD5-Challenge''), (6, ''GTC''), (13, ''EAP-TLS''), (21, ''EAP-TTLS''),
      (25, ''PEAP''), (43, ''EAP-FAST''), (55, ''EAP-TEAP'')] (\<lambda>n. ''EAP-Type-'' @ show_nat (unat n))"

definition request_eap_type :: "Packet \<Rightarrow> string option" where
  "request_eap_type request = Option.bind (find_attribute request (AttributeType_as_u8 EapMessage)) (\<lambda>a.
     if length (attr_value a) \<ge> 5 \<and> (attr_value a ! 0 = 1 \<or> attr_value a ! 0 = 2)
     then Some (eap_type_name (attr_value a ! 4)) else None)"

text \<open>\<open>insert\<close> under a condition that binds the value.\<close>

definition insert_some :: "string \<Rightarrow> string option \<Rightarrow> context_map \<Rightarrow> context_map" where
  "insert_some k v m = (case v of Some s \<Rightarrow> fmupd k s m | None \<Rightarrow> m)"

text \<open>\<open>show_ipv6\<close> is the display form of an IPv6 address.\<close>

definition request_context :: "(arr16 \<Rightarrow> string) \<Rightarrow> Packet \<Rightarrow> string \<Rightarrow> context_map" where
  "request_context show_ipv6 request username =
     (let attrs = fmupd ''User-Name'' username fmempty;
          attrs = foldl (\<lambda>attrs (name, ty). insert_some name
              (map_option (\<lambda>a. bytes_str (from_utf8_lossy (attr_value a))) (find_attribute request (AttributeType_as_u8 ty))) attrs)
            attrs [(''NAS-Identifier'', NasIdentifier), (''Called-Station-Id'', CalledStationId),
                   (''Calling-Station-Id'', CallingStationId), (''Filter-Id'', FilterId)];
          attrs = insert_some ''NAS-IP-Address'' (Option.bind (find_attribute request (AttributeType_as_u8 NasIpAddress)) (\<lambda>a.
              if length (attr_value a) = 4
              then Some (show_nat (unat (attr_value a ! 0)) @ ''.'' @ show_nat (unat (attr_value a ! 1)) @ ''.''
                     @ show_nat (unat (attr_value a ! 2)) @ ''.'' @ show_nat (unat (attr_value a ! 3))) else None)) attrs;
          attrs = insert_some ''NAS-IPv6-Address'' (Option.bind (find_attribute request (AttributeType_as_u8 NasIpv6Address))
              (\<lambda>a. map_option show_ipv6 (res_ok (as_ipv6 a)))) attrs;
          attrs = insert_some ''NAS-Port-Type'' (map_option nas_port_type_name (read_u32 request (AttributeType_as_u8 NasPortType))) attrs;
          attrs = insert_some ''Service-Type'' (map_option service_type_name (read_u32 request (AttributeType_as_u8 ServiceType))) attrs;
          attrs = insert_some ''Framed-Protocol'' (map_option framed_protocol_name (read_u32 request (AttributeType_as_u8 FramedProtocol))) attrs
      in insert_some ''EAP-Type'' (request_eap_type request) attrs)"

section \<open>The attributes of a reply\<close>

definition TUNNEL_TAG :: u8 where
  "TUNNEL_TAG = 1"

text \<open>\<open>str::parse::<u32>\<close>: an optional \<open>+\<close>, at least one digit, no overflow.\<close>

fun parse_digits :: "nat \<Rightarrow> string \<Rightarrow> nat option" where
  "parse_digits acc [] = Some acc"
| "parse_digits acc (c # cs) =
     (if 48 \<le> (of_char c :: nat) \<and> (of_char c :: nat) \<le> 57
      then let acc = acc * 10 + (of_char c - 48) in if acc < 2 ^ 32 then parse_digits acc cs else None
      else None)"

definition parse_u32 :: "string \<Rightarrow> u32 option" where
  "parse_u32 s =
     (let digits = (case s of c # cs \<Rightarrow> if c = CHR ''+'' then cs else s | [] \<Rightarrow> [])
      in if digits = [] then None else map_option word_of_nat (parse_digits 0 digits))"

definition tagged_integer :: "u8 \<Rightarrow> u32 \<Rightarrow> Attribute option" where
  "tagged_integer ty n =
     res_ok (Attribute_new ty [TUNNEL_TAG, ucast (drop_bit 16 n), ucast (drop_bit 8 n), ucast n])"

definition reply_attribute :: "ReplyAttribute \<Rightarrow> Attribute option" where
  "reply_attribute ra =
     (let name = ra_name ra; value = ra_value ra
      in if name = ''Filter-Id'' then res_ok (Attribute_string (AttributeType_as_u8 FilterId) value)
         else if name = ''Reply-Message'' then res_ok (Attribute_string (AttributeType_as_u8 ReplyMessage) value)
         else if name = ''Class'' then res_ok (Attribute_string (AttributeType_as_u8 Class) value)
         else if name = ''Session-Timeout''
         then Option.bind (parse_u32 value) (\<lambda>n. res_ok (Attribute_integer (AttributeType_as_u8 SessionTimeout) n))
         else if name = ''Idle-Timeout''
         then Option.bind (parse_u32 value) (\<lambda>n. res_ok (Attribute_integer (AttributeType_as_u8 IdleTimeout) n))
         else if name = ''Termination-Action''
         then (let v = map ascii_lower value
               in if v = ''radius-request'' \<or> v = ''1'' then res_ok (Attribute_integer (AttributeType_as_u8 TerminationAction) 1)
                  else if v = ''default'' \<or> v = ''0'' then res_ok (Attribute_integer (AttributeType_as_u8 TerminationAction) 0)
                  else None)
         else if name = ''Tunnel-Type'' then Option.bind (parse_u32 value) (tagged_integer 64)
         else if name = ''Tunnel-Medium-Type'' then Option.bind (parse_u32 value) (tagged_integer 65)
         else if name = ''Tunnel-Private-Group-ID'' then res_ok (Attribute_new 81 (TUNNEL_TAG # str_bytes value))
         else None)"

section \<open>The dictionary\<close>

record DictionaryAttribute =
  da_name :: string
  da_label :: string
  da_description :: string

record Dictionary =
  dict_attributes :: "DictionaryAttribute list"
  dict_operators :: "string list"
  dict_reply_attributes :: "string list"

definition dictionary :: Dictionary where
  "dictionary =
     (let attr = (\<lambda>(name, lab, description). \<lparr>da_name = name, da_label = lab, da_description = description\<rparr>)
      in \<lparr>dict_attributes = map attr
            [(''User-Name'', ''User name'', ''RADIUS User-Name''),
             (''NAS-IP-Address'', ''NAS IP'', ''Network Access Server source IP''),
             (''NAS-Identifier'', ''NAS identifier'', ''RADIUS NAS-Identifier''),
             (''NAS-Port-Type'', ''NAS port type'', ''e.g. Ethernet, Wireless-802.11''),
             (''Called-Station-Id'', ''Called-Station-Id'', ''Often the NAS MAC/SSID''),
             (''Calling-Station-Id'', ''Calling-Station-Id'', ''Client MAC''),
             (''Service-Type'', ''Service-Type'', ''e.g. Framed, Login''),
             (''Framed-Protocol'', ''Framed-Protocol'', ''e.g. PPP''),
             (''EAP-Type'', ''EAP type'', ''e.g. EAP-TLS, PEAP, EAP-TEAP''),
             (''Filter-Id'', ''Filter-Id'', ''RADIUS Filter-Id'')],
          dict_operators = [''equals'', ''not_equals'', ''contains'', ''starts_with'', ''ends_with'', ''matches_regex'', ''in_cidr''],
          dict_reply_attributes = KNOWN_REPLY_ATTRIBUTES\<rparr>)"

section \<open>What validation establishes\<close>

lemma check_profiles_ok:
  "check_profiles seen ps = Inr ids \<Longrightarrow> ids = seen \<union> prof_id ` set ps \<and> distinct (map prof_id ps) \<and> prof_id ` set ps \<inter> seen = {}
     \<and> (\<forall>p \<in> set ps. check_reply_names (prof_id p) (prof_attributes p) = Inr ())"
proof (induction ps arbitrary: seen)
  case (Cons p ps)
  then have c: "prof_id p \<notin> seen" "check_reply_names (prof_id p) (prof_attributes p) = Inr ()"
      "check_profiles (insert (prof_id p) seen) ps = Inr ids"
    by (auto simp: res_simps split: if_splits)
  from Cons.IH [OF c(3)] c show ?case by auto
qed simp

lemma check_reply_names_ok: "check_reply_names i as = Inr () \<longleftrightarrow> (\<forall>a \<in> set as. ra_name a \<in> set KNOWN_REPLY_ATTRIBUTES)"
  by (induction as) auto

lemma check_rules_ok: "check_rules tx ids i seen rs = Inr () \<Longrightarrow> r \<in> set rs \<Longrightarrow> rule_profile r \<in> ids"
  by (induction rs arbitrary: seen) (auto simp: res_simps split: if_splits)

lemma check_sets_ok: "check_sets tx ids seen ss = Inr () \<Longrightarrow> s \<in> set ss \<Longrightarrow> r \<in> set (set_rules s) \<Longrightarrow> rule_profile r \<in> ids"
  by (induction ss arbitrary: seen) (auto simp: res_simps split: if_splits dest: check_rules_ok)

lemma validated:
  assumes "PolicyConfig_validate tx p = Inr ()"
  shows "distinct (map prof_id (authz_profiles p))"
    and "default_profile p = Some d \<Longrightarrow> d \<in> prof_id ` set (authz_profiles p)"
    and "s \<in> set (policy_sets p) \<Longrightarrow> r \<in> set (set_rules s) \<Longrightarrow> rule_profile r \<in> prof_id ` set (authz_profiles p)"
    and "pr \<in> set (authz_profiles p) \<Longrightarrow> a \<in> set (prof_attributes pr) \<Longrightarrow> ra_name a \<in> set KNOWN_REPLY_ATTRIBUTES"
proof -
  obtain ids where ids: "check_profiles {} (authz_profiles p) = Inr ids"
      and sets: "check_sets tx ids {} (policy_sets p) = Inr ()"
      and d: "default_profile p = Some d \<Longrightarrow> d \<in> ids"
    using assms by (auto simp: PolicyConfig_validate_def res_simps split: option.splits if_splits)
  note ok = check_profiles_ok [OF ids]
  show "distinct (map prof_id (authz_profiles p))" using ok by simp
  show "default_profile p = Some d \<Longrightarrow> d \<in> prof_id ` set (authz_profiles p)" using ok d by simp
  show "s \<in> set (policy_sets p) \<Longrightarrow> r \<in> set (set_rules s) \<Longrightarrow> rule_profile r \<in> prof_id ` set (authz_profiles p)"
    using ok check_sets_ok [OF sets] by simp
  show "pr \<in> set (authz_profiles p) \<Longrightarrow> a \<in> set (prof_attributes pr) \<Longrightarrow> ra_name a \<in> set KNOWN_REPLY_ATTRIBUTES"
    using ok check_reply_names_ok by blast
qed

lemma find_profile_known:
  assumes "i \<in> prof_id ` set (authz_profiles p)"
  obtains pr where "find_profile p i = Some pr" "pr \<in> set (authz_profiles p)" "prof_id pr = i"
proof -
  from assms have "find_profile p i \<noteq> None" by (auto simp: find_profile_def find_None_iff)
  then obtain pr where "find_profile p i = Some pr" by blast
  with that find_SomeD show thesis unfolding find_profile_def by fast
qed

text \<open>The rule that decides: the first one that matches in the first set that matches, disabled ones aside.\<close>

definition deciding_rule :: "text_lib \<Rightarrow> 'n ip_lib \<Rightarrow> context_walk \<Rightarrow> PolicyConfig \<Rightarrow> context_map \<Rightarrow> Rule option" where
  "deciding_rule tx lib iter p ctx =
     Option.bind (find (\<lambda>s. set_enabled s \<and> condition_matches tx lib iter ctx (set_condition s)) (policy_sets p))
       (\<lambda>s. find (\<lambda>r. rule_enabled r \<and> condition_matches tx lib iter ctx (rule_condition r)) (set_rules s))"

lemma find_filter: "find P (filter Q xs) = find (\<lambda>x. Q x \<and> P x) xs"
  by (induction xs) auto

lemma evaluate_profile:
  "case deciding_rule tx lib iter p ctx of
     Some r \<Rightarrow> \<exists>s n. evaluate tx lib iter p ctx = decision_from p (rule_profile r) (Some s) (Some n)
   | None \<Rightarrow> (case default_profile p of
       Some i \<Rightarrow> evaluate tx lib iter p ctx = decision_from p i None None
     | None \<Rightarrow> \<exists>why. evaluate tx lib iter p ctx = Decision_reject why)"
proof -
  have "case Option.bind (find (\<lambda>s. condition_matches tx lib iter ctx (set_condition s)) ss)
       (\<lambda>s. find (\<lambda>r. rule_enabled r \<and> condition_matches tx lib iter ctx (rule_condition r)) (set_rules s)) of
      Some r \<Rightarrow> \<exists>s n. evaluate_sets tx lib iter p ctx ss = decision_from p (rule_profile r) (Some s) (Some n)
    | None \<Rightarrow> (case default_profile p of
        Some i \<Rightarrow> evaluate_sets tx lib iter p ctx ss = decision_from p i None None
      | None \<Rightarrow> \<exists>why. evaluate_sets tx lib iter p ctx ss = Decision_reject why)" for ss
    by (induction ss) (auto simp: find_filter split: option.split)
  from this [of "filter set_enabled (policy_sets p)"] show ?thesis
    unfolding deciding_rule_def evaluate_def find_filter by simp
qed

lemma deciding_rule_in:
  "deciding_rule tx lib iter p ctx = Some r \<Longrightarrow> \<exists>s \<in> set (policy_sets p). r \<in> set (set_rules s)"
  by (auto simp: deciding_rule_def split: bind_splits dest: find_SomeD)

lemma validated_decision:
  assumes "PolicyConfig_validate tx p = Inr ()"
  shows "case (case deciding_rule tx lib iter p ctx of Some r \<Rightarrow> Some (rule_profile r) | None \<Rightarrow> default_profile p) of
     Some i \<Rightarrow> \<exists>pr \<in> set (authz_profiles p). prof_id pr = i \<and> dec_profile (evaluate tx lib iter p ctx) = Some i
         \<and> dec_effect (evaluate tx lib iter p ctx) = prof_effect pr \<and> dec_attributes (evaluate tx lib iter p ctx) = prof_attributes pr
         \<and> (\<forall>a \<in> set (prof_attributes pr). ra_name a \<in> set KNOWN_REPLY_ATTRIBUTES)
   | None \<Rightarrow> dec_profile (evaluate tx lib iter p ctx) = None \<and> dec_effect (evaluate tx lib iter p ctx) = EffectReject
         \<and> dec_attributes (evaluate tx lib iter p ctx) = []"
proof -
  have from_profile: "\<exists>pr \<in> set (authz_profiles p). prof_id pr = i \<and> dec_profile d = Some i
      \<and> dec_effect d = prof_effect pr \<and> dec_attributes d = prof_attributes pr
      \<and> (\<forall>a \<in> set (prof_attributes pr). ra_name a \<in> set KNOWN_REPLY_ATTRIBUTES)"
    if i: "i \<in> prof_id ` set (authz_profiles p)" and d: "d = decision_from p i s n" for i d s n
  proof -
    obtain pr where "find_profile p i = Some pr" "pr \<in> set (authz_profiles p)" "prof_id pr = i"
      using find_profile_known [OF i] .
    then show ?thesis using d validated(4) [OF assms] by (auto simp: decision_from_def intro!: bexI [of _ pr])
  qed
  show ?thesis
  proof (cases "deciding_rule tx lib iter p ctx")
    case (Some r)
    then have "rule_profile r \<in> prof_id ` set (authz_profiles p)"
      using deciding_rule_in validated(3) [OF assms] by blast
    then show ?thesis using from_profile evaluate_profile [of tx lib iter p ctx] Some by fastforce
  next
    case None
    show ?thesis
    proof (cases "default_profile p")
      case (Some i)
      then show ?thesis using None from_profile [OF validated(2) [OF assms]] evaluate_profile [of tx lib iter p ctx] by simp
    next
      case def: None
      then show ?thesis using None evaluate_profile [of tx lib iter p ctx] by (auto simp: Decision_reject_def)
    qed
  qed
qed

section \<open>Names in the context\<close>

definition CONTEXT_NAMES :: "string list" where
  "CONTEXT_NAMES =
     [''User-Name'', ''NAS-Identifier'', ''Called-Station-Id'', ''Calling-Station-Id'', ''Filter-Id'', ''NAS-IP-Address'',
      ''NAS-IPv6-Address'', ''NAS-Port-Type'', ''Service-Type'', ''Framed-Protocol'', ''EAP-Type'']"

lemma fmdom_insert_some: "fset (fmdom (insert_some k v m)) \<subseteq> insert k (fset (fmdom m))"
  by (auto simp: insert_some_def split: option.splits)

lemma insert_some_names:
  "k \<in> set CONTEXT_NAMES \<Longrightarrow> fset (fmdom m) \<subseteq> set CONTEXT_NAMES \<Longrightarrow> fset (fmdom (insert_some k v m)) \<subseteq> set CONTEXT_NAMES"
  using fmdom_insert_some [of k v m] by blast

lemma context_names: "fset (fmdom (request_context show_ipv6 request username)) \<subseteq> set CONTEXT_NAMES"
  unfolding request_context_def Let_def
  by (simp, intro insert_some_names) (simp_all add: CONTEXT_NAMES_def)

lemma CONTEXT_NAMES_distinct: "distinct (map (map ascii_lower) CONTEXT_NAMES)"
  by (simp add: CONTEXT_NAMES_def ascii_lower_def)

lemma context_names_inj:
  "k \<in> set CONTEXT_NAMES \<Longrightarrow> k' \<in> set CONTEXT_NAMES \<Longrightarrow> eq_ignore_ascii_case k n \<Longrightarrow> eq_ignore_ascii_case k' n \<Longrightarrow> k = k'"
  using CONTEXT_NAMES_distinct unfolding distinct_map eq_ignore_ascii_case_def by (metis inj_onD)

text \<open>An iteration visits each entry of the map once.\<close>

definition walks_context :: "context_walk \<Rightarrow> bool" where
  "walks_context iter \<longleftrightarrow> (\<forall>m. distinct (map fst (iter m)) \<and> map_of (iter m) = fmlookup m)"

lemma request_lookup:
  assumes "walks_context iter" "fset (fmdom ctx) \<subseteq> set CONTEXT_NAMES"
  shows "RequestContext_get iter ctx n = Option.bind (find (\<lambda>k. eq_ignore_ascii_case k n) CONTEXT_NAMES) (fmlookup ctx)"
proof -
  let ?m = "iter ctx"
  have m: "distinct (map fst ?m)" "map_of ?m = fmlookup ctx" using assms(1) by (auto simp: walks_context_def)
  have dom: "k \<in> set CONTEXT_NAMES" if "(k, v) \<in> set ?m" for k v
  proof -
    from that m have "fmlookup ctx k = Some v" by (metis map_of_eq_Some_iff)
    then show ?thesis using assms(2) by (auto dest: fmdomI)
  qed
  show ?thesis
  proof (cases "find (\<lambda>(name, _). eq_ignore_ascii_case name n) ?m")
    case None
    then have no: "(k, v) \<notin> set ?m" if "eq_ignore_ascii_case k n" for k v using that by (auto simp: find_None_iff)
    have "fmlookup ctx k = None" if "find (\<lambda>k. eq_ignore_ascii_case k n) CONTEXT_NAMES = Some k" for k
      using no find_SomeD [OF that] m(2) by (metis map_of_SomeD not_None_eq)
    then show ?thesis using None by (auto simp: RequestContext_get_def split: bind_split)
  next
    case (Some kv)
    obtain k v where kv: "kv = (k, v)" by force
    with find_SomeD [OF Some] have k: "(k, v) \<in> set ?m" "eq_ignore_ascii_case k n" by auto
    have "find (\<lambda>k. eq_ignore_ascii_case k n) CONTEXT_NAMES \<noteq> None" using dom [OF k(1)] k(2) by (auto simp: find_None_iff)
    then obtain k' where k': "find (\<lambda>k. eq_ignore_ascii_case k n) CONTEXT_NAMES = Some k'" by blast
    with find_SomeD [OF k'] context_names_inj dom [OF k(1)] k(2) have "k' = k" by blast
    then show ?thesis using Some kv k' k(1) m by (simp add: RequestContext_get_def) (metis map_of_eq_Some_iff)
  qed
qed

lemma condition_matches_cong:
  assumes "\<And>n. RequestContext_get iter ctx n = RequestContext_get iter' ctx n"
  shows "condition_matches tx lib iter ctx c = condition_matches tx lib iter' ctx c"
proof (induction c)
  case (CondAll cs)
  then show ?case by (auto simp: list_all_iff)
next
  case (CondAny cs)
  then show ?case by (auto simp: list_ex_iff)
qed (auto simp: assms split: option.split)

lemma evaluate_cong:
  assumes "\<And>n. RequestContext_get iter ctx n = RequestContext_get iter' ctx n"
  shows "evaluate tx lib iter p ctx = evaluate tx lib iter' p ctx"
proof -
  have "evaluate_sets tx lib iter p ctx ss = evaluate_sets tx lib iter' p ctx ss" for ss
    by (induction ss) (simp_all add: condition_matches_cong [OF assms])
  then show ?thesis by (simp add: evaluate_def)
qed

section \<open>Properties\<close>

text \<open>
  C24. A policy that validates is decided by the first matching rule of the first matching set, or by the
  default profile, or rejects: the profile a decision refers to always exists, its effect and
  attributes are the decision's, and every returned attribute is one the server knows.
\<close>

theorem validated_policy_decides:
  assumes "PolicyConfig_validate tx p = Inr ()"
  shows "case (case deciding_rule tx lib iter p ctx of Some r \<Rightarrow> Some (rule_profile r) | None \<Rightarrow> default_profile p) of
     Some i \<Rightarrow> \<exists>pr \<in> set (authz_profiles p). prof_id pr = i \<and> dec_profile (evaluate tx lib iter p ctx) = Some i
         \<and> dec_effect (evaluate tx lib iter p ctx) = prof_effect pr \<and> dec_attributes (evaluate tx lib iter p ctx) = prof_attributes pr
         \<and> (\<forall>a \<in> set (prof_attributes pr). ra_name a \<in> set KNOWN_REPLY_ATTRIBUTES)
   | None \<Rightarrow> dec_profile (evaluate tx lib iter p ctx) = None \<and> dec_effect (evaluate tx lib iter p ctx) = EffectReject
         \<and> dec_attributes (evaluate tx lib iter p ctx) = []"
  by (rule validated_decision [OF assms])

definition sample_text :: text_lib where
  "sample_text = \<lparr>to_lowercase = map ascii_lower, regex_ci = \<lambda>_. None, regex_new = \<lambda>_. Inl ''unsupported''\<rparr>"

definition sample_net :: "unit ip_lib" where
  "sample_net = \<lparr>parse_ip = \<lambda>_. None, parse_net = \<lambda>_. Inl ''invalid'', net_contains = \<lambda>_ _. False\<rparr>"

definition sample_profile :: "string \<Rightarrow> AuthzProfile" where
  "sample_profile v = \<lparr>prof_id = ''vlan'', prof_name = ''Staff'', prof_effect = EffectAccept,
     prof_attributes = [\<lparr>ra_name = ''Session-Timeout'', ra_value = v\<rparr>], prof_reply_message = None\<rparr>"

definition sample_config :: "string \<Rightarrow> PolicyConfig" where
  "sample_config v = \<lparr>policy_sets = [\<lparr>set_id = ''s'', set_name = ''Wired'', set_enabled = True, set_condition = CondAlways,
       set_rules = [\<lparr>rule_id = ''r'', rule_name = ''Staff'', rule_enabled = True,
         rule_condition = CondAttr ''user-name'' StartsWith ''Staff-'', rule_profile = ''vlan''\<rparr>]\<rparr>],
     authz_profiles = [sample_profile v], default_profile = None\<rparr>"

lemma sample_config_validates: "PolicyConfig_validate sample_text (sample_config v) = Inr ()"
  by (simp add: PolicyConfig_validate_def sample_config_def sample_profile_def KNOWN_REPLY_ATTRIBUTES_def)

definition sample_walk :: context_walk where
  "sample_walk m = filter (\<lambda>(k, _). fmlookup m k \<noteq> None) (map (\<lambda>k. (k, the (fmlookup m k))) [''User-Name''])"

theorem validated_policy_decides_witness:
  "dec_profile (evaluate sample_text sample_net sample_walk (sample_config ''60'') (fmupd ''User-Name'' ''staff-7'' fmempty)) = Some ''vlan''
   \<and> ra_name ` set (dec_attributes (evaluate sample_text sample_net sample_walk (sample_config ''60'') (fmupd ''User-Name'' ''staff-7'' fmempty)))
        \<subseteq> set KNOWN_REPLY_ATTRIBUTES"
proof -
  let ?ctx = "fmupd ''User-Name'' ''staff-7'' fmempty"
  have name: "eq_ignore_ascii_case ''User-Name'' ''user-name''" by code_simp
  have get: "RequestContext_get sample_walk ?ctx ''user-name'' = Some ''staff-7''"
    by (simp add: RequestContext_get_def sample_walk_def name)
  have "str_starts_with (map ascii_lower ''staff-7'') (map ascii_lower ''Staff-'')" by code_simp
  then have op: "Operator_apply sample_text sample_net StartsWith ''staff-7'' ''Staff-''"
    by (simp add: sample_text_def del: list.map)
  have "deciding_rule sample_text sample_net sample_walk (sample_config ''60'') ?ctx =
      Some \<lparr>rule_id = ''r'', rule_name = ''Staff'', rule_enabled = True,
         rule_condition = CondAttr ''user-name'' StartsWith ''Staff-'', rule_profile = ''vlan''\<rparr>"
    by (simp add: deciding_rule_def sample_config_def get op del: Operator_apply.simps)
  with validated_policy_decides [OF sample_config_validates [of "''60''"], of sample_net sample_walk ?ctx] show ?thesis by auto
qed

text \<open>
  Validation looks at the names of the returned attributes only: a profile whose Session-Timeout is
  not a number passes it, and the attribute is then left out of the reply.
\<close>

theorem unencodable_value_validates:
  "PolicyConfig_validate sample_text (sample_config ''8h'') = Inr ()
   \<and> map reply_attribute (prof_attributes (sample_profile ''8h'')) = [None]"
  by (simp add: sample_config_validates sample_profile_def reply_attribute_def parse_u32_def)

text \<open>
  The decision for a packet does not depend on the order in which the context's map is walked: no
  two of its names are equal up to case.
\<close>

theorem evaluation_order_free:
  assumes "walks_context iter" "walks_context iter'"
  shows "evaluate tx lib iter p (request_context show_ipv6 request username) =
     evaluate tx lib iter' p (request_context show_ipv6 request username)"
  by (rule evaluate_cong) (simp add: request_lookup [OF assms(1) context_names] request_lookup [OF assms(2) context_names])

text \<open>Two walks for the witness: the names in ascending and in descending order.\<close>

definition sorted_walk :: context_walk where
  "sorted_walk m = map (\<lambda>k. (k, the (fmlookup m k))) (sorted_list_of_fset (fmdom m))"

lemma walks_sorted: "walks_context sorted_walk" "walks_context (\<lambda>m. rev (sorted_walk m))"
proof -
  have d: "distinct (map fst (sorted_walk m))" for m
    by (simp add: sorted_walk_def comp_def sorted_list_of_fset.rep_eq)
  have l: "map_of (sorted_walk m) = fmlookup m" for m
  proof
    fix k
    have "map_of (sorted_walk m) k = (if k \<in> fset (fmdom m) then Some (the (fmlookup m k)) else None)"
      by (simp add: sorted_walk_def map_of_map_restrict restrict_map_def sorted_list_of_fset.rep_eq)
    then show "map_of (sorted_walk m) k = fmlookup m k"
      by (cases "fmlookup m k") (simp_all add: fmlookup_dom_iff)
  qed
  have rev: "map_of (rev xs) = map_of xs" if "distinct (map fst xs)" for xs :: "(string \<times> string) list"
    by (rule map_of_inject_set [THEN iffD2]) (use that in \<open>simp_all add: rev_map [symmetric]\<close>)
  show "walks_context sorted_walk" using d l by (simp add: walks_context_def)
  show "walks_context (\<lambda>m. rev (sorted_walk m))"
    using d l by (simp add: walks_context_def rev [OF d] rev_map [symmetric])
qed

definition sample_access_request :: Packet where
  "sample_access_request = Packet_new AccessRequest 1 (arr16_of [])"

theorem evaluation_order_free_witness:
  "evaluate sample_text sample_net sorted_walk (sample_config ''60'') (request_context (\<lambda>_. ''::1'') sample_access_request ''staff-7'') =
   evaluate sample_text sample_net (\<lambda>m. rev (sorted_walk m)) (sample_config ''60'') (request_context (\<lambda>_. ''::1'') sample_access_request ''staff-7'')"
  by (rule evaluation_order_free [OF walks_sorted])

end
