(* ===== verification/Accounting_Sessions.thy ===== *)
theory Accounting_Sessions
  imports Accounting_Codes Server_Prelude "HOL-Library.Finite_Map"
begin

text \<open>
  The in-memory accounting handler of the server (\<open>accounting.rs\<close>). The concurrent map is a finite
  map, wall-clock readings are parameters, and a handler call returns its result with the new
  state. \<open>handle_start\<close> is split where other tasks can run between its accesses of the map.
\<close>

section \<open>Definitions\<close>

record Session =
  sess_id :: string
  sess_username :: string
  sess_nas_ip :: IpAddr
  sess_framed_ip :: "IpAddr option"
  sess_start_time :: u64
  sess_last_update :: u64
  sess_input_octets :: u64
  sess_output_octets :: u64
  sess_input_packets :: u64
  sess_output_packets :: u64
  sess_time :: u32
  sess_terminate_cause :: "u32 option"

datatype AccountingResult = Success | Failure string

record SimpleAccountingHandler =
  acct_sessions :: "(string, Session) fmap"
  session_timeout :: u64
  max_sessions_per_user :: nat

definition AccountingHandler_with_config :: "u64 \<Rightarrow> nat \<Rightarrow> SimpleAccountingHandler" where
  "AccountingHandler_with_config timeout max_sessions =
     \<lparr>acct_sessions = fmempty, session_timeout = timeout, max_sessions_per_user = max_sessions\<rparr>"

definition AccountingHandler_new :: SimpleAccountingHandler where
  "AccountingHandler_new = AccountingHandler_with_config 3600 0"

definition acct_session_count :: "SimpleAccountingHandler \<Rightarrow> nat" where
  "acct_session_count h = fcard (fmdom (acct_sessions h))"

definition clear_sessions :: "SimpleAccountingHandler \<Rightarrow> SimpleAccountingHandler" where
  "clear_sessions h = h\<lparr>acct_sessions := fmempty\<rparr>"

definition saturating_sub :: "u64 \<Rightarrow> u64 \<Rightarrow> u64" where
  "saturating_sub a b = (if b \<le> a then a - b else 0)"

definition stale :: "SimpleAccountingHandler \<Rightarrow> u64 \<Rightarrow> Session \<Rightarrow> bool" where
  "stale h now s \<longleftrightarrow> saturating_sub now (sess_last_update s) > session_timeout h"

text \<open>\<open>retain\<close> on the map.\<close>

definition retain_sessions :: "(Session \<Rightarrow> bool) \<Rightarrow> SimpleAccountingHandler \<Rightarrow> SimpleAccountingHandler" where
  "retain_sessions P h = h\<lparr>acct_sessions := fmfilter (\<lambda>k. P (the (fmlookup (acct_sessions h) k))) (acct_sessions h)\<rparr>"

definition cleanup_stale_sessions :: "u64 \<Rightarrow> SimpleAccountingHandler \<Rightarrow> nat \<times> SimpleAccountingHandler" where
  "cleanup_stale_sessions now h =
     (if session_timeout h = 0 then (0, h)
      else let h' = retain_sessions (\<lambda>s. \<not> stale h now s) h
           in (acct_session_count h - acct_session_count h', h'))"

definition user_sessions :: "SimpleAccountingHandler \<Rightarrow> string \<Rightarrow> string set" where
  "user_sessions h user =
     Set.filter (\<lambda>k. sess_username (the (fmlookup (acct_sessions h) k)) = user) (fset (fmdom (acct_sessions h)))"

definition get_user_session_count :: "SimpleAccountingHandler \<Rightarrow> string \<Rightarrow> nat" where
  "get_user_session_count h user = card (user_sessions h user)"

definition can_start_session :: "SimpleAccountingHandler \<Rightarrow> string \<Rightarrow> bool" where
  "can_start_session h user \<longleftrightarrow>
     (if max_sessions_per_user h = 0 then True else get_user_session_count h user < max_sessions_per_user h)"

type_synonym session_walk = "(string, Session) fmap \<Rightarrow> (string \<times> Session) list"

definition get_sessions_by_user :: "session_walk \<Rightarrow> SimpleAccountingHandler \<Rightarrow> string \<Rightarrow> Session list" where
  "get_sessions_by_user iter h user = filter (\<lambda>s. sess_username s = user) (map snd (iter (acct_sessions h)))"

definition get_sessions_by_nas :: "session_walk \<Rightarrow> SimpleAccountingHandler \<Rightarrow> IpAddr \<Rightarrow> Session list" where
  "get_sessions_by_nas iter h ip = filter (\<lambda>s. sess_nas_ip s = ip) (map snd (iter (acct_sessions h)))"

definition get_active_sessions :: "session_walk \<Rightarrow> SimpleAccountingHandler \<Rightarrow> Session list" where
  "get_active_sessions iter h = map snd (iter (acct_sessions h))"

definition get_acct_session :: "SimpleAccountingHandler \<Rightarrow> string \<Rightarrow> Session option" where
  "get_acct_session h i = fmlookup (acct_sessions h) i"

text \<open>The part of \<open>handle_start\<close> before the session is inserted, and the insertion.\<close>

definition start_check :: "u64 \<Rightarrow> SimpleAccountingHandler \<Rightarrow> string \<Rightarrow> string \<Rightarrow> (AccountingError + unit) \<times> SimpleAccountingHandler" where
  "start_check now h session_id username =
     (let h = snd (cleanup_stale_sessions now h)
      in if fmlookup (acct_sessions h) session_id \<noteq> None then (Inl (DuplicateSession session_id), h)
         else if \<not> can_start_session h username
         then (Inl (SessionLimitExceeded username (get_user_session_count h username) (max_sessions_per_user h)), h)
         else (Inr (), h))"

definition new_session :: "string \<Rightarrow> string \<Rightarrow> IpAddr \<Rightarrow> u64 \<Rightarrow> u64 \<Rightarrow> Session" where
  "new_session session_id username nas_ip start_time last_update =
     \<lparr>sess_id = session_id, sess_username = username, sess_nas_ip = nas_ip, sess_framed_ip = None,
      sess_start_time = start_time, sess_last_update = last_update, sess_input_octets = 0, sess_output_octets = 0,
      sess_input_packets = 0, sess_output_packets = 0, sess_time = 0, sess_terminate_cause = None\<rparr>"

definition start_insert :: "u64 \<Rightarrow> u64 \<Rightarrow> SimpleAccountingHandler \<Rightarrow> string \<Rightarrow> string \<Rightarrow> IpAddr \<Rightarrow> SimpleAccountingHandler" where
  "start_insert start_time last_update h session_id username nas_ip =
     h\<lparr>acct_sessions := fmupd session_id (new_session session_id username nas_ip start_time last_update) (acct_sessions h)\<rparr>"

text \<open>The three readings of the clock in the order the code takes them.\<close>

definition handle_start ::
    "u64 \<times> u64 \<times> u64 \<Rightarrow> SimpleAccountingHandler \<Rightarrow> string \<Rightarrow> string \<Rightarrow> IpAddr \<Rightarrow> Packet
     \<Rightarrow> (AccountingError + AccountingResult) \<times> SimpleAccountingHandler" where
  "handle_start = (\<lambda>(t0, t1, t2) h session_id username nas_ip packet.
     (case start_check t0 h session_id username of
        (Inl e, h) \<Rightarrow> (Inl e, h)
      | (Inr _, h) \<Rightarrow> (Inr Success, start_insert t1 t2 h session_id username nas_ip)))"

text \<open>A four-octet integer at the front of an attribute's value.\<close>

definition acct_u32 :: "Packet \<Rightarrow> AttributeType \<Rightarrow> u32 option" where
  "acct_u32 packet ty = Option.bind (find_attribute packet (AttributeType_as_u8 ty)) (\<lambda>a.
     if length (attr_value a) \<ge> 4
     then Some (u32_from_be_bytes (attr_value a ! 0) (attr_value a ! 1) (attr_value a ! 2) (attr_value a ! 3)) else None)"

definition octets64 :: "Packet \<Rightarrow> AttributeType \<Rightarrow> AttributeType \<Rightarrow> u64 option" where
  "octets64 packet low high =
     map_option (\<lambda>l. push_bit 32 (ucast (case acct_u32 packet high of Some h \<Rightarrow> h | None \<Rightarrow> 0)) OR ucast l) (acct_u32 packet low)"

definition update_usage :: "Packet \<Rightarrow> Session \<Rightarrow> Session" where
  "update_usage packet s =
     (let s = (case acct_u32 packet AcctSessionTime of Some t \<Rightarrow> s\<lparr>sess_time := t\<rparr> | None \<Rightarrow> s);
          s = (case octets64 packet AcctInputOctets AcctInputGigawords of Some n \<Rightarrow> s\<lparr>sess_input_octets := n\<rparr> | None \<Rightarrow> s)
      in (case octets64 packet AcctOutputOctets AcctOutputGigawords of Some n \<Rightarrow> s\<lparr>sess_output_octets := n\<rparr> | None \<Rightarrow> s))"

text \<open>The session a Stop removes, with the final counters it computes; the code then drops it.\<close>

definition stopped_session :: "SimpleAccountingHandler \<Rightarrow> string \<Rightarrow> Packet \<Rightarrow> Session option" where
  "stopped_session h session_id packet = map_option (\<lambda>s.
     let s = update_usage packet s
     in (case acct_u32 packet AcctTerminateCause of Some c \<Rightarrow> s\<lparr>sess_terminate_cause := Some c\<rparr> | None \<Rightarrow> s))
     (fmlookup (acct_sessions h) session_id)"

definition handle_stop ::
    "SimpleAccountingHandler \<Rightarrow> string \<Rightarrow> string \<Rightarrow> IpAddr \<Rightarrow> Packet \<Rightarrow> (AccountingError + AccountingResult) \<times> SimpleAccountingHandler" where
  "handle_stop h session_id username nas_ip packet =
     (case stopped_session h session_id packet of
        None \<Rightarrow> (Inl (SessionNotFound session_id), h)
      | Some _ \<Rightarrow> (Inr Success, h\<lparr>acct_sessions := fmdrop session_id (acct_sessions h)\<rparr>))"

definition handle_interim_update ::
    "u64 \<Rightarrow> SimpleAccountingHandler \<Rightarrow> string \<Rightarrow> string \<Rightarrow> IpAddr \<Rightarrow> Packet \<Rightarrow> (AccountingError + AccountingResult) \<times> SimpleAccountingHandler" where
  "handle_interim_update now h session_id username nas_ip packet =
     (case fmlookup (acct_sessions h) session_id of
        None \<Rightarrow> (Inl (SessionNotFound session_id), h)
      | Some s \<Rightarrow> (Inr Success,
          h\<lparr>acct_sessions := fmupd session_id (update_usage packet (s\<lparr>sess_last_update := now\<rparr>)) (acct_sessions h)\<rparr>))"

definition handle_accounting_on ::
    "SimpleAccountingHandler \<Rightarrow> IpAddr \<Rightarrow> Packet \<Rightarrow> (AccountingError + AccountingResult) \<times> SimpleAccountingHandler" where
  "handle_accounting_on h nas_ip packet = (Inr Success, h)"

definition handle_accounting_off ::
    "SimpleAccountingHandler \<Rightarrow> IpAddr \<Rightarrow> Packet \<Rightarrow> (AccountingError + AccountingResult) \<times> SimpleAccountingHandler" where
  "handle_accounting_off h nas_ip packet = (Inr Success, retain_sessions (\<lambda>s. sess_nas_ip s \<noteq> nas_ip) h)"

section \<open>Handler calls and their interleaving\<close>

text \<open>A Start is two steps: the check and, if it passed, the insertion that remains to be done.\<close>

datatype acct_step =
    StartCheck u64 string string
  | StartInsert u64 u64 string string IpAddr
  | Stop string string IpAddr Packet
  | Interim u64 string string IpAddr Packet
  | On IpAddr Packet
  | Off IpAddr Packet
  | Cleanup u64

fun acct_do :: "acct_step \<Rightarrow> SimpleAccountingHandler \<Rightarrow> SimpleAccountingHandler" where
  "acct_do (StartCheck t i u) h = snd (start_check t h i u)"
| "acct_do (StartInsert t1 t2 i u ip) h = start_insert t1 t2 h i u ip"
| "acct_do (Stop i u ip packet) h = snd (handle_stop h i u ip packet)"
| "acct_do (Interim t i u ip packet) h = snd (handle_interim_update t h i u ip packet)"
| "acct_do (On ip packet) h = snd (handle_accounting_on h ip packet)"
| "acct_do (Off ip packet) h = snd (handle_accounting_off h ip packet)"
| "acct_do (Cleanup t) h = snd (cleanup_stale_sessions t h)"

text \<open>Whole requests, one after another.\<close>

datatype acct_request =
    ReqStart "u64 \<times> u64 \<times> u64" string string IpAddr Packet
  | ReqStop string string IpAddr Packet
  | ReqInterim u64 string string IpAddr Packet
  | ReqOn IpAddr Packet
  | ReqOff IpAddr Packet

fun acct_request_do :: "acct_request \<Rightarrow> SimpleAccountingHandler \<Rightarrow> (AccountingError + AccountingResult) \<times> SimpleAccountingHandler" where
  "acct_request_do (ReqStart ts i u ip packet) h = handle_start ts h i u ip packet"
| "acct_request_do (ReqStop i u ip packet) h = handle_stop h i u ip packet"
| "acct_request_do (ReqInterim t i u ip packet) h = handle_interim_update t h i u ip packet"
| "acct_request_do (ReqOn ip packet) h = handle_accounting_on h ip packet"
| "acct_request_do (ReqOff ip packet) h = handle_accounting_off h ip packet"

definition acct_requests :: "acct_request list \<Rightarrow> SimpleAccountingHandler \<Rightarrow> SimpleAccountingHandler" where
  "acct_requests rs h = foldl (\<lambda>h r. snd (acct_request_do r h)) h rs"

section \<open>The invariant\<close>

definition acct_inv :: "SimpleAccountingHandler \<Rightarrow> bool" where
  "acct_inv h \<longleftrightarrow> (\<forall>k s. fmlookup (acct_sessions h) k = Some s \<longrightarrow> sess_id s = k)
     \<and> (max_sessions_per_user h > 0 \<longrightarrow> (\<forall>u. get_user_session_count h u \<le> max_sessions_per_user h))"

lemma user_sessions_iff: "k \<in> user_sessions h u \<longleftrightarrow> (\<exists>s. fmlookup (acct_sessions h) k = Some s \<and> sess_username s = u)"
  by (auto simp: user_sessions_def fmlookup_dom_iff)

lemma finite_user_sessions [simp]: "finite (user_sessions h u)"
  by (auto simp: user_sessions_def)

lemma retain_lookup [simp]:
  "fmlookup (acct_sessions (retain_sessions P h)) k =
     (case fmlookup (acct_sessions h) k of Some s \<Rightarrow> if P s then Some s else None | None \<Rightarrow> None)"
  by (auto simp: retain_sessions_def split: option.split)

lemma retain_config [simp]:
  "max_sessions_per_user (retain_sessions P h) = max_sessions_per_user h" "session_timeout (retain_sessions P h) = session_timeout h"
  by (simp_all add: retain_sessions_def)

text \<open>Dropping sessions keeps the invariant.\<close>

lemma acct_inv_sub:
  assumes "acct_inv h" "max_sessions_per_user h' = max_sessions_per_user h"
    and "\<And>k s. fmlookup (acct_sessions h') k = Some s \<Longrightarrow>
      \<exists>s'. fmlookup (acct_sessions h) k = Some s' \<and> sess_id s' = sess_id s \<and> sess_username s' = sess_username s"
  shows "acct_inv h'"
proof -
  have sub: "user_sessions h' u \<subseteq> user_sessions h u" for u
  proof
    fix k assume "k \<in> user_sessions h' u"
    then obtain s where "fmlookup (acct_sessions h') k = Some s" "sess_username s = u" unfolding user_sessions_iff by blast
    with assms(3) [of k s] show "k \<in> user_sessions h u" unfolding user_sessions_iff by blast
  qed
  have "get_user_session_count h' u \<le> get_user_session_count h u" for u
    unfolding get_user_session_count_def by (rule card_mono [OF finite_user_sessions sub])
  moreover have "sess_id s = k" if "fmlookup (acct_sessions h') k = Some s" for k s
    using assms(3) [OF that] assms(1) by (auto simp: acct_inv_def)
  ultimately show ?thesis using assms(1) unfolding acct_inv_def assms(2) by (blast intro: le_trans)
qed

lemma acct_inv_retain: "acct_inv h \<Longrightarrow> acct_inv (retain_sessions P h)"
  by (erule acct_inv_sub) (auto split: option.splits if_splits)

lemma acct_inv_cleanup: "acct_inv h \<Longrightarrow> acct_inv (snd (cleanup_stale_sessions t h))"
  by (auto simp: cleanup_stale_sessions_def Let_def intro: acct_inv_retain)

lemma update_usage_keeps [simp]:
  "sess_id (update_usage packet s) = sess_id s" "sess_username (update_usage packet s) = sess_username s"
  "sess_nas_ip (update_usage packet s) = sess_nas_ip s" "sess_last_update (update_usage packet s) = sess_last_update s"
  by (simp_all add: update_usage_def Let_def split: option.split)

lemma new_session_fields [simp]:
  "sess_id (new_session i u ip t1 t2) = i" "sess_username (new_session i u ip t1 t2) = u" "sess_nas_ip (new_session i u ip t1 t2) = ip"
  by (simp_all add: new_session_def)

lemma user_sessions_insert:
  "user_sessions (start_insert t1 t2 h i u ip) u' = (if u' = u then insert i (user_sessions h u) else user_sessions h u' - {i})"
  by (rule set_eqI) (simp add: user_sessions_iff start_insert_def)

lemma start_insert_max: "max_sessions_per_user (start_insert t1 t2 h i u ip) = max_sessions_per_user h"
  by (simp add: start_insert_def)

lemma start_check_passed:
  assumes "start_check t h i u = (Inr (), h')"
  shows "h' = snd (cleanup_stale_sessions t h) \<and> fmlookup (acct_sessions h') i = None \<and> can_start_session h' u"
  using assms by (auto simp: start_check_def Let_def split: if_splits)

lemma acct_inv_start: "acct_inv h \<Longrightarrow> acct_inv (snd (handle_start ts h i u ip packet))"
proof -
  assume inv: "acct_inv h"
  obtain t0 t1 t2 where ts: "ts = (t0, t1, t2)" by (cases ts)
  obtain r h' where c: "start_check t0 h i u = (r, h')" by force
  then have h': "h' = snd (cleanup_stale_sessions t0 h)" by (auto simp: start_check_def Let_def split: if_splits)
  then have inv': "acct_inv h'" using acct_inv_cleanup [OF inv] by simp
  show ?thesis
  proof (cases r)
    case (Inl e)
    then show ?thesis using c inv' ts by (simp add: handle_start_def)
  next
    case (Inr x)
    with c have p: "fmlookup (acct_sessions h') i = None" "can_start_session h' u" using start_check_passed by fastforce+
    let ?h = "start_insert t1 t2 h' i u ip"
    have "get_user_session_count ?h v \<le> max_sessions_per_user ?h" if "max_sessions_per_user ?h > 0" for v
    proof -
      have m: "max_sessions_per_user ?h = max_sessions_per_user h'" by (simp add: start_insert_def)
      have "card (user_sessions h' v - {i}) \<le> card (user_sessions h' v)" by (simp add: card_mono)
      moreover have "card (insert i (user_sessions h' u)) \<le> Suc (card (user_sessions h' u))" by (simp add: card_insert_if)
      moreover have "card (user_sessions h' v) \<le> max_sessions_per_user h'" using inv' that m by (simp add: acct_inv_def get_user_session_count_def)
      ultimately show ?thesis using p(2) that m
        by (auto simp: get_user_session_count_def user_sessions_insert can_start_session_def split: if_splits)
    qed
    moreover have "\<forall>k s. fmlookup (acct_sessions ?h) k = Some s \<longrightarrow> sess_id s = k"
      using inv' by (simp add: acct_inv_def start_insert_def)
    ultimately have "acct_inv ?h" by (simp add: acct_inv_def)
    then show ?thesis using Inr c ts by (simp add: handle_start_def)
  qed
qed

lemma acct_inv_request: "acct_inv h \<Longrightarrow> acct_inv (snd (acct_request_do r h))"
proof (cases r)
  case (ReqStop i u ip packet)
  assume "acct_inv h"
  then show ?thesis using ReqStop
    by (auto simp: handle_stop_def split: option.split if_splits elim!: acct_inv_sub)
next
  case (ReqInterim t i u ip packet)
  assume inv: "acct_inv h"
  show ?thesis
  proof (rule acct_inv_sub [OF inv])
    show "max_sessions_per_user (snd (acct_request_do r h)) = max_sessions_per_user h"
      using ReqInterim by (simp add: handle_interim_update_def split: option.split)
    fix k s assume "fmlookup (acct_sessions (snd (acct_request_do r h))) k = Some s"
    then show "\<exists>s'. fmlookup (acct_sessions h) k = Some s' \<and> sess_id s' = sess_id s \<and> sess_username s' = sess_username s"
      using ReqInterim by (auto simp: handle_interim_update_def split: option.splits if_splits)
  qed
qed (auto simp: acct_inv_start handle_accounting_on_def handle_accounting_off_def acct_inv_retain)

lemma acct_inv_new: "acct_inv (AccountingHandler_with_config t n)"
  by (simp add: acct_inv_def AccountingHandler_with_config_def get_user_session_count_def user_sessions_def)

lemma acct_inv_requests: "acct_inv h \<Longrightarrow> acct_inv (acct_requests rs h)"
  unfolding acct_requests_def by (induction rs arbitrary: h) (simp_all add: acct_inv_request)

section \<open>Counters\<close>

lemma unat_u32_less: "unat (w :: u32) < 2 ^ 32"
  using unsigned_less [of w] by simp

lemma unat_u64_of_halves: "unat (push_bit 32 (ucast h) OR ucast l :: u64) = unat (h :: u32) * 2 ^ 32 + unat (l :: u32)"
proof -
  have disj: "push_bit 32 (ucast h) AND (ucast l :: u64) = 0"
    by (rule bit_word_eqI) (auto simp: bit_simps dest: bit_imp_le_length)
  have u: "unat (ucast h :: u64) = unat h" "unat (ucast l :: u64) = unat l"
    using unat_u32_less [of h] unat_u32_less [of l] by (simp_all add: unsigned_ucast_eq take_bit_nat_eq_self_iff)
  then have hi: "unat (push_bit 32 (ucast h) :: u64) = unat h * 2 ^ 32"
    using unat_u32_less [of h] by (simp add: push_bit_eq_mult unat_word_ariths)
  show ?thesis
    unfolding disjunctive_add_eq_or [OF disj, symmetric] unat_word_ariths hi u
    using unat_u32_less [of h] unat_u32_less [of l] by simp
qed

lemma octets64_value:
  "octets64 packet low high = Some n \<Longrightarrow>
     \<exists>l. acct_u32 packet low = Some l \<and> unat n = unat (case acct_u32 packet high of Some h \<Rightarrow> h | None \<Rightarrow> 0) * 2 ^ 32 + unat l"
  by (auto simp: octets64_def unat_u64_of_halves)

lemma update_usage_input:
  "sess_input_octets (update_usage packet s) =
     (case octets64 packet AcctInputOctets AcctInputGigawords of Some n \<Rightarrow> n | None \<Rightarrow> sess_input_octets s)"
  by (simp add: update_usage_def Let_def split: option.split)

section \<open>Properties\<close>

text \<open>
  C25. Handling requests one after another keeps every user within the configured number of concurrent
  sessions and every session under its own identifier.
\<close>

theorem session_limit_kept:
  "(n > 0 \<longrightarrow> get_user_session_count (acct_requests rs (AccountingHandler_with_config t n)) u \<le> n)
   \<and> (get_acct_session (acct_requests rs (AccountingHandler_with_config t n)) k = Some s \<longrightarrow> sess_id s = k)"
proof -
  let ?h = "acct_requests rs (AccountingHandler_with_config t n)"
  have cfg: "max_sessions_per_user (snd (acct_request_do r h)) = max_sessions_per_user h" for r h
    by (cases r) (auto simp: handle_start_def start_check_def start_insert_def cleanup_stale_sessions_def handle_stop_def
        handle_interim_update_def handle_accounting_on_def handle_accounting_off_def Let_def split: prod.split option.split)
  have "max_sessions_per_user (acct_requests rs h) = max_sessions_per_user h" for h
    unfolding acct_requests_def by (induction rs arbitrary: h) (simp_all add: cfg)
  then have "max_sessions_per_user ?h = n" by (simp add: AccountingHandler_with_config_def)
  with acct_inv_requests [OF acct_inv_new, of rs t n] show ?thesis
    by (simp add: acct_inv_def get_acct_session_def)
qed

definition sample_ip :: IpAddr where
  "sample_ip = IpV4 0x0A000001"

lemma first_start_passes:
  "start_check t0 (AccountingHandler_with_config 3600 1) i u = (Inr (), AccountingHandler_with_config 3600 1)"
  by (simp add: start_check_def cleanup_stale_sessions_def AccountingHandler_with_config_def can_start_session_def
      get_user_session_count_def user_sessions_def retain_sessions_def Let_def)

definition sample_acct :: acct_request where
  "sample_acct = ReqStart (10, 10, 10) ''a'' ''bob'' sample_ip (Packet_new AccountingRequest 1 (arr16_of []))"

theorem session_limit_kept_witness:
  "get_user_session_count (acct_requests [sample_acct] (AccountingHandler_with_config 3600 1)) ''bob'' \<le> 1
   \<and> get_acct_session (acct_requests [sample_acct] (AccountingHandler_with_config 3600 1)) ''a'' = Some (new_session ''a'' ''bob'' sample_ip 10 10)
   \<and> sess_id (new_session ''a'' ''bob'' sample_ip 10 10) = ''a''"
proof -
  have "get_acct_session (acct_requests [sample_acct] (AccountingHandler_with_config 3600 1)) ''a'' = Some (new_session ''a'' ''bob'' sample_ip 10 10)"
    by (simp add: acct_requests_def sample_acct_def get_acct_session_def handle_start_def first_start_passes start_insert_def del: One_nat_def)
  then show ?thesis
    using session_limit_kept [of 1 "[sample_acct]" 3600 "''bob''" "''a''" "new_session ''a'' ''bob'' sample_ip 10 10"] by simp
qed

text \<open>
  Two Starts whose checks both run before either insertion leave a user with more sessions than the
  limit allows.
\<close>

theorem concurrent_starts_exceed_limit:
  "let h0 = AccountingHandler_with_config 3600 1;
       h1 = acct_do (StartCheck 10 ''a'' ''bob'') h0;
       h2 = acct_do (StartCheck 10 ''b'' ''bob'') h1;
       h3 = acct_do (StartInsert 10 10 ''a'' ''bob'' sample_ip) h2;
       h4 = acct_do (StartInsert 10 10 ''b'' ''bob'' sample_ip) h3
   in fst (start_check 10 h0 ''a'' ''bob'') = Inr () \<and> fst (start_check 10 h1 ''b'' ''bob'') = Inr ()
     \<and> get_user_session_count h4 ''bob'' = 2 \<and> max_sessions_per_user h4 = 1"
proof -
  have "user_sessions (AccountingHandler_with_config 3600 1) ''bob'' = {}" "max_sessions_per_user (AccountingHandler_with_config 3600 1) = 1"
    by (simp_all add: user_sessions_def AccountingHandler_with_config_def)
  then show ?thesis
    unfolding Let_def acct_do.simps first_start_passes snd_conv get_user_session_count_def user_sessions_insert start_insert_max by simp
qed

text \<open>
  An Interim-Update stores the octet counters of the request as 64-bit numbers, the gigawords the
  upper half, and refreshes the session; every other session is untouched.
\<close>

theorem interim_update_counts:
  assumes "get_acct_session h i = Some s" "acct_u32 packet AcctInputOctets = Some low"
  shows "\<exists>s'. get_acct_session (snd (handle_interim_update now h i u ip packet)) i = Some s' \<and> sess_last_update s' = now
     \<and> unat (sess_input_octets s') = unat (case acct_u32 packet AcctInputGigawords of Some g \<Rightarrow> g | None \<Rightarrow> 0) * 2 ^ 32 + unat low
     \<and> (k \<noteq> i \<longrightarrow> get_acct_session (snd (handle_interim_update now h i u ip packet)) k = get_acct_session h k)"
  using assms
  by (simp add: get_acct_session_def handle_interim_update_def update_usage_input octets64_def unat_u64_of_halves)

definition sample_interim :: Packet where
  "sample_interim = \<lparr>pkt_code = AccountingRequest, pkt_identifier = 3, pkt_authenticator = arr16_of [],
     pkt_attributes = [\<lparr>attr_type = AttributeType_as_u8 AcctInputOctets, attr_value = [0, 0, 0, 5]\<rparr>,
       \<lparr>attr_type = AttributeType_as_u8 AcctInputGigawords, attr_value = [0, 0, 0, 1]\<rparr>]\<rparr>"

definition sample_handler :: SimpleAccountingHandler where
  "sample_handler = start_insert 10 10 (AccountingHandler_with_config 3600 1) ''a'' ''bob'' sample_ip"

theorem interim_update_counts_witness:
  "\<exists>s'. get_acct_session (snd (handle_interim_update 70 sample_handler ''a'' ''bob'' sample_ip sample_interim)) ''a'' = Some s'
     \<and> sess_last_update s' = 70 \<and> unat (sess_input_octets s') = 4294967301"
proof -
  have "get_acct_session sample_handler ''a'' = Some (new_session ''a'' ''bob'' sample_ip 10 10)"
    by (simp add: sample_handler_def get_acct_session_def start_insert_def)
  moreover have "acct_u32 sample_interim AcctInputOctets = Some 5" "acct_u32 sample_interim AcctInputGigawords = Some 1"
    by (simp_all add: acct_u32_def sample_interim_def find_attribute_def u32_from_be_bytes_def)
  ultimately show ?thesis
    using interim_update_counts [of sample_handler "''a''" "new_session ''a'' ''bob'' sample_ip 10 10" sample_interim 5 70 "''bob''" sample_ip "''a''"]
    by simp
qed

end
