(* ===== verification/Server_Config.thy ===== *)
theory Server_Config
  imports Proxy_Routing Proxy_Health Proxy_Forwarding
begin

text \<open>
  The configuration (\<open>config.rs\<close>, \<open>proxy/mod.rs\<close>, and the configuration types of
  \<open>proxy/home_server.rs\<close> and \<open>proxy/pool.rs\<close>): expansion of environment variables, clients and
  their secrets, and validation. What is modelled are the settings that this code reads; paths
  and back-end settings that are only handed on are left out. JSON parsing, the process
  environment, address parsing and the features of the build are parameters.
\<close>

section \<open>Errors\<close>

datatype ConfigError =
    ConfigIo string
  | ConfigParse string
  | ConfigInvalid string
  | EnvVarNotFound string

fun ConfigError_fmt :: "ConfigError \<Rightarrow> string" where
  "ConfigError_fmt (ConfigIo e) = ''IO error: '' @ e"
| "ConfigError_fmt (ConfigParse e) = ''Parse error: '' @ e"
| "ConfigError_fmt (ConfigInvalid s) = ''Invalid configuration: '' @ s"
| "ConfigError_fmt (EnvVarNotFound s) = ''Environment variable not found: '' @ s"

fun ProxyError_fmt :: "ProxyError \<Rightarrow> string" where
  "ProxyError_fmt (ProxyIo e) = ''IO error: '' @ e"
| "ProxyError_fmt (ProxyPacket e) = ''Packet error: '' @ PacketError_fmt e"
| "ProxyError_fmt (Configuration s) = ''Configuration error: '' @ s"
| "ProxyError_fmt (HomeServerNotFound s) = ''Home server not found: '' @ s"
| "ProxyError_fmt (NoServersAvailable s) = ''No home servers available in pool: '' @ s"
| "ProxyError_fmt (CacheFull n) = ''Proxy cache full: '' @ show_nat n @ '' outstanding requests''"
| "ProxyError_fmt CorrelationFailed = ''Request correlation failed: Proxy-State not found''"
| "ProxyError_fmt (ProxyLoop n m) =
     ''Proxy loop detected: '' @ show_nat n @ '' Proxy-State attributes (limit: '' @ show_nat m @ '')''"
| "ProxyError_fmt (ProxyTimeout s) = ''Request timeout after '' @ show_nat (unat s) @ ''s''"
| "ProxyError_fmt (MaxRetriesExceeded n) = ''Max retries exceeded: '' @ show_nat (unat n) @ '' retries''"
| "ProxyError_fmt InvalidResponseAuthenticator = ''Invalid response authenticator from home server''"
| "ProxyError_fmt (InvalidUserPassword s) = ''User-Password from NAS could not be decrypted under the client secret: '' @ s"
| "ProxyError_fmt (AddressParse e) = ''Address parse error: '' @ e"
| "ProxyError_fmt (RealmNotFound s) = ''Realm not found: '' @ s"
| "ProxyError_fmt (InvalidRealmPattern s) = ''Invalid realm pattern: '' @ s"
| "ProxyError_fmt (LinkDown s) = ''RadSec link to home server '' @ s @ '' is not connected''"
| "ProxyError_fmt (LinkBusy s) = ''RadSec link to home server '' @ s @ '' is busy (outbound queue full)''"
| "ProxyError_fmt (ProxyTls s) = ''RadSec TLS error: '' @ s"

section \<open>Environment variables\<close>

text \<open>The text before and after the first occurrence of \<open>${\<close>.\<close>

fun find_open :: "string \<Rightarrow> (string \<times> string) option" where
  "find_open (CHR ''$'' # CHR 0x7B # rest) = Some ([], rest)"
| "find_open (c # rest) = map_option (\<lambda>(pre, post). (c # pre, post)) (find_open rest)"
| "find_open [] = None"

abbreviation BRACE :: char where "BRACE \<equiv> CHR 0x7D"

text \<open>
  The loop replaces one variable after the other and starts again at the beginning, so it need not
  end; not returning is \<open>None\<close>. \<open>env\<close> is the process environment.
\<close>

partial_function (option) expand_env_vars :: "(string \<Rightarrow> string option) \<Rightarrow> string \<Rightarrow> (ConfigError + string) option" where
  "expand_env_vars env result =
     (case find_open result of
        None \<Rightarrow> Some (Inr result)
      | Some (before, rest) \<Rightarrow>
        (case split_first BRACE rest of
           None \<Rightarrow> Some (Inr result)
         | Some (var_name, after) \<Rightarrow>
           (case env var_name of
              None \<Rightarrow> Some (Inl (EnvVarNotFound var_name))
            | Some value \<Rightarrow> expand_env_vars env (before @ value @ after))))"

section \<open>Clients and users\<close>

record User =
  user_name :: string
  user_password :: string
  user_attributes :: "(string, string) fmap"

record Client =
  client_address :: string
  client_secret :: string
  client_name :: "string option"
  client_enabled :: bool
  client_nas_identifier :: "string option"

text \<open>\<open>from_ip\<close> is \<open>IpNetwork::from\<close>: the network of one address.\<close>

definition parse_network :: "'n ip_lib \<Rightarrow> (IpAddr \<Rightarrow> 'n) \<Rightarrow> Client \<Rightarrow> ConfigError + 'n" where
  "parse_network lib from_ip c =
     (case parse_net lib (client_address c) of
        Inr network \<Rightarrow> Inr network
      | Inl _ \<Rightarrow>
        (case parse_ip lib (client_address c) of
           Some ip \<Rightarrow> Inr (from_ip ip)
         | None \<Rightarrow> Inl (ConfigInvalid (''Invalid client address: '' @ client_address c))))"

definition client_matches :: "'n ip_lib \<Rightarrow> (IpAddr \<Rightarrow> 'n) \<Rightarrow> Client \<Rightarrow> IpAddr \<Rightarrow> ConfigError + bool" where
  "client_matches lib from_ip c source_ip =
     res_bind (parse_network lib from_ip c) (\<lambda>network. Inr (net_contains lib network source_ip))"

definition get_secret :: "Client \<Rightarrow> bytes" where
  "get_secret c = str_bytes (client_secret c)"

section \<open>Ports and revocation settings\<close>

datatype AccountingPortMode = Shared | Disabled

datatype AccountingPort = Dedicated u16 | Named AccountingPortMode

definition AccountingPort_default :: AccountingPort where
  "AccountingPort_default = Dedicated 1813"

fun dedicated :: "AccountingPort \<Rightarrow> u16 option" where
  "dedicated (Dedicated port) = Some port"
| "dedicated (Named _) = None"

definition accepts_accounting_on_auth_socket :: "AccountingPort \<Rightarrow> bool" where
  "accepts_accounting_on_auth_socket p \<longleftrightarrow> p = Named Shared"

fun AccountingPort_fmt :: "AccountingPort \<Rightarrow> string" where
  "AccountingPort_fmt (Dedicated port) = show_nat (unat port)"
| "AccountingPort_fmt (Named Shared) = ''shared''"
| "AccountingPort_fmt (Named Disabled) = ''disabled''"

datatype Transport = TransportRadsec | UdpInsecure

datatype RevocationMode = CrlOnly | OcspOnly | PreferOcsp | Both

definition uses_crl :: "RevocationMode \<Rightarrow> bool" where
  "uses_crl m \<longleftrightarrow> m \<in> {CrlOnly, PreferOcsp, Both}"

definition uses_ocsp :: "RevocationMode \<Rightarrow> bool" where
  "uses_ocsp m \<longleftrightarrow> m \<in> {OcspOnly, PreferOcsp, Both}"

datatype RevocationFailurePolicy = FailClosed | FailOpen

record CrlSettings =
  crl_static_files :: "string list"
  crl_fetch :: bool
  crl_fetch_timeout_secs :: u64
  crl_cache_ttl_secs :: u64
  crl_max_cache_entries :: nat
  crl_max_size_bytes :: nat

definition CrlSettings_default :: CrlSettings where
  "CrlSettings_default = \<lparr>crl_static_files = [], crl_fetch = True, crl_fetch_timeout_secs = 5, crl_cache_ttl_secs = 3600,
     crl_max_cache_entries = 100, crl_max_size_bytes = 10 * 1024 * 1024\<rparr>"

record OcspSettings =
  ocsp_fetch_timeout_secs :: u64
  ocsp_cache_ttl_secs :: u64
  ocsp_max_cache_entries :: nat
  ocsp_nonce :: bool
  ocsp_max_response_size_bytes :: nat

definition OcspSettings_default :: OcspSettings where
  "OcspSettings_default = \<lparr>ocsp_fetch_timeout_secs = 5, ocsp_cache_ttl_secs = 3600, ocsp_max_cache_entries = 100,
     ocsp_nonce = True, ocsp_max_response_size_bytes = 1024 * 1024\<rparr>"

record RevocationConfig =
  rev_mode :: RevocationMode
  rev_on_error :: RevocationFailurePolicy
  rev_crl :: CrlSettings
  rev_ocsp :: OcspSettings

definition RevocationConfig_default :: RevocationConfig where
  "RevocationConfig_default = \<lparr>rev_mode = CrlOnly, rev_on_error = FailClosed, rev_crl = CrlSettings_default, rev_ocsp = OcspSettings_default\<rparr>"

text \<open>
  What the build and the libraries contribute to validation: the cargo features, trimming of white
  space, socket addresses, server names of the TLS library and quoted debug output.
\<close>

record 'n config_lib =
  cl_ip :: "'n ip_lib"
  cl_from_ip :: "IpAddr \<Rightarrow> 'n"
  cl_tls :: bool
  cl_revocation :: bool
  cl_trim :: "string \<Rightarrow> string"
  cl_socket_addr :: "string \<Rightarrow> string + SocketAddr"
  cl_server_name_ok :: "string \<Rightarrow> bool"
  cl_debug :: "string \<Rightarrow> string"

definition blank :: "'n config_lib \<Rightarrow> string \<Rightarrow> bool" where
  "blank lib s \<longleftrightarrow> cl_trim lib s = []"

definition RevocationConfig_validate :: "'n config_lib \<Rightarrow> RevocationConfig \<Rightarrow> string \<Rightarrow> ConfigError + unit" where
  "RevocationConfig_validate lib r at =
     (let invalid = (\<lambda>msg. Inl (ConfigInvalid (at @ '': '' @ msg))); crl = rev_crl r; ocsp = rev_ocsp r
      in if \<not> cl_revocation lib then
           Inl (ConfigInvalid (at @ '': this binary was built without the `revocation` feature, so revocation checking cannot be enforced; rebuild with `--features revocation` or remove the block''))
         else if uses_crl (rev_mode r) \<and> \<not> crl_fetch crl \<and> crl_static_files crl = [] then
           invalid ''crl.fetch is false and crl.static_files is empty: no CRL source (mode uses CRLs)''
         else if uses_crl (rev_mode r) \<and> list_ex (blank lib) (crl_static_files crl) then
           invalid ''crl.static_files contains an empty path''
         else if uses_crl (rev_mode r) \<and> crl_fetch_timeout_secs crl = 0 then invalid ''crl.fetch_timeout_secs must be > 0''
         else if uses_crl (rev_mode r) \<and> crl_cache_ttl_secs crl = 0 then invalid ''crl.cache_ttl_secs must be > 0''
         else if uses_crl (rev_mode r) \<and> crl_max_cache_entries crl = 0 then invalid ''crl.max_cache_entries must be > 0''
         else if uses_crl (rev_mode r) \<and> crl_max_size_bytes crl = 0 then invalid ''crl.max_size_bytes must be > 0''
         else if uses_ocsp (rev_mode r) \<and> ocsp_fetch_timeout_secs ocsp = 0 then invalid ''ocsp.fetch_timeout_secs must be > 0''
         else if uses_ocsp (rev_mode r) \<and> ocsp_cache_ttl_secs ocsp = 0 then invalid ''ocsp.cache_ttl_secs must be > 0''
         else if uses_ocsp (rev_mode r) \<and> ocsp_max_cache_entries ocsp = 0 then invalid ''ocsp.max_cache_entries must be > 0''
         else if uses_ocsp (rev_mode r) \<and> ocsp_max_response_size_bytes ocsp = 0 then invalid ''ocsp.max_response_size_bytes must be > 0''
         else Inr ())"

section \<open>Home servers, pools and the proxy\<close>

record HomeServerTlsConfig =
  hst_ca_path :: string
  hst_cert_path :: string
  hst_key_path :: string
  hst_server_name :: string
  hst_revocation :: "RevocationConfig option"

definition HomeServerTlsConfig_validate :: "'n config_lib \<Rightarrow> HomeServerTlsConfig \<Rightarrow> string \<Rightarrow> ProxyError + unit" where
  "HomeServerTlsConfig_validate lib c at =
     (let invalid = (\<lambda>msg. Inl (Configuration (at @ '': '' @ msg)))
      in if blank lib (hst_ca_path c) then invalid ''ca_path cannot be empty''
         else if blank lib (hst_cert_path c) then invalid ''cert_path cannot be empty''
         else if blank lib (hst_key_path c) then invalid ''key_path cannot be empty''
         else if blank lib (hst_server_name c) then invalid ''server_name cannot be empty''
         else if cl_tls lib \<and> \<not> cl_server_name_ok lib (hst_server_name c) then
           invalid (''server_name '' @ cl_debug lib (hst_server_name c) @ '' is neither a DNS name nor an IP address'')
         else case hst_revocation c of
                None \<Rightarrow> Inr ()
              | Some rv \<Rightarrow> map_err (\<lambda>e. Configuration (ConfigError_fmt e)) (RevocationConfig_validate lib rv (at @ ''.revocation'')))"

record HomeServerConfig =
  hsc_address :: string
  hsc_secret :: string
  hsc_timeout :: u64
  hsc_max_outstanding :: nat
  hsc_name :: "string option"
  hsc_transport :: HomeServerTransport
  hsc_tls :: "HomeServerTlsConfig option"

definition HomeServerConfig_default :: HomeServerConfig where
  "HomeServerConfig_default = \<lparr>hsc_address = [], hsc_secret = [], hsc_timeout = 30, hsc_max_outstanding = 100, hsc_name = None,
     hsc_transport = Udp, hsc_tls = None\<rparr>"

definition HomeServerConfig_udp :: "string \<Rightarrow> string \<Rightarrow> HomeServerConfig" where
  "HomeServerConfig_udp address secret = HomeServerConfig_default\<lparr>hsc_address := address, hsc_secret := secret\<rparr>"

definition HomeServerConfig_radsec :: "string \<Rightarrow> HomeServerTlsConfig \<Rightarrow> HomeServerConfig" where
  "HomeServerConfig_radsec address tls =
     HomeServerConfig_default\<lparr>hsc_address := address, hsc_transport := Radsec, hsc_tls := Some tls\<rparr>"

definition section_sign :: string where
  "section_sign = [CHR 0xC2, CHR 0xA7]"

definition hsc_label :: "HomeServerConfig \<Rightarrow> string" where
  "hsc_label c = (case hsc_name c of Some n \<Rightarrow> n | None \<Rightarrow> hsc_address c)"

definition HomeServerConfig_validate :: "'n config_lib \<Rightarrow> HomeServerConfig \<Rightarrow> ProxyError + unit" where
  "HomeServerConfig_validate lib c =
     (let invalid = (\<lambda>msg. Inl (Configuration (''Home server '' @ quoted (hsc_label c) @ '': '' @ msg)))
      in case cl_socket_addr lib (hsc_address c) of
           Inl e \<Rightarrow> Inl (Configuration (''Invalid home server address '' @ quoted (hsc_address c) @ '': '' @ e))
         | Inr _ \<Rightarrow>
           if hsc_timeout c = 0 then Inl (Configuration ''Home server timeout cannot be 0'')
           else case hsc_transport c of
                  Udp \<Rightarrow>
                    if hsc_secret c = [] then Inl (Configuration ''Home server secret cannot be empty'')
                    else if hsc_tls c \<noteq> None then invalid ''tls is only used with transport = \"radsec\"''
                    else Inr ()
                | Radsec \<Rightarrow>
                    if hsc_max_outstanding c > 255 then
                      invalid (''max_outstanding '' @ show_nat (hsc_max_outstanding c)
                        @ '' exceeds 255; one RadSec connection carries at most 256 outstanding requests with one Identifier reserved for the Status-Server watchdog (RFC 6613 ''
                        @ section_sign @ ''2.6, '' @ section_sign @ ''2.6.5)'')
                    else if \<not> cl_tls lib then invalid ''transport = \"radsec\" requires a binary built with the `tls` feature''
                    else if hsc_secret c \<noteq> [] then
                      invalid (''secret must not be set with transport = \"radsec\" (RFC 6614 '' @ section_sign
                        @ ''2.3 fixes the hop secret to \"radsec\")'')
                    else (case hsc_tls c of
                            None \<Rightarrow> invalid ''transport = \"radsec\" requires a tls block (ca_path, cert_path, key_path, server_name)''
                          | Some tls \<Rightarrow> HomeServerTlsConfig_validate lib tls (''Home server '' @ quoted (hsc_label c) @ '' tls'')))"

text \<open>A \<open>for\<close> loop of checks with \<open>?\<close>.\<close>

fun check_each :: "('a \<Rightarrow> 'e + unit) \<Rightarrow> 'a list \<Rightarrow> 'e + unit" where
  "check_each f [] = Inr ()"
| "check_each f (x # xs) = res_bind (f x) (\<lambda>_. check_each f xs)"

record HomeServerPoolConfig =
  pc_name :: string
  pc_strategy :: LoadBalanceStrategy
  pc_servers :: "HomeServerConfig list"

definition HomeServerPoolConfig_validate :: "'n config_lib \<Rightarrow> HomeServerPoolConfig \<Rightarrow> ProxyError + unit" where
  "HomeServerPoolConfig_validate lib p =
     (if pc_name p = [] then Inl (Configuration ''Pool name cannot be empty'')
      else if pc_servers p = [] then Inl (Configuration (''Pool '' @ quoted (pc_name p) @ '' has no servers configured''))
      else check_each (HomeServerConfig_validate lib) (pc_servers p))"

record ProxyConfig =
  px_enabled :: bool
  px_cache_ttl :: u64
  px_max_outstanding :: nat
  px_proxy_timeout :: u64
  px_pools :: "HomeServerPoolConfig list"
  px_realms :: "RealmConfig list"
  px_default_realm :: "string option"
  px_health_check :: HealthCheckConfig
  px_retry :: RetryConfig

definition ProxyConfig_default :: ProxyConfig where
  "ProxyConfig_default = \<lparr>px_enabled = False, px_cache_ttl = 30, px_max_outstanding = 1000, px_proxy_timeout = 30, px_pools = [],
     px_realms = [], px_default_realm = Some ''local'', px_health_check = HealthCheckConfig_default, px_retry = RetryConfig_default\<rparr>"

definition radsec_server :: "ProxyConfig \<Rightarrow> (HomeServerPoolConfig \<times> HomeServerConfig) option" where
  "radsec_server c =
     find (\<lambda>(_, s). hsc_transport s = Radsec) (concat (map (\<lambda>p. map (\<lambda>s. (p, s)) (pc_servers p)) (px_pools c)))"

definition check_realm_pool :: "ProxyConfig \<Rightarrow> RealmConfig \<Rightarrow> ProxyError + unit" where
  "check_realm_pool c r =
     (if list_ex (\<lambda>p. pc_name p = rc_pool r) (px_pools c) then Inr ()
      else Inl (Configuration (''Realm '' @ quoted (rc_name r) @ '' references unknown pool '' @ quoted (rc_pool r))))"

definition ProxyConfig_validate :: "'n config_lib \<Rightarrow> ProxyConfig \<Rightarrow> ProxyError + unit" where
  "ProxyConfig_validate lib c =
     (if \<not> px_enabled c then Inr ()
      else if px_pools c = [] then Inl (Configuration ''Proxy enabled but no pools configured'')
      else res_bind
        (if hc_enabled (px_health_check c) then Inr ()
         else case radsec_server c of
                Some (pool, server) \<Rightarrow> Inl (Configuration (''pool '' @ quoted (pc_name pool) @ '' home server '' @ quoted (hsc_label server)
                  @ '': RadSec home servers require health_check.enabled: the Status-Server probe is the RFC 6613 '' @ section_sign
                  @ ''2.6 watchdog (RFC 3539 '' @ section_sign @ ''3.4) of the connection''))
              | None \<Rightarrow> Inr ()) (\<lambda>_.
        res_bind (check_each (HomeServerPoolConfig_validate lib) (px_pools c)) (\<lambda>_.
        res_bind (check_each (check_realm_pool c) (px_realms c)) (\<lambda>_.
          case px_default_realm c of
            Some d \<Rightarrow>
              if d \<noteq> ''local'' \<and> \<not> list_ex (\<lambda>p. pc_name p = d) (px_pools c) then
                Inl (Configuration (''Default realm '' @ quoted d @ '' is not '' @ quoted ''local'' @ '' and does not reference a valid pool''))
              else Inr ()
          | None \<Rightarrow> Inr ()))))"

section \<open>The server's configuration\<close>

text \<open>The records hold the settings the modelled code reads; paths, log levels and back ends are left out.\<close>

record RadSecConfig =
  rs_listen_address :: string
  rs_listen_port :: u16
  rs_revocation :: "RevocationConfig option"

record MgmtTlsConfig =
  mt_cert_path :: string
  mt_key_path :: string
  mt_client_ca_path :: "string option"

record MgmtConfig =
  mg_tls :: "MgmtTlsConfig option"
  mg_access_policy_file :: "string option"
  mg_trust_forwarded_identity :: bool

record EapTlsConfig =
  et_ca_path :: "string option"
  et_require_client_cert :: bool
  et_revocation :: "RevocationConfig option"

record EapConfig =
  eap_tls :: EapTlsConfig
  eap_teap_tls :: "EapTlsConfig option"
  eap_enable_tls :: bool
  eap_enable_teap :: bool
  eap_session_idle_timeout_secs :: u64
  eap_max_sessions :: nat

record Config =
  cfg_listen_address :: string
  cfg_listen_port :: u16
  cfg_accounting_port :: AccountingPort
  cfg_secret :: string
  cfg_clients :: "Client list"
  cfg_users :: "User list"
  cfg_audit_log_path :: "string option"
  cfg_strict_rfc_compliance :: bool
  cfg_request_cache_ttl :: "u64 option"
  cfg_request_cache_max_entries :: "nat option"
  cfg_rate_limit_per_client_rps :: "u32 option"
  cfg_rate_limit_per_client_burst :: "u32 option"
  cfg_rate_limit_global_rps :: "u32 option"
  cfg_rate_limit_global_burst :: "u32 option"
  cfg_max_concurrent_connections :: "u32 option"
  cfg_max_bandwidth_bps :: "u64 option"
  cfg_proxy :: "ProxyConfig option"
  cfg_eap :: "EapConfig option"
  cfg_mgmt :: "MgmtConfig option"
  cfg_transport :: Transport
  cfg_radsec :: "RadSecConfig option"

definition Config_default :: Config where
  "Config_default = \<lparr>cfg_listen_address = ''::'', cfg_listen_port = 1812, cfg_accounting_port = AccountingPort_default,
     cfg_secret = ''testing123'', cfg_clients = [], cfg_users = [], cfg_audit_log_path = None, cfg_strict_rfc_compliance = True, cfg_request_cache_ttl = None,
     cfg_request_cache_max_entries = None, cfg_rate_limit_per_client_rps = None, cfg_rate_limit_per_client_burst = None,
     cfg_rate_limit_global_rps = None, cfg_rate_limit_global_burst = None, cfg_max_concurrent_connections = None,
     cfg_max_bandwidth_bps = None, cfg_proxy = None, cfg_eap = None, cfg_mgmt = None, cfg_transport = UdpInsecure, cfg_radsec = None\<rparr>"

definition socket_addr :: "'n config_lib \<Rightarrow> Config \<Rightarrow> ConfigError + SocketAddr" where
  "socket_addr lib c =
     (case parse_ip (cl_ip lib) (cfg_listen_address c) of
        None \<Rightarrow> Inl (ConfigInvalid (''Invalid IP address: '' @ cfg_listen_address c))
      | Some ip \<Rightarrow> Inr (SocketAddr_new ip (cfg_listen_port c)))"

definition accounting_socket_addr :: "'n config_lib \<Rightarrow> Config \<Rightarrow> ConfigError + SocketAddr option" where
  "accounting_socket_addr lib c =
     (case parse_ip (cl_ip lib) (cfg_listen_address c) of
        None \<Rightarrow> Inl (ConfigInvalid (''Invalid IP address: '' @ cfg_listen_address c))
      | Some ip \<Rightarrow> Inr (map_option (SocketAddr_new ip) (dedicated (cfg_accounting_port c))))"

definition find_client :: "'n config_lib \<Rightarrow> Config \<Rightarrow> IpAddr \<Rightarrow> Client option" where
  "find_client lib c source_ip =
     (let source_ip = to_canonical source_ip
      in find (\<lambda>client. client_enabled client \<and> client_matches (cl_ip lib) (cl_from_ip lib) client source_ip = Inr True) (cfg_clients c))"

definition get_secret_for_client :: "'n config_lib \<Rightarrow> Config \<Rightarrow> IpAddr \<Rightarrow> bytes" where
  "get_secret_for_client lib c source_ip =
     (case find_client lib c source_ip of Some client \<Rightarrow> get_secret client | None \<Rightarrow> str_bytes (cfg_secret c))"

definition check_client :: "'n config_lib \<Rightarrow> Client \<Rightarrow> ConfigError + unit" where
  "check_client lib client =
     (if client_secret client = [] then Inl (ConfigInvalid (''Client '' @ client_address client @ '' has empty secret''))
      else res_bind (parse_network (cl_ip lib) (cl_from_ip lib) client) (\<lambda>_. Inr ()))"

definition check_user :: "User \<Rightarrow> ConfigError + unit" where
  "check_user user = (if user_name user = [] then Inl (ConfigInvalid ''User has empty username'') else Inr ())"

definition check_eap_bounds :: "EapConfig \<Rightarrow> ConfigError + unit" where
  "check_eap_bounds eap =
     (if \<not> eap_enable_tls eap \<and> \<not> eap_enable_teap eap then
        Inl (ConfigInvalid ''eap: neither enable_tls nor enable_teap is set (both default to false); enable at least one EAP method or remove the eap block'')
      else if eap_session_idle_timeout_secs eap = 0 then Inl (ConfigInvalid ''eap.session_idle_timeout_secs must be at least 1'')
      else if eap_max_sessions eap = 0 then Inl (ConfigInvalid ''eap.max_sessions must be at least 1'')
      else Inr ())"

definition check_eap_revocation :: "'n config_lib \<Rightarrow> string \<times> EapTlsConfig \<Rightarrow> ConfigError + unit" where
  "check_eap_revocation lib block =
     (case block of (at, tls) \<Rightarrow>
        (case et_revocation tls of
           None \<Rightarrow> Inr ()
         | Some rv \<Rightarrow>
           if \<not> et_require_client_cert tls \<or> et_ca_path tls = None then
             Inl (ConfigInvalid (at @ ''.revocation requires '' @ at @ ''.require_client_cert = true and '' @ at
               @ ''.ca_path (there is no client certificate to check otherwise)''))
           else RevocationConfig_validate lib rv (at @ ''.revocation'')))"

definition eap_blocks :: "EapConfig \<Rightarrow> (string \<times> EapTlsConfig) list" where
  "eap_blocks eap = (''eap.tls'', eap_tls eap) # (case eap_teap_tls eap of None \<Rightarrow> [] | Some t \<Rightarrow> [(''eap.teap_tls'', t)])"

definition check_accounting_port :: "Config \<Rightarrow> ConfigError + unit" where
  "check_accounting_port c =
     (case cfg_accounting_port c of
        Dedicated p \<Rightarrow>
          if p = 0 then Inl (ConfigInvalid ''accounting_port cannot be 0 (use \"disabled\" or \"shared\")'')
          else if p = cfg_listen_port c then
            Inl (ConfigInvalid (''accounting_port '' @ show_nat (unat p) @ '' must differ from listen_port''))
          else Inr ()
      | Named _ \<Rightarrow> Inr ())"

definition check_mgmt :: "MgmtConfig \<Rightarrow> ConfigError + unit" where
  "check_mgmt mgmt =
     (case mg_tls mgmt of
        Some tls \<Rightarrow>
          if mt_cert_path tls = [] \<or> mt_key_path tls = [] then
            Inl (ConfigInvalid ''mgmt.tls requires both cert_path and key_path'')
          else Inr ()
      | None \<Rightarrow> Inr ())"

definition check_some :: "('a \<Rightarrow> 'e + unit) \<Rightarrow> 'a option \<Rightarrow> 'e + unit" where
  "check_some f x = (case x of None \<Rightarrow> Inr () | Some a \<Rightarrow> f a)"

definition Config_validate :: "'n config_lib \<Rightarrow> Config \<Rightarrow> ConfigError + unit" where
  "Config_validate lib c =
     (if parse_ip (cl_ip lib) (cfg_listen_address c) = None then
        Inl (ConfigInvalid (''Invalid listen address: '' @ cfg_listen_address c))
      else if cfg_listen_port c = 0 then Inl (ConfigInvalid ''Port cannot be 0'')
      else res_bind (check_accounting_port c) (\<lambda>_.
        if cfg_secret c = [] then Inl (ConfigInvalid ''Secret cannot be empty'')
        else res_bind (check_each (check_client lib) (cfg_clients c)) (\<lambda>_.
        res_bind (check_each check_user (cfg_users c)) (\<lambda>_.
        res_bind (check_some check_eap_bounds (cfg_eap c)) (\<lambda>_.
        res_bind (check_some (\<lambda>eap. check_each (check_eap_revocation lib) (eap_blocks eap)) (cfg_eap c)) (\<lambda>_.
        res_bind (check_some (\<lambda>radsec. check_some (\<lambda>rv. RevocationConfig_validate lib rv ''radsec.revocation'')
            (rs_revocation radsec)) (cfg_radsec c)) (\<lambda>_.
        res_bind (check_some (\<lambda>proxy. map_err (\<lambda>e. ConfigInvalid (''proxy: '' @ ProxyError_fmt e)) (ProxyConfig_validate lib proxy))
            (cfg_proxy c)) (\<lambda>_.
        check_some check_mgmt (cfg_mgmt c)))))))))"

text \<open>\<open>from_file\<close>, from the outcome of reading and parsing the file.\<close>

fun expand_clients :: "(string \<Rightarrow> string option) \<Rightarrow> Client list \<Rightarrow> (ConfigError + Client list) option" where
  "expand_clients env [] = Some (Inr [])"
| "expand_clients env (client # rest) =
     Option.bind (expand_env_vars env (client_secret client)) (\<lambda>r. case r of
         Inl e \<Rightarrow> Some (Inl e)
       | Inr s \<Rightarrow> map_option (\<lambda>r. res_bind r (\<lambda>cs. Inr (client\<lparr>client_secret := s\<rparr> # cs))) (expand_clients env rest))"

definition from_file :: "'n config_lib \<Rightarrow> (string \<Rightarrow> string option) \<Rightarrow> ConfigError + Config \<Rightarrow> (ConfigError + Config) option" where
  "from_file lib env parsed =
     (case parsed of
        Inl e \<Rightarrow> Some (Inl e)
      | Inr config \<Rightarrow> Option.bind (expand_env_vars env (cfg_secret config)) (\<lambda>r. case r of
            Inl e \<Rightarrow> Some (Inl e)
          | Inr s \<Rightarrow> Option.bind (expand_clients env (cfg_clients config)) (\<lambda>r. case r of
              Inl e \<Rightarrow> Some (Inl e)
            | Inr cs \<Rightarrow>
                let config = config\<lparr>cfg_secret := s, cfg_clients := cs\<rparr>
                in Some (res_bind (Config_validate lib config) (\<lambda>_. Inr config)))))"

section \<open>Expansion of environment variables\<close>

lemma find_open_Cons:
  "find_open (c # rest) = (if c = CHR ''$'' \<and> rest \<noteq> [] \<and> hd rest = CHR 0x7B then Some ([], tl rest)
     else map_option (\<lambda>(pre, post). (c # pre, post)) (find_open rest))"
  by (cases "(c # rest)" rule: find_open.cases) auto

lemma find_open_Some:
  "find_open s = Some (before, rest) \<Longrightarrow> s = before @ CHR ''$'' # CHR 0x7B # rest \<and> find_open before = None"
proof (induction s arbitrary: before)
  case (Cons c s)
  show ?case
  proof (cases "c = CHR ''$'' \<and> s \<noteq> [] \<and> hd s = CHR 0x7B")
    case True
    with Cons.prems show ?thesis by (cases s) (auto simp: find_open_Cons)
  next
    case False
    with Cons.prems obtain b where b: "find_open s = Some (b, rest)" "before = c # b"
      by (auto simp: find_open_Cons)
    with Cons.IH have IH: "s = b @ CHR ''$'' # CHR 0x7B # rest" "find_open b = None" by blast+
    have "\<not> (c = CHR ''$'' \<and> b \<noteq> [] \<and> hd b = CHR 0x7B)" using False IH(1) by (cases b) auto
    then show ?thesis using IH b(2) by (simp add: find_open_Cons)
  qed
qed simp

lemma split_first_Some: "split_first x s = Some (a, b) \<Longrightarrow> s = a @ x # b \<and> x \<notin> set a"
  by (induction s arbitrary: a) (auto split: if_splits)

text \<open>Text that nothing written after it can turn into the start of a variable.\<close>

definition settled :: "string \<Rightarrow> bool" where
  "settled p \<longleftrightarrow> find_open p = None \<and> (p = [] \<or> last p \<noteq> CHR ''$'')"

lemma find_open_append:
  "settled p \<Longrightarrow> find_open (p @ s) = map_option (\<lambda>(a, b). (p @ a, b)) (find_open s)"
proof (induction p)
  case Nil
  then show ?case by (cases "find_open s") auto
next
  case (Cons c p)
  from Cons.prems have n: "\<not> (c = CHR ''$'' \<and> p \<noteq> [] \<and> hd p = CHR 0x7B)" and "find_open p = None"
    by (auto simp: settled_def find_open_Cons split: if_splits)
  with Cons.prems have "settled p" by (auto simp: settled_def split: if_splits)
  with Cons.IH have "find_open (p @ s) = map_option (\<lambda>(a, b). (p @ a, b)) (find_open s)" .
  moreover have "\<not> (c = CHR ''$'' \<and> p @ s \<noteq> [] \<and> hd (p @ s) = CHR 0x7B)"
    using n Cons.prems by (cases p) (auto simp: settled_def)
  ultimately show ?case by (auto simp: find_open_Cons option.map_comp comp_def split_beta)
qed

lemma find_open_None_append:
  "find_open a = None \<Longrightarrow> find_open b = None \<Longrightarrow> b = [] \<or> hd b \<noteq> CHR 0x7B \<Longrightarrow> find_open (a @ b) = None"
proof (induction a)
  case (Cons c a)
  then have "\<not> (c = CHR ''$'' \<and> a \<noteq> [] \<and> hd a = CHR 0x7B)" "find_open a = None"
    by (auto simp: find_open_Cons split: if_splits)
  with Cons show ?case by (cases a) (auto simp: find_open_Cons)
qed simp

lemma find_open_no_dollar: "CHR ''$'' \<notin> set v \<Longrightarrow> find_open v = None"
  by (induction v) (auto simp: find_open_Cons)

lemma settled_value:
  assumes "settled p" "find_open before = None" "v \<noteq> []" "CHR ''$'' \<notin> set v" "hd v \<noteq> CHR 0x7B"
  shows "settled (p @ before @ v)"
proof -
  have "find_open (p @ before) = None" using assms(1,2) by (simp add: find_open_append)
  then have "find_open ((p @ before) @ v) = None"
    by (rule find_open_None_append) (use assms in \<open>simp_all add: find_open_no_dollar\<close>)
  moreover have "last v \<noteq> CHR ''$''" using assms(3,4) last_in_set by metis
  ultimately show ?thesis using assms(3) by (simp add: settled_def)
qed

text \<open>The reference: one pass from left to right, values are not looked at again.\<close>

function substitute :: "(string \<Rightarrow> string option) \<Rightarrow> string \<Rightarrow> ConfigError + string" where
  "substitute env s =
     (case find_open s of
        None \<Rightarrow> Inr s
      | Some (before, rest) \<Rightarrow>
        (case split_first BRACE rest of
           None \<Rightarrow> Inr s
         | Some (var_name, after) \<Rightarrow>
           (case env var_name of
              None \<Rightarrow> Inl (EnvVarNotFound var_name)
            | Some value \<Rightarrow> res_bind (substitute env after) (\<lambda>t. Inr (before @ value @ t)))))"
  by pat_completeness auto
termination
  by (relation "measure (\<lambda>(env, s). length s)") (auto dest!: find_open_Some split_first_Some)

declare substitute.simps [simp del]

lemma expand_substitutes:
  assumes env: "\<And>n v. env n = Some v \<Longrightarrow> v \<noteq> [] \<and> CHR ''$'' \<notin> set v \<and> hd v \<noteq> CHR 0x7B"
  shows "settled p \<Longrightarrow> expand_env_vars env (p @ s) = Some (res_bind (substitute env s) (\<lambda>t. Inr (p @ t)))"
proof (induction s arbitrary: p rule: length_induct)
  case (1 s)
  note app = find_open_append [OF "1.prems", of s]
  show ?case
  proof (cases "find_open s")
    case None
    then show ?thesis by (simp add: expand_env_vars.simps app substitute.simps)
  next
    case (Some x)
    obtain before rest where x: "find_open s = Some (before, rest)" using Some by (cases x) auto
    note o = find_open_Some [OF x]
    show ?thesis
    proof (cases "split_first BRACE rest")
      case None
      then show ?thesis by (simp add: expand_env_vars.simps app x substitute.simps)
    next
      case (Some y)
      obtain name after where y: "split_first BRACE rest = Some (name, after)" using Some by (cases y) auto
      show ?thesis
      proof (cases "env name")
        case None
        then show ?thesis by (simp add: expand_env_vars.simps app x y substitute.simps)
      next
        case (Some v)
        have "length after < length s" using o split_first_Some [OF y] by simp
        moreover have "settled (p @ before @ v)"
          using settled_value [OF "1.prems"] o env [OF Some] by blast
        ultimately have "expand_env_vars env ((p @ before @ v) @ after) =
            Some (res_bind (substitute env after) (\<lambda>t. Inr ((p @ before @ v) @ t)))"
          using "1.IH" by blast
        then show ?thesis
          by (cases "substitute env after") (simp_all add: expand_env_vars.simps [of env "p @ s"] app x y Some substitute.simps [of env s])
      qed
    qed
  qed
qed


definition sample_env :: "string \<Rightarrow> string option" where
  "sample_env n = (if n = ''KEY'' then Some ''s3cret'' else None)"




section \<open>What a loaded configuration guarantees\<close>

lemma check_each_iff [res_simps]: "check_each f xs = Inr () \<longleftrightarrow> (\<forall>x \<in> set xs. f x = Inr ())"
  by (induction xs) (auto simp: res_simps)

lemma check_some_iff [res_simps]: "check_some f x = Inr () \<longleftrightarrow> (\<forall>a. x = Some a \<longrightarrow> f a = Inr ())"
  by (cases x) (simp_all add: check_some_def)

text \<open>A usable home server: over UDP with a secret, or over RadSec within the Identifier space.\<close>

definition home_server_usable :: "'n config_lib \<Rightarrow> HomeServerConfig \<Rightarrow> bool" where
  "home_server_usable lib s \<longleftrightarrow>
     (\<exists>a. cl_socket_addr lib (hsc_address s) = Inr a) \<and> hsc_timeout s \<noteq> 0 \<and>
     (case hsc_transport s of
        Udp \<Rightarrow> hsc_secret s \<noteq> [] \<and> hsc_tls s = None
      | Radsec \<Rightarrow> hsc_max_outstanding s \<le> 255 \<and> cl_tls lib \<and> hsc_secret s = [] \<and>
          (\<exists>tls. hsc_tls s = Some tls \<and> \<not> blank lib (hst_ca_path tls) \<and> \<not> blank lib (hst_cert_path tls) \<and>
             \<not> blank lib (hst_key_path tls) \<and> cl_server_name_ok lib (hst_server_name tls)))"

lemma HomeServerTlsConfig_validate_ok:
  assumes "HomeServerTlsConfig_validate lib tls at = Inr ()"
  shows "\<not> blank lib (hst_ca_path tls) \<and> \<not> blank lib (hst_cert_path tls) \<and> \<not> blank lib (hst_key_path tls) \<and>
     (cl_tls lib \<longrightarrow> cl_server_name_ok lib (hst_server_name tls))"
  using assms by (auto simp: HomeServerTlsConfig_validate_def Let_def split: if_splits)

lemma HomeServerConfig_validate_usable:
  assumes "HomeServerConfig_validate lib s = Inr ()"
  shows "home_server_usable lib s"
proof -
  obtain a where a: "cl_socket_addr lib (hsc_address s) = Inr a" and t: "hsc_timeout s \<noteq> 0"
    using assms by (auto simp: HomeServerConfig_validate_def Let_def split: sum.splits if_splits)
  show ?thesis
  proof (cases "hsc_transport s")
    case Udp
    then show ?thesis using assms a t
      by (auto simp: home_server_usable_def HomeServerConfig_validate_def Let_def split: if_splits)
  next
    case Radsec
    then obtain tls where "hsc_tls s = Some tls" "HomeServerTlsConfig_validate lib tls (''Home server '' @ quoted (hsc_label s) @ '' tls'') = Inr ()"
        "hsc_max_outstanding s \<le> 255" "cl_tls lib" "hsc_secret s = []"
      using assms a t by (auto simp: HomeServerConfig_validate_def Let_def split: if_splits option.splits)
    then show ?thesis using a t Radsec HomeServerTlsConfig_validate_ok [of lib tls]
      by (auto simp: home_server_usable_def)
  qed
qed

lemma ProxyConfig_validate_ok:
  assumes "ProxyConfig_validate lib c = Inr ()" "px_enabled c"
  shows "px_pools c \<noteq> []"
    and "\<forall>r \<in> set (px_realms c). \<exists>p \<in> set (px_pools c). pc_name p = rc_pool r"
    and "\<forall>p \<in> set (px_pools c). \<forall>s \<in> set (pc_servers p).
      home_server_usable lib s \<and> (hsc_transport s = Radsec \<longrightarrow> hc_enabled (px_health_check c))"
    and "\<forall>d. px_default_realm c = Some d \<longrightarrow> d = ''local'' \<or> (\<exists>p \<in> set (px_pools c). pc_name p = d)"
proof -
  from assms have pools: "px_pools c \<noteq> []"
    and watchdog: "(if hc_enabled (px_health_check c) then Inr ()
         else case radsec_server c of
                Some (pool, server) \<Rightarrow> Inl (Configuration (''pool '' @ quoted (pc_name pool) @ '' home server '' @ quoted (hsc_label server)
                  @ '': RadSec home servers require health_check.enabled: the Status-Server probe is the RFC 6613 '' @ section_sign
                  @ ''2.6 watchdog (RFC 3539 '' @ section_sign @ ''3.4) of the connection''))
              | None \<Rightarrow> Inr ()) = Inr ()"
    and each: "\<forall>p \<in> set (px_pools c). HomeServerPoolConfig_validate lib p = Inr ()"
    and realms: "\<forall>r \<in> set (px_realms c). check_realm_pool c r = Inr ()"
    and dflt: "(case px_default_realm c of Some d \<Rightarrow>
        if d \<noteq> ''local'' \<and> \<not> list_ex (\<lambda>p. pc_name p = d) (px_pools c) then
          Inl (Configuration (''Default realm '' @ quoted d @ '' is not '' @ quoted ''local'' @ '' and does not reference a valid pool''))
        else Inr () | None \<Rightarrow> Inr ()) = Inr ()"
    by (simp_all add: ProxyConfig_validate_def res_bind_Inr_iff check_each_iff split: if_split_asm)
  show "px_pools c \<noteq> []" by fact
  show "\<forall>r \<in> set (px_realms c). \<exists>p \<in> set (px_pools c). pc_name p = rc_pool r"
    using realms by (auto simp: check_realm_pool_def list_ex_iff split: if_splits)
  have "hc_enabled (px_health_check c) \<or> radsec_server c = None"
    using watchdog by (auto split: if_splits option.splits)
  then have "hsc_transport s = Radsec \<longrightarrow> hc_enabled (px_health_check c)" if "p \<in> set (px_pools c)" "s \<in> set (pc_servers p)" for p s
    using that by (auto simp: radsec_server_def find_None_iff)
  moreover have "home_server_usable lib s" if "p \<in> set (px_pools c)" "s \<in> set (pc_servers p)" for p s
    using that each by (auto simp: HomeServerPoolConfig_validate_def check_each_iff intro: HomeServerConfig_validate_usable split: if_splits)
  ultimately show "\<forall>p \<in> set (px_pools c). \<forall>s \<in> set (pc_servers p).
      home_server_usable lib s \<and> (hsc_transport s = Radsec \<longrightarrow> hc_enabled (px_health_check c))" by blast
  show "\<forall>d. px_default_realm c = Some d \<longrightarrow> d = ''local'' \<or> (\<exists>p \<in> set (px_pools c). pc_name p = d)"
    using dflt by (auto simp: list_ex_iff split: if_splits)
qed

lemma Config_validate_parts:
  assumes "Config_validate lib c = Inr ()"
  shows "\<exists>ip. parse_ip (cl_ip lib) (cfg_listen_address c) = Some ip" "cfg_listen_port c \<noteq> 0"
    "check_accounting_port c = Inr ()" "cfg_secret c \<noteq> []" "\<forall>k \<in> set (cfg_clients c). check_client lib k = Inr ()"
    "\<forall>p. cfg_proxy c = Some p \<longrightarrow> ProxyConfig_validate lib p = Inr ()"
  using assms
  by (simp_all add: Config_validate_def res_bind_Inr_iff map_err_Inr_iff check_each_iff check_some_iff split: if_split_asm)

lemma from_file_validated:
  "from_file lib env parsed = Some (Inr c) \<Longrightarrow> Config_validate lib c = Inr ()"
  by (auto simp: from_file_def res_simps Let_def split: sum.splits Option.bind_splits)

lemma check_client_ok:
  assumes "check_client lib k = Inr ()"
  shows "client_secret k \<noteq> [] \<and> (\<exists>net. parse_network (cl_ip lib) (cl_from_ip lib) k = Inr net)"
  using assms by (auto simp: check_client_def res_simps split: if_splits)

lemma str_bytes_Nil_iff: "str_bytes s = [] \<longleftrightarrow> s = []"
  by (simp add: str_bytes_def)

text \<open>
  C21. A configuration that loads is safe to run: no peer can ever be given an empty shared secret, no
  client entry can fail to be matched, the two UDP sockets differ, and with the proxy enabled every
  realm has its pool and every home server is usable, RadSec ones under the watchdog.
\<close>

theorem loaded_config_safe:
  assumes "from_file lib env parsed = Some (Inr c)"
  shows "get_secret_for_client lib c ip \<noteq> []
   \<and> (\<forall>k \<in> set (cfg_clients c). \<exists>b. client_matches (cl_ip lib) (cl_from_ip lib) k ip = Inr b)
   \<and> (\<exists>a. socket_addr lib c = Inr a \<and> sock_port a \<noteq> 0 \<and> accounting_socket_addr lib c \<noteq> Inr (Some a))
   \<and> (\<forall>x. cfg_proxy c = Some x \<and> px_enabled x \<longrightarrow>
        (\<forall>r \<in> set (px_realms x). \<exists>p \<in> set (px_pools x). pc_name p = rc_pool r) \<and>
        (\<forall>p \<in> set (px_pools x). \<forall>s \<in> set (pc_servers p).
           home_server_usable lib s \<and> (hsc_transport s = Radsec \<longrightarrow> hc_enabled (px_health_check x))))"
proof (intro conjI ballI allI impI)
  note ok = Config_validate_parts [OF from_file_validated [OF assms]]
  show "get_secret_for_client lib c ip \<noteq> []"
    using ok(4,5) check_client_ok
    by (auto simp: get_secret_for_client_def find_client_def get_secret_def str_bytes_Nil_iff Let_def split: option.splits dest!: find_SomeD)
  show "\<exists>b. client_matches (cl_ip lib) (cl_from_ip lib) k ip = Inr b" if "k \<in> set (cfg_clients c)" for k
    using that ok(5) check_client_ok [of lib k] by (auto simp: client_matches_def)
  obtain i where i: "parse_ip (cl_ip lib) (cfg_listen_address c) = Some i" using ok(1) by blast
  have "accounting_socket_addr lib c \<noteq> Inr (Some (SocketAddr_new i (cfg_listen_port c)))"
    using ok(3) i
    by (cases "cfg_accounting_port c"; cases i)
      (auto simp: accounting_socket_addr_def check_accounting_port_def SocketAddr_new_def split: if_splits)
  then show "\<exists>a. socket_addr lib c = Inr a \<and> sock_port a \<noteq> 0 \<and> accounting_socket_addr lib c \<noteq> Inr (Some a)"
    using i ok(2) by (auto simp: socket_addr_def SocketAddr_new_def split: IpAddr.split)
next
  note ok = Config_validate_parts [OF from_file_validated [OF assms]]
  fix x r
  assume "cfg_proxy c = Some x \<and> px_enabled x" "r \<in> set (px_realms x)"
  then show "\<exists>p \<in> set (px_pools x). pc_name p = rc_pool r" using ok(6) ProxyConfig_validate_ok(2) by blast
next
  note ok = Config_validate_parts [OF from_file_validated [OF assms]]
  fix x p s
  assume "cfg_proxy c = Some x \<and> px_enabled x" "p \<in> set (px_pools x)" "s \<in> set (pc_servers p)"
  then have "home_server_usable lib s \<and> (hsc_transport s = Radsec \<longrightarrow> hc_enabled (px_health_check x))"
    using ok(6) ProxyConfig_validate_ok(3) by blast
  then show "home_server_usable lib s" "hsc_transport s = Radsec \<Longrightarrow> hc_enabled (px_health_check x)" by blast+
qed

definition sample_ip_lib :: "IpAddr ip_lib" where
  "sample_ip_lib = \<lparr>parse_ip = (\<lambda>s. if s = ''::'' then Some (IpV6 0) else if s = ''10.0.0.1'' then Some (IpV4 0x0A000001) else None),
     parse_net = (\<lambda>_. Inl ''invalid''), net_contains = (=)\<rparr>"

definition sample_config_lib :: "IpAddr config_lib" where
  "sample_config_lib = \<lparr>cl_ip = sample_ip_lib, cl_from_ip = id, cl_tls = True, cl_revocation = True, cl_trim = id,
     cl_socket_addr = (\<lambda>s. if s = ''10.0.0.9:1812'' then Inr (SocketAddrV4 0x0A000009 1812) else Inl ''invalid socket address syntax''),
     cl_server_name_ok = (\<lambda>_. True), cl_debug = id\<rparr>"

definition sample_client :: Client where
  "sample_client = \<lparr>client_address = ''10.0.0.1'', client_secret = ''${KEY}'', client_name = None, client_enabled = True,
     client_nas_identifier = None\<rparr>"

definition sample_proxy :: ProxyConfig where
  "sample_proxy = ProxyConfig_default\<lparr>px_enabled := True,
     px_pools := [\<lparr>pc_name = ''corp'', pc_strategy = RoundRobin, pc_servers = [HomeServerConfig_udp ''10.0.0.9:1812'' ''hop'']\<rparr>],
     px_default_realm := Some ''corp''\<rparr>"

lemma sample_proxy_validates: "ProxyConfig_validate sample_config_lib sample_proxy = Inr ()"
  by (simp add: ProxyConfig_validate_def sample_proxy_def ProxyConfig_default_def HealthCheckConfig_default_def
      HomeServerPoolConfig_validate_def HomeServerConfig_validate_def HomeServerConfig_udp_def HomeServerConfig_default_def
      sample_config_lib_def)

lemma sample_config_loads:
  "from_file sample_config_lib sample_env (Inr (Config_default\<lparr>cfg_clients := [sample_client], cfg_proxy := Some sample_proxy\<rparr>)) =
     Some (Inr (Config_default\<lparr>cfg_clients := [sample_client\<lparr>client_secret := ''s3cret''\<rparr>], cfg_proxy := Some sample_proxy\<rparr>))"
proof -
  have e1: "expand_env_vars sample_env ''testing123'' = Some (Inr ''testing123'')"
    by (subst expand_env_vars.simps) simp
  have e2: "expand_env_vars sample_env ''${KEY}'' = Some (Inr ''s3cret'')"
    by (subst expand_env_vars.simps, simp add: sample_env_def, subst expand_env_vars.simps, simp)
  have lib: "parse_ip (cl_ip sample_config_lib) ''::'' = Some (IpV6 0)" "parse_ip (cl_ip sample_config_lib) ''10.0.0.1'' = Some (IpV4 0x0A000001)"
    "parse_net (cl_ip sample_config_lib) s = Inl ''invalid''" for s
    by (simp_all add: sample_config_lib_def sample_ip_lib_def)
  show ?thesis
    by (simp add: from_file_def Config_default_def sample_client_def e1 e2 Config_validate_def check_accounting_port_def
        AccountingPort_default_def check_client_def parse_network_def check_some_def sample_proxy_validates lib Let_def)
qed

theorem loaded_config_safe_witness:
  "get_secret_for_client sample_config_lib
     (Config_default\<lparr>cfg_clients := [sample_client\<lparr>client_secret := ''s3cret''\<rparr>], cfg_proxy := Some sample_proxy\<rparr>) (IpV4 7) \<noteq> []"
  using loaded_config_safe [OF sample_config_loads, of "IpV4 7"] by blast

text \<open>
  A default realm that names a pool passes validation, but the router looks it up among the
  realms: unless a realm has the pool's name, every request without a matching realm is rejected
  and nothing is forwarded to the pool.
\<close>

theorem default_pool_never_used:
  assumes "ProxyConfig_validate lib c = Inr ()" "px_enabled c" "px_default_realm c = Some d" "d \<noteq> ''local''"
    and "map realm_name rs = map rc_name (px_realms c)" "d \<notin> rc_name ` set (px_realms c)"
  shows "(\<exists>p \<in> set (px_pools c). pc_name p = d)
   \<and> handle_default_realm rnd srv ps (Router_new rs (px_default_realm c)) = (Reject, ps)"
proof
  show "\<exists>p \<in> set (px_pools c). pc_name p = d" using ProxyConfig_validate_ok(4) [OF assms(1,2)] assms(3,4) by blast
  have "d \<notin> set (map realm_name rs)" using assms(5,6) by simp
  then have "default_loop rnd srv ps d rs = (Reject, ps)" by (induction rs) auto
  then show "handle_default_realm rnd srv ps (Router_new rs (px_default_realm c)) = (Reject, ps)"
    by (simp add: handle_default_realm_def Router_new_def assms(3,4))
qed

theorem default_pool_never_used_witness:
  "(\<exists>p. p \<in> set (px_pools sample_proxy) \<and> pc_name p = ''corp'')
   \<and> (\<forall>srv ps. handle_default_realm 0 srv ps (Router_new [] (px_default_realm sample_proxy)) = (Reject, ps))"
  using default_pool_never_used [OF sample_proxy_validates, of "''corp''" "[]" 0]
  by (auto simp: sample_proxy_def ProxyConfig_default_def)

end
