(* ===== verification/Server_Handlers.thy ===== *)
theory Server_Handlers
  imports Server_Messages Accounting_Sessions Server_Config
begin

text \<open>
  What the request pipeline of \<open>server.rs\<close> calls: the error and result types, the authentication
  handler with the default methods of its trait and the in-memory handler, the accounting handler
  as its trait's methods, and the audit log (\<open>audit.rs\<close>). A handler behind a trait object is a
  record of functions on its own state.
\<close>

section \<open>Errors and results\<close>

text \<open>The \<open>Io\<close> variant carries the text of the error.\<close>

datatype ServerError =
    ServerIo string
  | ServerPacket PacketError
  | ServerValidation string
  | AuthFailed
  | InvalidClient
  | DuplicateRequest
  | Discarded
  | RateLimited
  | ServerAccounting AccountingError

datatype AuthResult =
    AuthAccept "Attribute list" "bytes option"
  | AuthReject
  | AuthChallenge "string option" bytes "Attribute list"
  | AuthDiscard

definition AuthResult_accept :: AuthResult where
  "AuthResult_accept = AuthAccept [] None"

section \<open>Authentication handlers\<close>

record 'h AuthHandler =
  ah_authenticate_chap :: "'h \<Rightarrow> string \<Rightarrow> ChapResponse \<Rightarrow> ChapChallenge \<Rightarrow> bool \<times> 'h"
  ah_authenticate_request_from :: "'h \<Rightarrow> Packet \<Rightarrow> bytes \<Rightarrow> IpAddr \<Rightarrow> AuthResult \<times> 'h"
  ah_accept_attributes :: "'h \<Rightarrow> string \<Rightarrow> Attribute list"
  ah_reject_attributes :: "'h \<Rightarrow> string \<Rightarrow> Attribute list"
  ah_challenge_attributes :: "'h \<Rightarrow> string \<Rightarrow> Attribute list"

text \<open>The default methods of the trait, over the two methods a handler supplies.\<close>

definition default_authenticate_chap ::
    "(bytes \<Rightarrow> arr16) \<Rightarrow> ('h \<Rightarrow> string \<Rightarrow> string option) \<Rightarrow> 'h \<Rightarrow> string \<Rightarrow> ChapResponse \<Rightarrow> ChapChallenge \<Rightarrow> bool" where
  "default_authenticate_chap md5 get_user_password h username response chall =
     (case get_user_password h username of
        Some password \<Rightarrow> verify_chap_response md5 response password chall
      | None \<Rightarrow> False)"

definition default_authenticate_with_challenge ::
    "('h \<Rightarrow> string \<Rightarrow> string \<Rightarrow> bool) \<Rightarrow> 'h \<Rightarrow> string \<Rightarrow> string option \<Rightarrow> bytes option \<Rightarrow> AuthResult" where
  "default_authenticate_with_challenge authenticate h username password state =
     (case password of
        Some pwd \<Rightarrow> if authenticate h username pwd then AuthResult_accept else AuthReject
      | None \<Rightarrow> AuthReject)"

definition attribute_text :: "Packet \<Rightarrow> AttributeType \<Rightarrow> string option" where
  "attribute_text request t = Option.bind (find_attribute request (AttributeType_as_u8 t)) (\<lambda>attr. res_ok (as_string attr))"

definition default_authenticate_request ::
    "(bytes \<Rightarrow> arr16) \<Rightarrow> ('h \<Rightarrow> string \<Rightarrow> string \<Rightarrow> bool) \<Rightarrow> 'h \<Rightarrow> Packet \<Rightarrow> bytes \<Rightarrow> AuthResult" where
  "default_authenticate_request md5 authenticate h request secret =
     (let username = (case attribute_text request UserName of Some u \<Rightarrow> u | None \<Rightarrow> []);
          password = Option.bind (find_attribute request (AttributeType_as_u8 UserPassword)) (\<lambda>attr.
            res_ok (decrypt_user_password md5 (attr_value attr) secret (pkt_authenticator request)));
          state = map_option attr_value (find_attribute request (AttributeType_as_u8 State))
      in default_authenticate_with_challenge authenticate h username password state)"

definition default_reject_attributes :: "Attribute list" where
  "default_reject_attributes = (case Attribute_string (AttributeType_as_u8 ReplyMessage) ''Authentication failed'' of
     Inr a \<Rightarrow> [a] | Inl _ \<Rightarrow> [])"

record SimpleAuthHandler =
  sah_users :: "(string, string) fmap"

definition SimpleAuthHandler_new :: SimpleAuthHandler where
  "SimpleAuthHandler_new = \<lparr>sah_users = fmempty\<rparr>"

definition add_user :: "SimpleAuthHandler \<Rightarrow> string \<Rightarrow> string \<Rightarrow> SimpleAuthHandler" where
  "add_user h username password = h\<lparr>sah_users := fmupd username password (sah_users h)\<rparr>"

definition simple_authenticate :: "SimpleAuthHandler \<Rightarrow> string \<Rightarrow> string \<Rightarrow> bool" where
  "simple_authenticate h username password = (case fmlookup (sah_users h) username of Some p \<Rightarrow> p = password | None \<Rightarrow> False)"

definition simple_get_user_password :: "SimpleAuthHandler \<Rightarrow> string \<Rightarrow> string option" where
  "simple_get_user_password h username = fmlookup (sah_users h) username"

text \<open>The in-memory handler as the pipeline sees it.\<close>

definition simple_handler :: "(bytes \<Rightarrow> arr16) \<Rightarrow> SimpleAuthHandler AuthHandler" where
  "simple_handler md5 =
     \<lparr>ah_authenticate_chap = (\<lambda>h u r c. (default_authenticate_chap md5 simple_get_user_password h u r c, h)),
      ah_authenticate_request_from = (\<lambda>h request secret client. (default_authenticate_request md5 simple_authenticate h request secret, h)),
      ah_accept_attributes = (\<lambda>_ _. []), ah_reject_attributes = (\<lambda>_ _. default_reject_attributes),
      ah_challenge_attributes = (\<lambda>_ _. [])\<rparr>"

section \<open>Accounting handlers\<close>

text \<open>The methods the server calls; the clocks they read are part of the argument \<open>'t\<close>.\<close>

record ('t, 'a) AccountingHandler =
  ac_start :: "'t \<Rightarrow> 'a \<Rightarrow> string \<Rightarrow> string \<Rightarrow> IpAddr \<Rightarrow> Packet \<Rightarrow> (AccountingError + AccountingResult) \<times> 'a"
  ac_stop :: "'t \<Rightarrow> 'a \<Rightarrow> string \<Rightarrow> string \<Rightarrow> IpAddr \<Rightarrow> Packet \<Rightarrow> (AccountingError + AccountingResult) \<times> 'a"
  ac_interim_update :: "'t \<Rightarrow> 'a \<Rightarrow> string \<Rightarrow> string \<Rightarrow> IpAddr \<Rightarrow> Packet \<Rightarrow> (AccountingError + AccountingResult) \<times> 'a"
  ac_accounting_on :: "'t \<Rightarrow> 'a \<Rightarrow> IpAddr \<Rightarrow> Packet \<Rightarrow> (AccountingError + AccountingResult) \<times> 'a"
  ac_accounting_off :: "'t \<Rightarrow> 'a \<Rightarrow> IpAddr \<Rightarrow> Packet \<Rightarrow> (AccountingError + AccountingResult) \<times> 'a"

text \<open>The in-memory handler; a Start reads the clock three times, the others use the first reading.\<close>

definition simple_accounting :: "(u64 \<times> u64 \<times> u64, SimpleAccountingHandler) AccountingHandler" where
  "simple_accounting =
     \<lparr>ac_start = handle_start, ac_stop = (\<lambda>_. handle_stop), ac_interim_update = (\<lambda>now. handle_interim_update (fst now)),
      ac_accounting_on = (\<lambda>_. handle_accounting_on), ac_accounting_off = (\<lambda>_. handle_accounting_off)\<rparr>"

section \<open>The audit log\<close>

datatype AuditEventType =
    AuditAuthAttempt | AuditAuthSuccess | AuditAuthFailure | AuditRateLimitExceeded | AuditUnauthorizedClient
  | AuditDuplicateRequest | AuditServerStart | AuditServerStop

record AuditEntry =
  ae_timestamp :: u64
  ae_timestamp_iso :: string
  ae_event_type :: AuditEventType
  ae_username :: "string option"
  ae_client_ip :: "string option"
  ae_client_name :: "string option"
  ae_request_id :: "u8 option"
  ae_details :: "string option"
  ae_server_version :: string

text \<open>The clock, the formats of time and addresses, and the version of the build.\<close>

record audit_lib =
  al_now :: "AuditEventType \<Rightarrow> u64"
  al_iso :: "u64 \<Rightarrow> string"
  al_show_ip :: "IpAddr \<Rightarrow> string"
  al_version :: string

definition AuditEntry_new :: "audit_lib \<Rightarrow> AuditEventType \<Rightarrow> AuditEntry" where
  "AuditEntry_new al event_type =
     \<lparr>ae_timestamp = al_now al event_type, ae_timestamp_iso = al_iso al (al_now al event_type), ae_event_type = event_type,
      ae_username = None, ae_client_ip = None, ae_client_name = None, ae_request_id = None, ae_details = None,
      ae_server_version = al_version al\<rparr>"

definition with_username :: "string \<Rightarrow> AuditEntry \<Rightarrow> AuditEntry" where
  "with_username username e = e\<lparr>ae_username := Some username\<rparr>"

definition with_client_ip :: "audit_lib \<Rightarrow> IpAddr \<Rightarrow> AuditEntry \<Rightarrow> AuditEntry" where
  "with_client_ip al ip e = e\<lparr>ae_client_ip := Some (al_show_ip al ip)\<rparr>"

definition with_client_name :: "string \<Rightarrow> AuditEntry \<Rightarrow> AuditEntry" where
  "with_client_name name e = e\<lparr>ae_client_name := Some name\<rparr>"

definition with_request_id :: "u8 \<Rightarrow> AuditEntry \<Rightarrow> AuditEntry" where
  "with_request_id i e = e\<lparr>ae_request_id := Some i\<rparr>"

definition with_details :: "string \<Rightarrow> AuditEntry \<Rightarrow> AuditEntry" where
  "with_details details e = e\<lparr>ae_details := Some details\<rparr>"

datatype AuditSink = AuditFile | AuditStdout

record AuditLogger =
  lg_file_path :: "string option"
  lg_sink :: "AuditSink option"

text \<open>\<open>opens\<close> is the outcome of opening the file.\<close>

definition AuditLogger_new :: "(string \<Rightarrow> string option) \<Rightarrow> string option \<Rightarrow> string + AuditLogger" where
  "AuditLogger_new opens file_path =
     (case file_path of
        None \<Rightarrow> Inr \<lparr>lg_file_path = file_path, lg_sink = None\<rparr>
      | Some path \<Rightarrow>
          if path = ''stdout'' \<or> path = ''-'' then Inr \<lparr>lg_file_path = file_path, lg_sink = Some AuditStdout\<rparr>
          else case opens path of Some e \<Rightarrow> Inl e | None \<Rightarrow> Inr \<lparr>lg_file_path = file_path, lg_sink = Some AuditFile\<rparr>)"

text \<open>What reaches the sink is the list of entries; entries the sink fails to take are lost.\<close>

definition audit_log :: "(AuditEntry \<Rightarrow> bool) \<Rightarrow> AuditLogger \<Rightarrow> AuditEntry \<Rightarrow> AuditEntry list \<Rightarrow> AuditEntry list" where
  "audit_log written lg entry log =
     (case lg_sink lg of None \<Rightarrow> log | Some _ \<Rightarrow> if written entry then log @ [entry] else log)"

definition is_enabled :: "AuditLogger \<Rightarrow> bool" where
  "is_enabled lg \<longleftrightarrow> lg_sink lg \<noteq> None"

end
