(* ===== verification/Server_Pipeline.thy ===== *)
theory Server_Pipeline
  imports Server_Handlers Request_Cache Rate_Limiter Policy_Engine Proxy_Forwarding Validation
begin

text \<open>
  The request pipeline of the server (\<open>server.rs\<close>): from a datagram on a listener through rate
  limit, client check, validation, authentication of the packet, the duplicate cache and the
  handler of its code to the reply. It composes the models of all these components on one state.
  Each request is one step; the interleaving inside the cache and inside the accounting table is
  the subject of their own theories. Hash functions, random values, clocks, iteration orders and
  what the standard library renders are arguments.
\<close>

section \<open>Configuration and state\<close>

record ('r, 'n) server_lib =
  sl_md5 :: "bytes \<Rightarrow> arr16"
  sl_hmac :: "bytes \<Rightarrow> bytes \<Rightarrow> arr16"
  sl_sha256 :: "bytes \<Rightarrow> arr32"
  sl_config :: "'n config_lib"
  sl_is_match :: "'r \<Rightarrow> string \<Rightarrow> bool"
  sl_text :: text_lib
  sl_show_ipv6 :: "arr16 \<Rightarrow> string"
  sl_context_walk :: context_walk
  sl_entry_walk :: entry_walk
  sl_round :: "real \<Rightarrow> real"
  sl_net :: net
  sl_written :: "AuditEntry \<Rightarrow> bool"

text \<open>What one request draws from clocks and random numbers.\<close>

record 't request_env =
  rq_limit :: "instant \<times> instant"
  rq_now :: instant
  rq_audit :: audit_lib
  rq_pick :: nat
  rq_clock :: u64
  rq_sent :: instant
  rq_salt :: u16
  rq_acct :: 't

record ('r, 'h, 't, 'a) ServerConfig =
  sc_accounting_port :: AccountingPort
  sc_secret :: bytes
  sc_auth_handler :: "'h AuthHandler"
  sc_accounting_handler :: "('t, 'a) AccountingHandler option"
  sc_config :: "Config option"
  sc_audit_logger :: AuditLogger
  sc_router :: "'r Router option"
  sc_proxy_handler :: bool
  sc_policy :: "PolicyConfig option"

record ('h, 'a) ServerState =
  sv_auth :: 'h
  sv_acct :: 'a
  sv_cache :: RequestCache
  sv_limiter :: RateLimiter
  sv_proxy :: ProxyWorld
  sv_pools :: pools
  sv_audit :: "AuditEntry list"
  sv_replayed :: u64

text \<open>The settings \<open>from_config\<close> derives from the configuration file.\<close>

definition or_default :: "'a option \<Rightarrow> 'a \<Rightarrow> 'a" where
  "or_default x d = (case x of Some a \<Rightarrow> a | None \<Rightarrow> d)"

definition rate_limit_config :: "Config \<Rightarrow> RateLimitConfig" where
  "rate_limit_config c =
     \<lparr>per_client_rps = or_default (cfg_rate_limit_per_client_rps c) 100, per_client_burst = or_default (cfg_rate_limit_per_client_burst c) 200,
      global_rps = or_default (cfg_rate_limit_global_rps c) 1000, global_burst = or_default (cfg_rate_limit_global_burst c) 2000,
      max_concurrent_connections = or_default (cfg_max_concurrent_connections c) 100,
      max_bandwidth_bps = or_default (cfg_max_bandwidth_bps c) 1000000\<rparr>"

definition request_cache_of :: "Config \<Rightarrow> RequestCache" where
  "request_cache_of c =
     RequestCache_new (from_secs (or_default (cfg_request_cache_ttl c) 60)) (or_default (cfg_request_cache_max_entries c) 10000)"

text \<open>
  The constructors give the configuration together with the cache and the limiter it owns; \<open>now\<close> is
  the time of construction and \<open>opens\<close> the outcome of opening the audit log.
\<close>

definition ServerConfig_new ::
    "instant \<Rightarrow> bytes \<Rightarrow> 'h AuthHandler \<Rightarrow> ('r, 'h, 't, 'a) ServerConfig \<times> RequestCache \<times> RateLimiter" where
  "ServerConfig_new now secret auth_handler =
     (\<lparr>sc_accounting_port = Named Shared, sc_secret = secret, sc_auth_handler = auth_handler, sc_accounting_handler = None,
       sc_config = None, sc_audit_logger = \<lparr>lg_file_path = None, lg_sink = None\<rparr>, sc_router = None, sc_proxy_handler = False,
       sc_policy = None\<rparr>,
      RequestCache_new (from_secs 60) 10000, RateLimiter_new now RateLimitConfig_default)"

definition with_accounting_handler ::
    "('t, 'a) AccountingHandler \<Rightarrow> ('r, 'h, 't, 'a) ServerConfig \<Rightarrow> ('r, 'h, 't, 'a) ServerConfig" where
  "with_accounting_handler handler cfg = cfg\<lparr>sc_accounting_handler := Some handler\<rparr>"

definition with_policy :: "PolicyConfig \<Rightarrow> ('r, 'h, 't, 'a) ServerConfig \<Rightarrow> ('r, 'h, 't, 'a) ServerConfig" where
  "with_policy policy cfg = cfg\<lparr>sc_policy := Some policy\<rparr>"

definition ServerConfig_from_config ::
    "instant \<Rightarrow> (string \<Rightarrow> string option) \<Rightarrow> 'n config_lib \<Rightarrow> Config \<Rightarrow> 'h AuthHandler
      \<Rightarrow> ServerError + (SocketAddr \<times> ('r, 'h, 't, 'a) ServerConfig \<times> RequestCache \<times> RateLimiter)" where
  "ServerConfig_from_config now opens lib c auth_handler =
     res_bind (map_err (\<lambda>e. ServerIo (ConfigError_fmt e)) (socket_addr lib c)) (\<lambda>bind_addr.
     res_bind (map_err ServerIo (AuditLogger_new opens (cfg_audit_log_path c))) (\<lambda>audit_logger.
       Inr (bind_addr,
         \<lparr>sc_accounting_port = cfg_accounting_port c, sc_secret = str_bytes (cfg_secret c), sc_auth_handler = auth_handler,
          sc_accounting_handler = None, sc_config = Some c, sc_audit_logger = audit_logger, sc_router = None,
          sc_proxy_handler = False, sc_policy = None\<rparr>,
         request_cache_of c, RateLimiter_new now (rate_limit_config c))))"

definition server_secret_for_client :: "('r, 'n) server_lib \<Rightarrow> ('r, 'h, 't, 'a) ServerConfig \<Rightarrow> IpAddr \<Rightarrow> bytes" where
  "server_secret_for_client lib cfg ip =
     (case sc_config cfg of Some c \<Rightarrow> get_secret_for_client (sl_config lib) c ip | None \<Rightarrow> sc_secret cfg)"

definition is_client_authorized :: "('r, 'n) server_lib \<Rightarrow> ('r, 'h, 't, 'a) ServerConfig \<Rightarrow> IpAddr \<Rightarrow> bool" where
  "is_client_authorized lib cfg ip =
     (case sc_config cfg of
        Some c \<Rightarrow> if cfg_clients c = [] then True else find_client (sl_config lib) c ip \<noteq> None
      | None \<Rightarrow> True)"

definition client_of :: "('r, 'n) server_lib \<Rightarrow> ('r, 'h, 't, 'a) ServerConfig \<Rightarrow> IpAddr \<Rightarrow> Client option" where
  "client_of lib cfg ip = Option.bind (sc_config cfg) (\<lambda>c. find_client (sl_config lib) c ip)"

definition log_event ::
    "('r, 'n) server_lib \<Rightarrow> ('r, 'h, 't, 'a) ServerConfig \<Rightarrow> AuditEntry \<Rightarrow> ('h, 'a) ServerState \<Rightarrow> ('h, 'a) ServerState" where
  "log_event lib cfg entry s = s\<lparr>sv_audit := audit_log (sl_written lib) (sc_audit_logger cfg) entry (sv_audit s)\<rparr>"

definition auth_event :: "('r, 'n) server_lib \<Rightarrow> 't request_env \<Rightarrow> ('r, 'h, 't, 'a) ServerConfig \<Rightarrow> AuditEventType \<Rightarrow> string \<Rightarrow> IpAddr
    \<Rightarrow> Packet \<Rightarrow> AuditEntry" where
  "auth_event lib env cfg event username ip request =
     with_client_name (or_default (Option.bind (client_of lib cfg ip) client_name) ''unknown'')
       (with_request_id (pkt_identifier request) (with_client_ip (rq_audit env) ip
         (with_username username (AuditEntry_new (rq_audit env) event))))"

section \<open>Checks on the packet\<close>

definition verify_access_request_message_authenticator :: "(bytes \<Rightarrow> bytes \<Rightarrow> arr16) \<Rightarrow> Packet \<Rightarrow> bytes \<Rightarrow> ServerError + unit" where
  "verify_access_request_message_authenticator hmac_md5 request secret =
     res_bind (map_err ServerPacket (check_message_authenticator hmac_md5 request (pkt_authenticator request) secret)) (\<lambda>c.
       case c of
         Valid \<Rightarrow> Inr ()
       | Invalid \<Rightarrow> Inl (ServerValidation ''Invalid Message-Authenticator'')
       | Absent \<Rightarrow> if find_attribute request (AttributeType_as_u8 EapMessage) \<noteq> None
           then Inl (ServerValidation ''EAP Access-Request missing required Message-Authenticator'') else Inr ())"

text \<open>The end of every reply: Proxy-State, Message-Authenticator, Response Authenticator.\<close>

definition zero_auth :: arr16 where
  "zero_auth = arr16_of (replicate 16 0)"

definition seal_reply ::
    "(bytes \<Rightarrow> arr16) \<Rightarrow> (bytes \<Rightarrow> bytes \<Rightarrow> arr16) \<Rightarrow> Packet \<Rightarrow> bytes \<Rightarrow> Packet \<Rightarrow> panic + (ServerError + Packet)" where
  "seal_reply md5 hmac_md5 request secret response =
     (case add_message_authenticator_if_eap hmac_md5 (copy_proxy_state request response) (pkt_authenticator request) secret of
        Inl _ \<Rightarrow> Inr (Inl AuthFailed)
      | Inr response \<Rightarrow>
          res_bind (calculate_response_authenticator md5 response (pkt_authenticator request) secret) (\<lambda>response_auth.
            Inr (Inr (response\<lparr>pkt_authenticator := response_auth\<rparr>))))"

definition add_attributes :: "Packet \<Rightarrow> Attribute list \<Rightarrow> Packet" where
  "add_attributes p as = foldl add_attribute p as"

definition add_if_ok :: "PacketError + Attribute \<Rightarrow> Packet \<Rightarrow> Packet" where
  "add_if_ok a p = (case a of Inr a \<Rightarrow> add_attribute p a | Inl _ \<Rightarrow> p)"

definition handle_status_server ::
    "(bytes \<Rightarrow> arr16) \<Rightarrow> (bytes \<Rightarrow> bytes \<Rightarrow> arr16) \<Rightarrow> Packet \<Rightarrow> bytes \<Rightarrow> PortRole \<Rightarrow> panic + (ServerError + Packet option)" where
  "handle_status_server md5 hmac_md5 request secret role =
     (case check_message_authenticator hmac_md5 request (pkt_authenticator request) secret of
        Inl e \<Rightarrow> Inr (Inl (ServerPacket e))
      | Inr Valid \<Rightarrow>
          let response = Packet_new (status_server_reply_code role) (pkt_identifier request) zero_auth;
              response = copy_proxy_state request response
          in (case add_message_authenticator hmac_md5 response (pkt_authenticator request) secret of
                Inl e \<Rightarrow> Inr (Inl (ServerPacket e))
              | Inr response \<Rightarrow>
                  res_bind (calculate_response_authenticator md5 response (pkt_authenticator request) secret) (\<lambda>response_auth.
                    Inr (Inr (Some (response\<lparr>pkt_authenticator := response_auth\<rparr>)))))
      | Inr _ \<Rightarrow> Inr (Inr None))"


section \<open>Access-Request\<close>

type_synonym ('x, 'h, 'a) outcome = "panic + ((ServerError + 'x) \<times> ('h, 'a) ServerState)"

text \<open>The request a realm with stripping forwards.\<close>

definition with_stripped_username :: "string option \<Rightarrow> Packet \<Rightarrow> ServerError + Packet" where
  "with_stripped_username stripped request =
     (case stripped of
        None \<Rightarrow> Inr request
      | Some name \<Rightarrow>
          res_bind (map_err (\<lambda>_. AuthFailed) (Attribute_string (AttributeType_as_u8 UserName) name)) (\<lambda>a.
            Inr (add_attribute
              (request\<lparr>pkt_attributes := filter (\<lambda>a. attr_type a \<noteq> AttributeType_as_u8 UserName) (pkt_attributes request)\<rparr>) a)))"

definition forwarded_text :: string where
  "forwarded_text = ''Request forwarded to proxy - response will be sent asynchronously''"

text \<open>The routing step. A forwarded request ends with an error too: its reply is sent later.\<close>

definition route_access_request ::
    "('r, 'n) server_lib \<Rightarrow> 't request_env \<Rightarrow> ('r, 'h, 't, 'a) ServerConfig \<Rightarrow> Packet \<Rightarrow> SocketAddr \<Rightarrow> bytes
      \<Rightarrow> ('h, 'a) ServerState \<Rightarrow> (ServerError + unit) \<times> ('h, 'a) ServerState" where
  "route_access_request lib env cfg request source secret s =
     (case (sc_router cfg, sc_proxy_handler cfg) of
        (Some router, True) \<Rightarrow>
          let (decision, ps) = route_request (sl_is_match lib) (rq_pick env) (pw_servers (sv_proxy s)) (sv_pools s) router request;
              s = s\<lparr>sv_pools := ps\<rparr>
          in (case decision of
                Proxy r stripped \<Rightarrow>
                  (case with_stripped_username stripped request of
                     Inl e \<Rightarrow> (Inl e, s)
                   | Inr forwarded_request \<Rightarrow>
                       let (result, w) = forward_request (sl_md5 lib) (sl_hmac lib) (sl_net lib) (rq_clock env) (rq_sent env)
                             forwarded_request source r secret (sv_proxy s);
                           s = s\<lparr>sv_proxy := w\<rparr>
                       in (case result of
                             Inl e \<Rightarrow> (Inl (ServerIo (''Proxy forwarding failed: '' @ ProxyError_fmt e)), s)
                           | Inr _ \<Rightarrow> (Inl (ServerIo forwarded_text), s)))
              | Reject \<Rightarrow> (Inl AuthFailed, s)
              | Local \<Rightarrow> (Inr (), s))
      | _ \<Rightarrow> (Inr (), s))"

definition check_nas :: "('r, 'n) server_lib \<Rightarrow> ('r, 'h, 't, 'a) ServerConfig \<Rightarrow> Packet \<Rightarrow> IpAddr \<Rightarrow> ServerError + unit" where
  "check_nas lib cfg request ip =
     (let has_nas_ip = find_attribute request (AttributeType_as_u8 NasIpAddress) \<noteq> None;
          nas_id = attribute_text request NasIdentifier
      in if \<not> has_nas_ip \<and> nas_id = None
         then Inl (ServerValidation ''Access-Request MUST contain either NAS-IP-Address or NAS-Identifier (RFC 2865)'')
         else (case Option.bind (client_of lib cfg ip) client_nas_identifier of
                 None \<Rightarrow> Inr ()
               | Some expected \<Rightarrow>
                   (case nas_id of
                      Some actual \<Rightarrow> if actual \<noteq> expected
                        then Inl (ServerValidation (''NAS-Identifier mismatch: expected '' @ quoted expected @ '', got '' @ quoted actual))
                        else Inr ()
                    | None \<Rightarrow> Inl (ServerValidation (''Missing required NAS-Identifier: expected '' @ quoted expected)))))"

definition authenticate_access ::
    "('r, 'h, 't, 'a) ServerConfig \<Rightarrow> Packet \<Rightarrow> IpAddr \<Rightarrow> bytes \<Rightarrow> string \<Rightarrow> 'h \<Rightarrow> (ServerError + AuthResult) \<times> 'h" where
  "authenticate_access cfg request ip secret username h =
     (case find_attribute request (AttributeType_as_u8 ChapPassword) of
        Some attr \<Rightarrow>
          (case ChapResponse_from_bytes (attr_value attr) of
             Inl _ \<Rightarrow> (Inl AuthFailed, h)
           | Inr response \<Rightarrow>
               let chall = (case find_attribute request (AttributeType_as_u8 ChapChallenge) of
                     Some c \<Rightarrow> ChapChallenge_new (attr_value c)
                   | None \<Rightarrow> from_authenticator (pkt_authenticator request))
               in (case ah_authenticate_chap (sc_auth_handler cfg) h username response chall of
                     (ok, h) \<Rightarrow> (Inr (if ok then AuthResult_accept else AuthReject), h)))
      | None \<Rightarrow> (case ah_authenticate_request_from (sc_auth_handler cfg) h request secret ip of (r, h) \<Rightarrow> (Inr r, h)))"

text \<open>The first two octets of the request's first EAP-Message.\<close>

definition eap_head :: "Packet \<Rightarrow> (u8 \<times> u8) option" where
  "eap_head request = Option.bind (find_attribute request (AttributeType_as_u8 EapMessage)) (\<lambda>a.
     case attr_value a of c # i # _ \<Rightarrow> Some (c, i) | _ \<Rightarrow> None)"

definition eap_failure_attribute :: "u8 \<Rightarrow> PacketError + Attribute" where
  "eap_failure_attribute i = Attribute_new (AttributeType_as_u8 EapMessage) (EapPacket_to_bytes (EapPacket_failure i))"

definition add_reply_message :: "string option \<Rightarrow> Packet \<Rightarrow> Packet" where
  "add_reply_message msg response =
     (case msg of Some m \<Rightarrow> add_if_ok (Attribute_string (AttributeType_as_u8 ReplyMessage) m) response | None \<Rightarrow> response)"

definition policy_decision :: "('r, 'n) server_lib \<Rightarrow> ('r, 'h, 't, 'a) ServerConfig \<Rightarrow> Packet \<Rightarrow> string \<Rightarrow> Decision option" where
  "policy_decision lib cfg request username =
     (case sc_policy cfg of
        None \<Rightarrow> None
      | Some p \<Rightarrow> if policy_sets p = [] then None
          else Some (evaluate (sl_text lib) (cl_ip (sl_config lib)) (sl_context_walk lib) p
            (request_context (sl_show_ipv6 lib) request username)))"

definition denied_reply :: "Packet \<Rightarrow> Decision \<Rightarrow> Packet" where
  "denied_reply request d =
     (let response = Packet_new AccessReject (pkt_identifier request) zero_auth;
          response = (case eap_head request of Some (_, i) \<Rightarrow> add_if_ok (eap_failure_attribute i) response | None \<Rightarrow> response)
      in add_reply_message (dec_reply_message d) response)"

definition granted_reply :: "Decision \<Rightarrow> Packet \<Rightarrow> Packet" where
  "granted_reply d response =
     add_reply_message (dec_reply_message d)
       (foldl (\<lambda>response ra. case reply_attribute ra of Some a \<Rightarrow> add_policy_reply_attribute response a | None \<Rightarrow> response)
          response (dec_attributes d))"

definition accept_reply ::
    "('r, 'n) server_lib \<Rightarrow> 't request_env \<Rightarrow> ('r, 'h, 't, 'a) ServerConfig \<Rightarrow> Packet \<Rightarrow> bytes \<Rightarrow> string \<Rightarrow> Attribute list
      \<Rightarrow> bytes option \<Rightarrow> 'h \<Rightarrow> ServerError + Packet" where
  "accept_reply lib env cfg request secret username extra_attrs msk h =
     (let response = Packet_new AccessAccept (pkt_identifier request) zero_auth;
          response = add_attributes response (ah_accept_attributes (sc_auth_handler cfg) h username);
          response = add_attributes response extra_attrs
      in (case msk of
            None \<Rightarrow> Inr response
          | Some msk \<Rightarrow>
              res_bind (map_err (\<lambda>_. AuthFailed)
                (res_bind (from_msk msk) (\<lambda>keys. to_attributes (sl_md5 lib) (rq_salt env) keys secret (pkt_authenticator request)))) (\<lambda>attrs.
                Inr (add_attributes response attrs))))"

definition challenge_reply :: "('r, 'h, 't, 'a) ServerConfig \<Rightarrow> Packet \<Rightarrow> string \<Rightarrow> string option \<Rightarrow> bytes \<Rightarrow> Attribute list \<Rightarrow> 'h
    \<Rightarrow> ServerError + Packet" where
  "challenge_reply cfg request username message state attributes h =
     res_bind (map_err (\<lambda>_. AuthFailed) (Attribute_new (AttributeType_as_u8 State) state)) (\<lambda>st.
       let response = add_attribute (Packet_new AccessChallenge (pkt_identifier request) zero_auth) st
       in res_bind (case message of
              None \<Rightarrow> Inr response
            | Some m \<Rightarrow> res_bind (map_err (\<lambda>_. AuthFailed) (Attribute_string (AttributeType_as_u8 ReplyMessage) m))
                (\<lambda>a. Inr (add_attribute response a))) (\<lambda>response.
          Inr (add_attributes (add_attributes response attributes) (ah_challenge_attributes (sc_auth_handler cfg) h username))))"

definition reject_reply :: "('r, 'h, 't, 'a) ServerConfig \<Rightarrow> Packet \<Rightarrow> string \<Rightarrow> 'h \<Rightarrow> Packet" where
  "reject_reply cfg request username h =
     (let response = Packet_new AccessReject (pkt_identifier request) zero_auth;
          response = (case eap_head request of
              None \<Rightarrow> response
            | Some (c, i) \<Rightarrow>
                let eap = (if c = EapCode_as_u8 EapRequest then EapPacket_new EapResponse i (Some EapNak) [0] else EapPacket_failure i)
                in add_if_ok (Attribute_new (AttributeType_as_u8 EapMessage) (EapPacket_to_bytes eap)) response)
      in add_attributes response (ah_reject_attributes (sc_auth_handler cfg) h username))"


text \<open>The reply to each result of the authentication handler, whose state is \<open>h\<close> by then.\<close>

definition conclude_access ::
    "('r, 'n) server_lib \<Rightarrow> 't request_env \<Rightarrow> ('r, 'h, 't, 'a) ServerConfig \<Rightarrow> Packet \<Rightarrow> IpAddr \<Rightarrow> bytes \<Rightarrow> string \<Rightarrow> AuthResult
      \<Rightarrow> ('h, 'a) ServerState \<Rightarrow> (Packet, 'h, 'a) outcome" where
  "conclude_access lib env cfg request ip secret username result s =
     (let h = sv_auth s;
          event = (\<lambda>t. auth_event lib env cfg t username ip request);
          seal = (\<lambda>s response. res_bind (seal_reply (sl_md5 lib) (sl_hmac lib) request secret response) (\<lambda>r. Inr (r, s)))
      in case result of
           AuthAccept extra_attrs msk \<Rightarrow>
             (let s = log_event lib cfg (event AuditAuthSuccess) s
              in case accept_reply lib env cfg request secret username extra_attrs msk h of
                   Inl e \<Rightarrow> Inr (Inl e, s)
                 | Inr response \<Rightarrow>
                     (case policy_decision lib cfg request username of
                        None \<Rightarrow> seal s response
                      | Some d \<Rightarrow>
                          (case dec_effect d of
                             EffectReject \<Rightarrow>
                               seal (log_event lib cfg (with_details (''authorization policy denied: '' @ dec_reason d)
                                   (event AuditAuthFailure)) s)
                                 (denied_reply request d)
                           | EffectAccept \<Rightarrow> seal s (granted_reply d response))))
         | AuthChallenge message state attributes \<Rightarrow>
             (case challenge_reply cfg request username message state attributes h of
                Inl e \<Rightarrow> Inr (Inl e, s)
              | Inr response \<Rightarrow> seal s response)
         | AuthDiscard \<Rightarrow> Inr (Inl Discarded, s)
         | AuthReject \<Rightarrow>
             seal (log_event lib cfg (with_details ''Invalid credentials'' (event AuditAuthFailure)) s)
               (reject_reply cfg request username h))"

definition handle_access_request ::
    "('r, 'n) server_lib \<Rightarrow> 't request_env \<Rightarrow> ('r, 'h, 't, 'a) ServerConfig \<Rightarrow> Packet \<Rightarrow> SocketAddr \<Rightarrow> bytes
      \<Rightarrow> ('h, 'a) ServerState \<Rightarrow> (Packet, 'h, 'a) outcome" where
  "handle_access_request lib env cfg request source secret s =
     (let ip = sock_ip source
      in case route_access_request lib env cfg request source secret s of
           (Inl e, s) \<Rightarrow> Inr (Inl e, s)
         | (Inr _, s) \<Rightarrow>
           (case attribute_text request UserName of
              None \<Rightarrow> Inr (Inl AuthFailed, s)
            | Some username \<Rightarrow>
              (case check_nas lib cfg request ip of
                 Inl e \<Rightarrow> Inr (Inl e, s)
               | Inr _ \<Rightarrow>
                 (let s = log_event lib cfg (auth_event lib env cfg AuditAuthAttempt username ip request) s
                  in case authenticate_access cfg request ip secret username (sv_auth s) of
                       (Inl e, h) \<Rightarrow> Inr (Inl e, s\<lparr>sv_auth := h\<rparr>)
                     | (Inr result, h) \<Rightarrow> conclude_access lib env cfg request ip secret username result (s\<lparr>sv_auth := h\<rparr>)))))"

section \<open>Accounting-Request\<close>

definition parse_status_type :: "Packet \<Rightarrow> ServerError + AcctStatusType" where
  "parse_status_type request =
     res_bind (ok_or (find_attribute request (AttributeType_as_u8 AttributeType.AcctStatusType))
         (ServerValidation ''Missing Acct-Status-Type attribute'')) (\<lambda>attr.
       if length (attr_value attr) < 4 then Inl (ServerValidation ''Invalid Acct-Status-Type attribute'')
       else let v = u32_from_be_bytes (attr_value attr ! 0) (attr_value attr ! 1) (attr_value attr ! 2) (attr_value attr ! 3)
            in ok_or (AcctStatusType_from_u32 v) (ServerValidation (''Invalid Acct-Status-Type: '' @ show_nat (unat v))))"

definition account ::
    "('t, 'a) AccountingHandler \<Rightarrow> 't \<Rightarrow> AcctStatusType \<Rightarrow> Packet \<Rightarrow> IpAddr \<Rightarrow> 'a \<Rightarrow> (ServerError + AccountingResult) \<times> 'a" where
  "account handler now status request ip a =
     (if is_session_status status then
        (case attribute_text request AcctSessionId of
           None \<Rightarrow> (Inl (ServerValidation ''Missing Acct-Session-Id attribute''), a)
         | Some sid \<Rightarrow>
           (case attribute_text request UserName of
              None \<Rightarrow> (Inl (ServerValidation ''Missing User-Name attribute''), a)
            | Some username \<Rightarrow>
              (case (case status of
                       StatusStart \<Rightarrow> ac_start handler now a sid username ip request
                     | StatusStop \<Rightarrow> ac_stop handler now a sid username ip request
                     | _ \<Rightarrow> ac_interim_update handler now a sid username ip request) of
                 (r, a) \<Rightarrow> (map_err ServerAccounting r, a))))
      else
        (case (case status of
                 StatusAccountingOn \<Rightarrow> ac_accounting_on handler now a ip request
               | _ \<Rightarrow> ac_accounting_off handler now a ip request) of
           (r, a) \<Rightarrow> (map_err ServerAccounting r, a)))"

definition handle_accounting_request ::
    "('r, 'n) server_lib \<Rightarrow> 't request_env \<Rightarrow> ('r, 'h, 't, 'a) ServerConfig \<Rightarrow> Packet \<Rightarrow> IpAddr \<Rightarrow> bytes
      \<Rightarrow> ('h, 'a) ServerState \<Rightarrow> (Packet, 'h, 'a) outcome" where
  "handle_accounting_request lib env cfg request ip secret s =
     (case sc_accounting_handler cfg of
        None \<Rightarrow> Inr (Inl (ServerValidation ''Accounting not enabled''), s)
      | Some handler \<Rightarrow>
        (case parse_status_type request of
           Inl e \<Rightarrow> Inr (Inl e, s)
         | Inr status \<Rightarrow>
           (case account handler (rq_acct env) status request ip (sv_acct s) of
              (Inl e, a) \<Rightarrow> Inr (Inl e, s\<lparr>sv_acct := a\<rparr>)
            | (Inr _, a) \<Rightarrow>
                let response = copy_proxy_state request (Packet_new AccountingResponse (pkt_identifier request) zero_auth)
                in res_bind (calculate_response_authenticator (sl_md5 lib) response (pkt_authenticator request) secret) (\<lambda>response_auth.
                     Inr (Inr (response\<lparr>pkt_authenticator := response_auth\<rparr>), s\<lparr>sv_acct := a\<rparr>)))))"

section \<open>The pipeline\<close>

definition validation_mode :: "('r, 'h, 't, 'a) ServerConfig \<Rightarrow> ValidationMode" where
  "validation_mode cfg = (if or_default (map_option cfg_strict_rfc_compliance (sc_config cfg)) False then Strict else Lenient)"

text \<open>
  Authentication of the packet itself. The value says whether to go on, with the reply to a
  Status-Server where the packet is one.
\<close>

definition authenticate_packet ::
    "('r, 'n) server_lib \<Rightarrow> Packet \<Rightarrow> bytes \<Rightarrow> PortRole \<Rightarrow> panic + (ServerError + Packet option option)" where
  "authenticate_packet lib request secret role =
     (case pkt_code request of
        AccessRequest \<Rightarrow>
          Inr (res_bind (verify_access_request_message_authenticator (sl_hmac lib) request secret) (\<lambda>_. Inr (Some None)))
      | StatusServer \<Rightarrow>
          res_bind (handle_status_server (sl_md5 lib) (sl_hmac lib) request secret role) (\<lambda>r.
            Inr (res_bind r (\<lambda>reply. Inr (map_option Some reply))))
      | AccountingRequest \<Rightarrow>
          res_bind (verify_accounting_request_authenticator (sl_md5 lib) request secret) (\<lambda>ok.
            Inr (if ok then Inr (Some None) else Inl (ServerValidation ''Invalid Request Authenticator'')))
      | _ \<Rightarrow> Inr (Inr (Some None)))"

definition handle_code ::
    "('r, 'n) server_lib \<Rightarrow> 't request_env \<Rightarrow> ('r, 'h, 't, 'a) ServerConfig \<Rightarrow> Packet \<Rightarrow> SocketAddr \<Rightarrow> bytes \<Rightarrow> Packet option
      \<Rightarrow> ('h, 'a) ServerState \<Rightarrow> (Packet option, 'h, 'a) outcome" where
  "handle_code lib env cfg request source secret status_reply s =
     (case pkt_code request of
        AccessRequest \<Rightarrow>
          res_bind (handle_access_request lib env cfg request source secret s) (\<lambda>(r, s).
            Inr (case r of Inr response \<Rightarrow> Inr (Some response) | Inl e \<Rightarrow> if e = Discarded then Inr None else Inl e, s))
      | AccountingRequest \<Rightarrow>
          res_bind (handle_accounting_request lib env cfg request (sock_ip source) secret s) (\<lambda>(r, s).
            Inr (res_bind r (\<lambda>response. Inr (Some response)), s))
      | StatusServer \<Rightarrow> Inr (Inr status_reply, s)
      | _ \<Rightarrow> Inr (Inr None, s))"


text \<open>From the duplicate check on.\<close>

definition answer_request ::
    "('r, 'n) server_lib \<Rightarrow> 't request_env \<Rightarrow> ('r, 'h, 't, 'a) ServerConfig \<Rightarrow> bytes \<Rightarrow> Packet \<Rightarrow> SocketAddr \<Rightarrow> bytes \<Rightarrow> Packet option
      \<Rightarrow> ('h, 'a) ServerState \<Rightarrow> (bytes option, 'h, 'a) outcome" where
  "answer_request lib env cfg data request source secret status_reply s =
     (let ip = sock_ip source;
          fp = RequestFingerprint_new ip (pkt_identifier request) (pkt_authenticator request);
          digest = request_digest (sl_sha256 lib) secret data;
          (admission, c) = admit (sl_entry_walk lib) (rq_now env) (sv_cache s) fp source digest;
          s = s\<lparr>sv_cache := c\<rparr>;
          refused = Inr (Inl DuplicateRequest,
            log_event lib cfg (with_request_id (pkt_identifier request) (with_client_ip (rq_audit env) ip
              (AuditEntry_new (rq_audit env) AuditDuplicateRequest))) s)
      in case admission of
           Replay reply \<Rightarrow>
             if pkt_code request = AccessRequest
             then Inr (Inr (Some reply), s\<lparr>sv_replayed := sv_replayed s + 1\<rparr>) else refused
         | InProgress \<Rightarrow> refused
         | Conflict \<Rightarrow> refused
         | New \<Rightarrow>
             res_bind (handle_code lib env cfg request source secret status_reply s) (\<lambda>(r, s).
               case r of
                 Inl e \<Rightarrow> Inr (Inl e, s)
               | Inr None \<Rightarrow> Inr (Inr None, s)
               | Inr (Some response) \<Rightarrow>
                 (case Packet_encode response of
                    Inl e \<Rightarrow> Inr (Inl (ServerPacket e), s)
                  | Inr response_data \<Rightarrow>
                      Inr (Inr (Some response_data),
                        if pkt_code request = AccessRequest
                        then s\<lparr>sv_cache := store_reply (sv_cache s) fp digest response_data\<rparr> else s))))"

definition process_request ::
    "('r, 'n) server_lib \<Rightarrow> 't request_env \<Rightarrow> ('r, 'h, 't, 'a) ServerConfig \<Rightarrow> bytes \<Rightarrow> SocketAddr \<Rightarrow> bytes \<Rightarrow> PortRole
      \<Rightarrow> ('h, 'a) ServerState \<Rightarrow> (bytes option, 'h, 'a) outcome" where
  "process_request lib env cfg data source secret role s =
     (case Packet_decode data of
        Inl e \<Rightarrow> Inr (Inl (ServerPacket e), s)
      | Inr request \<Rightarrow>
        (case validate_packet request (validation_mode cfg) of
           Inl e \<Rightarrow> Inr (Inl (ServerValidation (ValidationError_fmt e)), s)
         | Inr _ \<Rightarrow>
           if \<not> admits role (pkt_code request) (accepts_accounting_on_auth_socket (sc_accounting_port cfg)) then Inr (Inr None, s)
           else res_bind (authenticate_packet lib request secret role) (\<lambda>checked.
             case checked of
               Inl e \<Rightarrow> Inr (Inl e, s)
             | Inr None \<Rightarrow> Inr (Inr None, s)
             | Inr (Some status_reply) \<Rightarrow> answer_request lib env cfg data request source secret status_reply s)))"

text \<open>
  One datagram on a listener. \<open>send\<close> is the outcome of sending a reply; the list holds what was
  sent and where to.
\<close>

definition request_id_of :: "bytes \<Rightarrow> u8" where
  "request_id_of data = (if length data \<ge> 2 then data ! 1 else 0)"

definition handle_request ::
    "(bytes \<Rightarrow> SocketAddr \<Rightarrow> string option) \<Rightarrow> ('r, 'n) server_lib \<Rightarrow> 't request_env \<Rightarrow> ('r, 'h, 't, 'a) ServerConfig \<Rightarrow> bytes
      \<Rightarrow> SocketAddr \<Rightarrow> PortRole \<Rightarrow> ('h, 'a) ServerState \<Rightarrow> ((bytes \<times> SocketAddr) list, 'h, 'a) outcome" where
  "handle_request send lib env cfg data addr role s =
     (let addr = SocketAddr_new (to_canonical (sock_ip addr)) (sock_port addr);
          ip = sock_ip addr;
          event = (\<lambda>t. with_request_id (request_id_of data) (with_client_ip (rq_audit env) ip (AuditEntry_new (rq_audit env) t)));
          (ok, l) = check_rate_limit (sl_round lib) (rq_limit env) (sv_limiter s) ip;
          s = s\<lparr>sv_limiter := l\<rparr>
      in if \<not> ok then Inr (Inl RateLimited, log_event lib cfg (event AuditRateLimitExceeded) s)
         else if \<not> is_client_authorized lib cfg ip then Inr (Inl InvalidClient, log_event lib cfg (event AuditUnauthorizedClient) s)
         else res_bind (process_request lib env cfg data addr (server_secret_for_client lib cfg ip) role s) (\<lambda>(r, s).
           case r of
             Inl e \<Rightarrow> Inr (Inl e, s)
           | Inr None \<Rightarrow> Inr (Inr [], s)
           | Inr (Some response_data) \<Rightarrow>
               (case send response_data addr of
                  Some e \<Rightarrow> Inr (Inl (ServerIo e), s)
                | None \<Rightarrow> Inr (Inr [(response_data, addr)], s))))"

end
