(* ===== verification/Server_Correctness.thy ===== *)
theory Server_Correctness
  imports Server_Pipeline Proxy_Health
begin

text \<open>
  What the request pipeline guarantees: replies are authentic, requests that fail authentication
  leave no trace, retransmissions get the same octets, the server's Status-Server replies satisfy
  the health checks of a proxy, and credentials decide who is accepted.
\<close>

section \<open>Replies before they are sealed\<close>

definition clean :: "Attribute list \<Rightarrow> bool" where
  "clean as \<longleftrightarrow> (\<forall>a \<in> set as. attribute_ok a \<and> attr_type a \<noteq> MA_TYPE \<and> attr_type a \<noteq> AttributeType_as_u8 ProxyState)"

fun clean_result :: "AuthResult \<Rightarrow> bool" where
  "clean_result (AuthAccept as _) = clean as"
| "clean_result (AuthChallenge _ _ as) = clean as"
| "clean_result _ = True"

text \<open>
  What the pipeline relies on in an authentication handler: its attributes fit the wire format and
  leave Message-Authenticator and Proxy-State to the server.
\<close>

definition handler_ok :: "'h AuthHandler \<Rightarrow> bool" where
  "handler_ok H \<longleftrightarrow>
     (\<forall>h u. clean (ah_accept_attributes H h u) \<and> clean (ah_reject_attributes H h u) \<and> clean (ah_challenge_attributes H h u)) \<and>
     (\<forall>h p secret ip. clean_result (fst (ah_authenticate_request_from H h p secret ip)))"

definition draft :: "Packet \<Rightarrow> Packet \<Rightarrow> bool" where
  "draft request p \<longleftrightarrow> pkt_identifier p = pkt_identifier request \<and> clean (pkt_attributes p)"

lemma clean_simps [simp]:
  "clean []"
  "clean (as @ bs) \<longleftrightarrow> clean as \<and> clean bs"
  "clean (a # as) \<longleftrightarrow> attribute_ok a \<and> attr_type a \<noteq> MA_TYPE \<and> attr_type a \<noteq> AttributeType_as_u8 ProxyState \<and> clean as"
  by (auto simp: clean_def)

lemma add_attributes_fields [simp]:
  "pkt_code (add_attributes p as) = pkt_code p" "pkt_identifier (add_attributes p as) = pkt_identifier p"
  "pkt_attributes (add_attributes p as) = pkt_attributes p @ as"
  unfolding add_attributes_def by (induction as arbitrary: p) (simp_all add: add_attribute_def)

lemma add_attribute_fields [simp]:
  "pkt_code (add_attribute p a) = pkt_code p" "pkt_identifier (add_attribute p a) = pkt_identifier p"
  "pkt_attributes (add_attribute p a) = pkt_attributes p @ [a]"
  by (simp_all add: add_attribute_def)

lemma Packet_new_fields [simp]:
  "pkt_code (Packet_new c i a) = c" "pkt_identifier (Packet_new c i a) = i" "pkt_attributes (Packet_new c i a) = []"
  by (simp_all add: Packet_new_def)

lemma add_if_ok_fields [simp]:
  "pkt_code (add_if_ok x p) = pkt_code p" "pkt_identifier (add_if_ok x p) = pkt_identifier p"
  by (simp_all add: add_if_ok_def split: sum.split)

lemma draft_add_if_ok:
  assumes "draft request p" "\<And>a. x = Inr a \<Longrightarrow> clean [a]"
  shows "draft request (add_if_ok x p)"
  using assms by (cases x) (simp_all add: draft_def add_if_ok_def)

lemma Attribute_string_clean:
  "Attribute_string t x = Inr a \<Longrightarrow> t \<noteq> 80 \<Longrightarrow> t \<noteq> 33 \<Longrightarrow> clean [a]"
  by (auto simp: Attribute_string_def res_simps)

lemma to_attributes_clean:
  assumes "to_attributes md5 rnd keys secret ra = Inr as"
  shows "clean as"
  using assms
  by (auto simp: to_attributes_def to_attributes_with_salts_def encrypt_key_attribute_def to_attribute_def res_simps
      Let_def split: if_splits)

lemma accept_reply_draft:
  assumes "accept_reply lib env cfg request secret username as msk h = Inr p" "handler_ok (sc_auth_handler cfg)" "clean as"
  shows "draft request p \<and> pkt_code p = AccessAccept"
  using assms
  by (auto simp: accept_reply_def draft_def handler_ok_def res_simps to_attributes_clean Let_def split: option.splits)

lemma challenge_reply_draft:
  assumes "challenge_reply cfg request username message state as h = Inr p" "handler_ok (sc_auth_handler cfg)" "clean as"
  shows "draft request p \<and> pkt_code p = AccessChallenge"
  using assms
  by (auto simp: challenge_reply_def draft_def handler_ok_def res_simps Attribute_string_def Let_def split: option.splits)

lemma reject_reply_draft:
  assumes "handler_ok (sc_auth_handler cfg)"
  shows "draft request (reject_reply cfg request username h) \<and> pkt_code (reject_reply cfg request username h) = AccessReject"
proof -
  have "draft request (Packet_new AccessReject (pkt_identifier request) zero_auth)" by (simp add: draft_def)
  then have "draft request (add_if_ok (Attribute_new (AttributeType_as_u8 EapMessage) v) (Packet_new AccessReject (pkt_identifier request) zero_auth))" for v
    by (rule draft_add_if_ok) (auto simp: res_simps)
  then show ?thesis
    using assms by (auto simp: reject_reply_def draft_def handler_ok_def Let_def split: option.split)
qed

lemma add_reply_message_code [simp]: "pkt_code (add_reply_message m p) = pkt_code p"
  by (simp add: add_reply_message_def split: option.split)

lemma add_reply_message_draft: "draft request p \<Longrightarrow> draft request (add_reply_message m p)"
  by (auto simp: add_reply_message_def split: option.split intro!: draft_add_if_ok intro: Attribute_string_clean)

lemma denied_reply_draft: "draft request (denied_reply request d) \<and> pkt_code (denied_reply request d) = AccessReject"
proof -
  let ?p = "Packet_new AccessReject (pkt_identifier request) zero_auth"
  have p: "draft request ?p" by (simp add: draft_def)
  then have "draft request (add_if_ok (eap_failure_attribute i) ?p)" for i
    by (rule draft_add_if_ok) (auto simp: eap_failure_attribute_def res_simps)
  with p show ?thesis
    by (auto simp: denied_reply_def Let_def add_reply_message_draft split: option.split)
qed

lemma reply_attribute_clean: "reply_attribute ra = Some a \<Longrightarrow> clean [a]"
  by (auto simp: reply_attribute_def Let_def res_ok_def Attribute_string_def Attribute_integer_def tagged_integer_def res_simps
      split: if_splits sum.splits Option.bind_splits)

lemma add_policy_reply_attribute_draft:
  "draft request p \<Longrightarrow> clean [a] \<Longrightarrow>
     draft request (add_policy_reply_attribute p a) \<and> pkt_code (add_policy_reply_attribute p a) = pkt_code p"
  by (auto simp: add_policy_reply_attribute_def draft_def clean_def Let_def)

lemma granted_reply_draft:
  assumes "draft request p"
  shows "draft request (granted_reply d p) \<and> pkt_code (granted_reply d p) = pkt_code p"
proof -
  let ?f = "\<lambda>p ra. case reply_attribute ra of Some a \<Rightarrow> add_policy_reply_attribute p a | None \<Rightarrow> p"
  have "draft request (foldl ?f p ras) \<and> pkt_code (foldl ?f p ras) = pkt_code p" for ras
    using assms
  proof (induction ras arbitrary: p)
    case (Cons ra ras)
    then have "draft request (?f p ra) \<and> pkt_code (?f p ra) = pkt_code p"
      using add_policy_reply_attribute_draft reply_attribute_clean by (auto split: option.split)
    with Cons.IH [of "?f p ra"] show ?case by simp
  qed simp
  then show ?thesis by (simp add: granted_reply_def add_reply_message_draft)
qed

section \<open>Sealed replies\<close>

definition is_proxy_state :: "Attribute \<Rightarrow> bool" where
  "is_proxy_state a \<longleftrightarrow> attr_type a = AttributeType_as_u8 ProxyState"

definition carries_eap :: "Packet \<Rightarrow> bool" where
  "carries_eap p \<longleftrightarrow> list_ex (\<lambda>a. attr_type a = AttributeType_as_u8 EapMessage) (pkt_attributes p)"

text \<open>
  A reply that authenticates itself to the sender of the request: the Response Authenticator of
  RFC 2865 section 3, the Message-Authenticator of RFC 3579 section 3.2 on EAP, and the request's
  Proxy-State attributes, unchanged and in order.
\<close>

definition sealed :: "(bytes \<Rightarrow> arr16) \<Rightarrow> (bytes \<Rightarrow> bytes \<Rightarrow> arr16) \<Rightarrow> Packet \<Rightarrow> bytes \<Rightarrow> Packet \<Rightarrow> bool" where
  "sealed md5 hmac_md5 request secret p \<longleftrightarrow>
     pkt_identifier p = pkt_identifier request \<and>
     pkt_authenticator p = md5 (packet_bytes (p\<lparr>pkt_authenticator := pkt_authenticator request\<rparr>) @ secret) \<and>
     (if carries_eap p \<or> filter is_ma (pkt_attributes p) \<noteq> []
      then ma_genuine hmac_md5 p (pkt_authenticator request) secret else True) \<and>
     filter is_proxy_state (pkt_attributes p) = filter is_proxy_state (pkt_attributes request)"

definition attributes_ok :: "Packet \<Rightarrow> bool" where
  "attributes_ok p \<longleftrightarrow> (\<forall>a \<in> set (pkt_attributes p). attribute_ok a)"

lemma packet_ok_attributes: "packet_ok p \<Longrightarrow> attributes_ok p"
  by (simp add: packet_ok_def attributes_ok_def)

lemma calculate_response_ok:
  "attributes_ok p \<Longrightarrow> calculate_response_authenticator md5 p ra secret = Inr (md5 (packet_bytes (p\<lparr>pkt_authenticator := ra\<rparr>) @ secret))"
  by (simp add: attributes_ok_def calculate_response_authenticator_def append_attributes_ok packet_bytes_def Let_def)

lemma ma_genuine_authenticator [simp]:
  "ma_genuine hmac_md5 (p\<lparr>pkt_authenticator := a\<rparr>) ra secret \<longleftrightarrow> ma_genuine hmac_md5 p ra secret"
  by (simp add: ma_genuine_def)

text \<open>Adding the attribute to a packet without one.\<close>

lemma update_first_append: "\<forall>a \<in> set as. \<not> P a \<Longrightarrow> update_first P f (as @ bs) = as @ update_first P f bs"
  by (induction as) simp_all

lemma add_message_authenticator_new:
  assumes "attributes_ok p" "filter is_ma (pkt_attributes p) = []" "add_message_authenticator hmac_md5 p ra secret = Inr q"
  shows "ma_genuine hmac_md5 q ra secret \<and> packet_ok q \<and> pkt_identifier q = pkt_identifier p \<and> pkt_code q = pkt_code p
    \<and> (\<exists>v. pkt_attributes q = pkt_attributes p @ [\<lparr>attr_type = MA_TYPE, attr_value = v\<rparr>])"
proof -
  let ?as = "pkt_attributes p" and ?z = "\<lparr>attr_type = MA_TYPE, attr_value = replicate 16 0\<rparr>"
  let ?r = "p\<lparr>pkt_attributes := ?as @ [?z], pkt_authenticator := ra\<rparr>"
  let ?v = "bytes16 (hmac_md5 secret (packet_bytes ?r))"
  have none: "\<forall>a \<in> set ?as. \<not> is_ma a" using assms(2) by (simp add: filter_empty_conv)
  then have "\<not> list_ex is_ma ?as" by (auto simp: list_ex_iff)
  with update_first_append [OF none] have q: "q = p\<lparr>pkt_attributes := ?as @ [?z\<lparr>attr_value := ?v\<rparr>]\<rparr>" and ok: "packet_ok ?r"
    using assms(3)
    by (auto simp: add_message_authenticator_def add_attribute_def calculate_message_authenticator_def res_simps Let_def)
  then have "pkt_attributes q = ?as @ ?z\<lparr>attr_value := ?v\<rparr> # []" by simp
  from ma_genuine_one [OF this] none have "ma_genuine hmac_md5 q ra secret" by (cases p) (simp add: q)
  moreover have "packet_ok q"
    using ok by (auto simp: q packet_ok_def attribute_ok_def attr_consts Packet_length_eq encoded_length_def)
  ultimately show ?thesis by (simp add: q)
qed


lemma seal_reply_sealed:
  assumes "draft request p" "packet_ok request"
  shows "\<exists>r. seal_reply md5 hmac_md5 request secret p = Inr r \<and>
    (\<forall>q. r = Inr q \<longrightarrow> sealed md5 hmac_md5 request secret q \<and> attributes_ok q \<and> pkt_code q = pkt_code p)"
proof -
  let ?ps = "filter is_proxy_state (pkt_attributes request)" and ?ra = "pkt_authenticator request"
  let ?c = "copy_proxy_state request p"
  have c: "?c = p\<lparr>pkt_attributes := pkt_attributes p @ ?ps\<rparr>"
    unfolding copy_proxy_state_eq is_proxy_state_def ..
  have ok: "attributes_ok ?c"
    using assms by (auto simp: c attributes_ok_def draft_def clean_def packet_ok_def)
  have noma: "filter is_ma (pkt_attributes ?c) = []"
    using assms by (auto simp: c draft_def clean_def filter_empty_conv is_proxy_state_def)
  have nops: "filter is_proxy_state (pkt_attributes p) = []"
    using assms by (auto simp: draft_def clean_def filter_empty_conv is_proxy_state_def)
  have fin: "sealed md5 hmac_md5 request secret (q\<lparr>pkt_authenticator := md5 (packet_bytes (q\<lparr>pkt_authenticator := ?ra\<rparr>) @ secret)\<rparr>)"
    if "pkt_identifier q = pkt_identifier p" "filter is_proxy_state (pkt_attributes q) = ?ps"
      "carries_eap q \<or> filter is_ma (pkt_attributes q) \<noteq> [] \<longrightarrow> ma_genuine hmac_md5 q ?ra secret" for q
    using that assms by (simp add: sealed_def draft_def carries_eap_def)
  show ?thesis
  proof (cases "carries_eap ?c")
    case False
    then have "add_message_authenticator_if_eap hmac_md5 ?c ?ra secret = Inr ?c"
      by (simp add: add_message_authenticator_if_eap_def carries_eap_def)
    then show ?thesis
      using ok False noma nops fin [of ?c]
      by (auto simp: seal_reply_def calculate_response_ok attributes_ok_def) (simp_all add: c)
  next
    case True
    then have e: "add_message_authenticator_if_eap hmac_md5 ?c ?ra secret = add_message_authenticator hmac_md5 ?c ?ra secret"
      by (simp add: add_message_authenticator_if_eap_def carries_eap_def)
    show ?thesis
    proof (cases "add_message_authenticator hmac_md5 ?c ?ra secret")
      case (Inl e')
      then show ?thesis by (simp add: seal_reply_def e)
    next
      case (Inr q)
      note new = add_message_authenticator_new [OF ok noma Inr] and qok = packet_ok_attributes [of q]
      then have "filter is_proxy_state (pkt_attributes q) = ?ps" using nops by (auto simp: c) (simp add: is_proxy_state_def)
      with new qok fin [of q] show ?thesis
        by (auto simp: seal_reply_def e Inr calculate_response_ok attributes_ok_def) (simp_all add: c)
    qed
  qed
qed

lemma handle_status_server_sealed:
  assumes "packet_ok request"
  shows "\<exists>r. handle_status_server md5 hmac_md5 request secret role = Inr r \<and>
    (\<forall>q. r = Inr (Some q) \<longrightarrow> sealed md5 hmac_md5 request secret q \<and> packet_ok q \<and>
       pkt_code q = status_server_reply_code role \<and> ma_genuine hmac_md5 request (pkt_authenticator request) secret)"
proof -
  let ?ps = "filter is_proxy_state (pkt_attributes request)" and ?ra = "pkt_authenticator request"
  let ?p = "copy_proxy_state request (Packet_new (status_server_reply_code role) (pkt_identifier request) zero_auth)"
  have c: "pkt_attributes ?p = ?ps" "pkt_identifier ?p = pkt_identifier request" "pkt_code ?p = status_server_reply_code role"
    by (simp_all add: copy_proxy_state_eq is_proxy_state_def [abs_def])
  have ok: "attributes_ok ?p" using assms by (auto simp: c attributes_ok_def packet_ok_def)
  have noma: "filter is_ma (pkt_attributes ?p) = []" by (auto simp: c filter_empty_conv is_proxy_state_def)
  obtain k where k: "check_message_authenticator hmac_md5 request ?ra secret = Inr k"
    using check_message_authenticator_total [OF assms] by blast
  show ?thesis
  proof (cases "k = Valid")
    case True
    with k have gen: "ma_genuine hmac_md5 request ?ra secret" using check_message_authenticator_Valid [OF assms] by blast
    show ?thesis
    proof (cases "add_message_authenticator hmac_md5 ?p ?ra secret")
      case (Inl e)
      then show ?thesis using k True by (simp add: handle_status_server_def Let_def)
    next
      case (Inr q)
      note new = add_message_authenticator_new [OF ok noma Inr]
      then have "filter is_proxy_state (pkt_attributes q) = ?ps" by (auto simp: c) (simp add: is_proxy_state_def)
      with new packet_ok_attributes [of q] gen show ?thesis
        using k True Inr by (auto simp: handle_status_server_def Let_def calculate_response_ok sealed_def carries_eap_def packet_ok_def c)
    qed
  next
    case False
    then show ?thesis using k by (cases k) (simp_all add: handle_status_server_def)
  qed
qed


section \<open>The handlers\<close>

text \<open>The code returns, without panic, with a result and a state that satisfy \<open>Q\<close>.\<close>

definition returns :: "(ServerError + 'x \<Rightarrow> ('h, 'a) ServerState \<Rightarrow> bool) \<Rightarrow> ('x, 'h, 'a) outcome \<Rightarrow> bool" where
  "returns Q x \<longleftrightarrow> (\<exists>r s. x = Inr (r, s) \<and> Q r s)"

lemma returns_Inr [simp]: "returns Q (Inr (r, s)) \<longleftrightarrow> Q r s"
  by (simp add: returns_def)

lemma returns_bind:
  assumes "returns P x" "\<And>r s. P r s \<Longrightarrow> returns Q (f (r, s))"
  shows "returns Q (res_bind x f)"
  using assms by (auto simp: returns_def)

lemma returnsD: "returns Q x \<Longrightarrow> x = Inr (r, s) \<Longrightarrow> Q r s"
  by (simp add: returns_def)

lemma route_access_request_cache [simp]:
  "sv_cache (snd (route_access_request lib env cfg request source secret s)) = sv_cache s"
  by (simp add: route_access_request_def Let_def split: option.split bool.split prod.split RoutingDecision.split sum.split)

lemma log_event_fields [simp]:
  "sv_cache (log_event lib cfg e s) = sv_cache s" "sv_auth (log_event lib cfg e s) = sv_auth s"
  "sv_acct (log_event lib cfg e s) = sv_acct s" "sv_proxy (log_event lib cfg e s) = sv_proxy s"
  "sv_limiter (log_event lib cfg e s) = sv_limiter s"
  by (simp_all add: log_event_def)

lemma authenticate_access_clean:
  assumes "handler_ok (sc_auth_handler cfg)" "authenticate_access cfg request ip secret username h = (Inr r, h')"
  shows "clean_result r"
proof (cases "find_attribute request (AttributeType_as_u8 ChapPassword)")
  case None
  with assms have "r = fst (ah_authenticate_request_from (sc_auth_handler cfg) h request secret ip)"
    by (auto simp: authenticate_access_def split: prod.splits)
  with assms show ?thesis by (simp add: handler_ok_def)
next
  case (Some a)
  with assms show ?thesis
    by (auto simp: authenticate_access_def AuthResult_accept_def split: prod.splits sum.splits if_splits)
qed

definition access_replies :: "Code set" where
  "access_replies = {AccessAccept, AccessReject, AccessChallenge}"

text \<open>What holds when a handler is done: the cache \<open>c\<close> is as before and the reply, if any, is sealed.\<close>

definition replied ::
    "('r, 'n) server_lib \<Rightarrow> Packet \<Rightarrow> bytes \<Rightarrow> RequestCache \<Rightarrow> Code set \<Rightarrow> ServerError + Packet \<Rightarrow> ('h, 'a) ServerState \<Rightarrow> bool" where
  "replied lib request secret c C r s \<longleftrightarrow> sv_cache s = c \<and>
     (\<forall>q. r = Inr q \<longrightarrow> sealed (sl_md5 lib) (sl_hmac lib) request secret q \<and> attributes_ok q \<and> pkt_code q \<in> C)"

lemma replied_Inl [simp]: "replied lib request secret c C (Inl e) s \<longleftrightarrow> sv_cache s = c"
  by (simp add: replied_def)

lemma seal_replied:
  assumes "draft request p \<and> pkt_code p = k" "packet_ok request" "k \<in> C" "sv_cache s = c"
  shows "returns (replied lib request secret c C)
    (res_bind (seal_reply (sl_md5 lib) (sl_hmac lib) request secret p) (\<lambda>r. Inr (r, s)))"
proof -
  obtain r where "seal_reply (sl_md5 lib) (sl_hmac lib) request secret p = Inr r"
    "\<forall>q. r = Inr q \<longrightarrow> sealed (sl_md5 lib) (sl_hmac lib) request secret q \<and> attributes_ok q \<and> pkt_code q = k"
    using seal_reply_sealed assms(1,2) by blast
  with assms(3,4) show ?thesis by (simp add: replied_def)
qed

lemma conclude_access_replied:
  assumes "packet_ok request" "handler_ok (sc_auth_handler cfg)" "clean_result result"
  shows "returns (replied lib request secret (sv_cache s) access_replies) (conclude_access lib env cfg request ip secret username result s)"
proof (cases result)
  case (AuthAccept as msk)
  show ?thesis
  proof (cases "accept_reply lib env cfg request secret username as msk (sv_auth s)")
    case (Inl e)
    then show ?thesis using AuthAccept by (simp add: conclude_access_def Let_def)
  next
    case acc: (Inr p)
    with AuthAccept assms have p: "draft request p \<and> pkt_code p = AccessAccept"
      using accept_reply_draft by fastforce
    show ?thesis
    proof (cases "policy_decision lib cfg request username")
      case None
      then show ?thesis using AuthAccept acc
        by (simp add: conclude_access_def Let_def) (rule seal_replied [OF p assms(1)], simp_all add: access_replies_def)
    next
      case (Some d)
      have g: "draft request (granted_reply d p) \<and> pkt_code (granted_reply d p) = AccessAccept"
        using granted_reply_draft p by metis
      show ?thesis
      proof (cases "dec_effect d")
        case EffectAccept
        then show ?thesis using AuthAccept acc Some
          by (simp add: conclude_access_def Let_def) (rule seal_replied [OF g assms(1)], simp_all add: access_replies_def)
      next
        case EffectReject
        then show ?thesis using AuthAccept acc Some
          by (simp add: conclude_access_def Let_def)
            (rule seal_replied [OF denied_reply_draft assms(1)], simp_all add: access_replies_def)
      qed
    qed
  qed
next
  case AuthReject
  then show ?thesis
    by (simp add: conclude_access_def Let_def)
      (rule seal_replied [OF reject_reply_draft [OF assms(2)] assms(1)], simp_all add: access_replies_def)
next
  case (AuthChallenge m st as)
  show ?thesis
  proof (cases "challenge_reply cfg request username m st as (sv_auth s)")
    case (Inl e)
    then show ?thesis using AuthChallenge by (simp add: conclude_access_def Let_def)
  next
    case (Inr p)
    with AuthChallenge assms have p: "draft request p \<and> pkt_code p = AccessChallenge"
      using challenge_reply_draft by fastforce
    show ?thesis using AuthChallenge Inr
      by (simp add: conclude_access_def Let_def) (rule seal_replied [OF p assms(1)], simp_all add: access_replies_def)
  qed
next
  case AuthDiscard
  then show ?thesis by (simp add: conclude_access_def Let_def)
qed

lemma handle_access_request_replied:
  assumes "packet_ok request" "handler_ok (sc_auth_handler cfg)"
  shows "returns (replied lib request secret (sv_cache s) access_replies) (handle_access_request lib env cfg request source secret s)"
proof -
  obtain x s1 where route: "route_access_request lib env cfg request source secret s = (x, s1)" by fastforce
  with route_access_request_cache [of lib env cfg request source secret s] have s1: "sv_cache s1 = sv_cache s" by simp
  show ?thesis
  proof (cases "(\<exists>e. x = Inl e) \<or> attribute_text request UserName = None \<or> (\<exists>e. check_nas lib cfg request (sock_ip source) = Inl e)")
    case True
    then show ?thesis using route s1 by (auto simp: handle_access_request_def Let_def split: option.split sum.split)
  next
    case False
    then obtain u username n where ok: "x = Inr u" "attribute_text request UserName = Some username"
      "check_nas lib cfg request (sock_ip source) = Inr n" by (cases x; cases "check_nas lib cfg request (sock_ip source)") auto
    obtain y h where auth: "authenticate_access cfg request (sock_ip source) secret username (sv_auth s1) = (y, h)" by fastforce
    show ?thesis
    proof (cases y)
      case (Inl e)
      then show ?thesis using route ok auth s1 by (simp add: handle_access_request_def Let_def)
    next
      case (Inr result)
      have "clean_result result" using authenticate_access_clean [OF assms(2)] auth Inr by blast
      from conclude_access_replied [OF assms this, of lib secret
          "log_event lib cfg (auth_event lib env cfg AuditAuthAttempt username (sock_ip source) request) s1\<lparr>sv_auth := h\<rparr>" env "sock_ip source" username]
      show ?thesis using route ok auth s1 Inr by (simp add: handle_access_request_def Let_def)
    qed
  qed
qed


lemma handle_accounting_request_replied:
  assumes "packet_ok request"
  shows "returns (replied lib request secret (sv_cache s) {AccountingResponse}) (handle_accounting_request lib env cfg request ip secret s)"
proof -
  let ?p = "copy_proxy_state request (Packet_new AccountingResponse (pkt_identifier request) zero_auth)"
  have c: "pkt_attributes ?p = filter is_proxy_state (pkt_attributes request)" "pkt_identifier ?p = pkt_identifier request"
    "pkt_code ?p = AccountingResponse"
    by (simp_all add: copy_proxy_state_eq is_proxy_state_def [abs_def])
  have ok: "attributes_ok ?p" using assms by (auto simp: c attributes_ok_def packet_ok_def)
  have "filter is_ma (pkt_attributes ?p) = []" "\<not> carries_eap ?p"
    by (auto simp: c carries_eap_def list_ex_iff filter_empty_conv is_proxy_state_def)
  then have r: "replied lib request secret k {AccountingResponse}
      (Inr (?p\<lparr>pkt_authenticator := sl_md5 lib (packet_bytes (?p\<lparr>pkt_authenticator := pkt_authenticator request\<rparr>) @ secret)\<rparr>)) s'"
    if "sv_cache s' = k" for k s'
    using that ok by (simp add: replied_def sealed_def attributes_ok_def carries_eap_def c)
  show ?thesis
  proof (cases "sc_accounting_handler cfg")
    case None
    then show ?thesis by (simp add: handle_accounting_request_def)
  next
    case (Some H)
    show ?thesis
    proof (cases "parse_status_type request")
      case (Inl e)
      then show ?thesis using Some by (simp add: handle_accounting_request_def)
    next
      case (Inr st)
      obtain x a where "account H (rq_acct env) st request ip (sv_acct s) = (x, a)" by fastforce
      then show ?thesis using Some Inr r [of "s\<lparr>sv_acct := a\<rparr>" "sv_cache s"]
        by (cases x) (simp_all add: handle_accounting_request_def Let_def calculate_response_ok [OF ok])
    qed
  qed
qed

section \<open>Which requests are authentic\<close>

text \<open>
  RFC 3579 section 3.2 for an Access-Request, RFC 2866 section 3 for an Accounting-Request,
  RFC 5997 section 4.1 for a Status-Server.
\<close>

definition genuine_request :: "(bytes \<Rightarrow> arr16) \<Rightarrow> (bytes \<Rightarrow> bytes \<Rightarrow> arr16) \<Rightarrow> Packet \<Rightarrow> bytes \<Rightarrow> bool" where
  "genuine_request md5 hmac_md5 request secret \<longleftrightarrow>
     (case pkt_code request of
        AccessRequest \<Rightarrow> (if filter is_ma (pkt_attributes request) = [] then \<not> carries_eap request
                          else ma_genuine hmac_md5 request (pkt_authenticator request) secret)
      | StatusServer \<Rightarrow> ma_genuine hmac_md5 request (pkt_authenticator request) secret
      | AccountingRequest \<Rightarrow>
          pkt_authenticator request = md5 (packet_bytes (request\<lparr>pkt_authenticator := zero_auth\<rparr>) @ secret)
      | _ \<Rightarrow> True)"

lemma find_attribute_eap: "find_attribute p (AttributeType_as_u8 EapMessage) \<noteq> None \<longleftrightarrow> carries_eap p"
  by (auto simp: find_attribute_def carries_eap_def list_ex_iff find_None_iff)

lemma verify_access_request_iff:
  assumes "packet_ok request"
  shows "verify_access_request_message_authenticator hmac_md5 request secret = Inr () \<longleftrightarrow>
    (if filter is_ma (pkt_attributes request) = [] then \<not> carries_eap request
     else ma_genuine hmac_md5 request (pkt_authenticator request) secret)"
proof -
  obtain k where k: "check_message_authenticator hmac_md5 request (pkt_authenticator request) secret = Inr k"
    using check_message_authenticator_total [OF assms] by blast
  then show ?thesis
    using check_message_authenticator_Valid [OF assms, of hmac_md5 "pkt_authenticator request" secret]
      check_message_authenticator_Absent [of hmac_md5 request "pkt_authenticator request" secret] find_attribute_eap [of request]
    by (cases k) (auto simp: verify_access_request_message_authenticator_def)
qed

text \<open>The reply to a Status-Server is no longer than the request, so it always fits.\<close>

lemma encoded_length_filter:
  "length (concat (map attribute_bytes (filter P as))) \<le> length (concat (map attribute_bytes as))"
  by (induction as) simp_all

lemma status_reply_fits:
  assumes "packet_ok request" "ma_genuine hmac_md5 request ra' secret"
  shows "\<exists>q. add_message_authenticator hmac_md5
    (copy_proxy_state request (Packet_new code (pkt_identifier request) zero_auth)) ra secret = Inr q"
proof -
  let ?z = "\<lparr>attr_type = MA_TYPE, attr_value = replicate 16 0\<rparr>" and ?ps = "filter is_proxy_state (pkt_attributes request)"
  let ?p = "Packet_new code (pkt_identifier request) zero_auth"
  obtain pre ma post where s: "pkt_attributes request = pre @ ma # post" "is_ma ma" "length (attr_value ma) = 16"
    using assms(2) by (auto simp: ma_genuine_def)
  let ?n = "\<lambda>as. length (concat (map attribute_bytes as))"
  have "?n (?ps @ [?z]) \<le> ?n (pkt_attributes request)"
    using s encoded_length_filter [of is_proxy_state pre] encoded_length_filter [of is_proxy_state post]
    by (simp add: is_proxy_state_def encoded_length_def attr_consts)
  then have "packet_ok (?p\<lparr>pkt_attributes := ?ps @ [?z], pkt_authenticator := ra\<rparr>)"
    using assms(1) by (auto simp: packet_ok_def Packet_length_eq attribute_ok_def attr_consts)
  moreover have "\<not> list_ex is_ma ?ps" by (auto simp: list_ex_iff is_proxy_state_def)
  ultimately show ?thesis
    by (auto simp: add_message_authenticator_def copy_proxy_state_eq is_proxy_state_def [abs_def] Packet_new_def add_attribute_def
        Attribute_new_def attr_consts Packet_encode_Inr_iff [THEN iffD2] Let_def)
qed

lemma authenticate_packet_iff:
  assumes "packet_ok request"
  shows "\<exists>r. authenticate_packet lib request secret role = Inr r \<and>
    ((\<exists>sr. r = Inr (Some sr)) \<longleftrightarrow> genuine_request (sl_md5 lib) (sl_hmac lib) request secret) \<and>
    (\<forall>sr q. r = Inr (Some sr) \<longrightarrow> sr = Some q \<longrightarrow> pkt_code request = StatusServer \<and>
       sealed (sl_md5 lib) (sl_hmac lib) request secret q \<and> packet_ok q \<and> pkt_code q = status_server_reply_code role) \<and>
    (\<forall>sr. r = Inr (Some sr) \<longrightarrow> pkt_code request = StatusServer \<longrightarrow> sr \<noteq> None)"
proof (cases "pkt_code request = StatusServer")
  case True
  let ?ra = "pkt_authenticator request"
  obtain k where k: "check_message_authenticator (sl_hmac lib) request ?ra secret = Inr k"
    using check_message_authenticator_total [OF assms] by blast
  obtain r where r: "handle_status_server (sl_md5 lib) (sl_hmac lib) request secret role = Inr r"
    "\<forall>q. r = Inr (Some q) \<longrightarrow> sealed (sl_md5 lib) (sl_hmac lib) request secret q \<and> packet_ok q \<and>
       pkt_code q = status_server_reply_code role \<and> ma_genuine (sl_hmac lib) request ?ra secret"
    using handle_status_server_sealed [OF assms] by blast
  have "\<exists>q. r = Inr (Some q)" if g: "ma_genuine (sl_hmac lib) request ?ra secret"
  proof -
    from g k have "k = Valid" using check_message_authenticator_Valid [OF assms] by (metis sum.inject(2))
    moreover obtain q where "add_message_authenticator (sl_hmac lib)
        (copy_proxy_state request (Packet_new (status_server_reply_code role) (pkt_identifier request) zero_auth)) ?ra secret = Inr q"
      using status_reply_fits [OF assms g] by blast
    ultimately show ?thesis using r(1) k by (auto simp: handle_status_server_def Let_def res_simps)
  qed
  with True r show ?thesis
    by (auto simp: authenticate_packet_def genuine_request_def res_simps)
next
  case False
  have acct: "verify_accounting_request_authenticator (sl_md5 lib) request secret =
      Inr (pkt_authenticator request = sl_md5 lib (packet_bytes (request\<lparr>pkt_authenticator := zero_auth\<rparr>) @ secret))"
    using calculate_response_ok [OF packet_ok_attributes [OF assms]]
    by (simp add: verify_accounting_request_authenticator_def calculate_accounting_response zero_auth_def constant_time_eq_iff bytes16_inject)
  show ?thesis
    using False by (cases "pkt_code request") (auto simp: authenticate_packet_def genuine_request_def acct
        verify_access_request_iff [OF assms] res_simps split: if_splits)
qed


section \<open>Every reply\<close>

definition replies_to :: "PortRole \<Rightarrow> Code \<Rightarrow> Code set" where
  "replies_to role c =
     (case c of AccessRequest \<Rightarrow> access_replies | AccountingRequest \<Rightarrow> {AccountingResponse}
      | StatusServer \<Rightarrow> {status_server_reply_code role} | _ \<Rightarrow> {})"

text \<open>The octets of a reply, as the sender of the request decodes and checks them.\<close>

definition answers :: "('r, 'n) server_lib \<Rightarrow> PortRole \<Rightarrow> Packet \<Rightarrow> bytes \<Rightarrow> bytes \<Rightarrow> bool" where
  "answers lib role request secret bs \<longleftrightarrow>
     (\<exists>q. Packet_decode bs = Inr q \<and> pkt_code q \<in> replies_to role (pkt_code request) \<and>
        sealed (sl_md5 lib) (sl_hmac lib) request secret q)"

lemma answers_encode:
  "sealed (sl_md5 lib) (sl_hmac lib) request secret q \<Longrightarrow> pkt_code q \<in> replies_to role (pkt_code request) \<Longrightarrow>
     Packet_encode q = Inr bs \<Longrightarrow> answers lib role request secret bs"
  using Packet_decode_bytes [of q "[]"] by (auto simp: answers_def res_simps)

definition status_ready :: "('r, 'n) server_lib \<Rightarrow> PortRole \<Rightarrow> Packet \<Rightarrow> bytes \<Rightarrow> Packet option \<Rightarrow> bool" where
  "status_ready lib role request secret sr \<longleftrightarrow>
     (\<forall>q. sr = Some q \<longrightarrow> pkt_code request = StatusServer \<and>
        sealed (sl_md5 lib) (sl_hmac lib) request secret q \<and> packet_ok q \<and> pkt_code q = status_server_reply_code role)"

definition answered ::
    "('r, 'n) server_lib \<Rightarrow> PortRole \<Rightarrow> Packet \<Rightarrow> bytes \<Rightarrow> RequestCache \<Rightarrow> ServerError + Packet option \<Rightarrow> ('h, 'a) ServerState \<Rightarrow> bool" where
  "answered lib role request secret c r s \<longleftrightarrow> sv_cache s = c \<and>
     (\<forall>q. r = Inr (Some q) \<longrightarrow> sealed (sl_md5 lib) (sl_hmac lib) request secret q \<and> pkt_code q \<in> replies_to role (pkt_code request))"

lemma handle_code_answered:
  assumes "packet_ok request" "handler_ok (sc_auth_handler cfg)" "status_ready lib role request secret sr"
  shows "returns (answered lib role request secret (sv_cache s)) (handle_code lib env cfg request source secret sr s)"
proof (cases "pkt_code request")
  case AccessRequest
  then show ?thesis unfolding handle_code_def
    by (simp, intro returns_bind [OF handle_access_request_replied [OF assms(1,2)]])
      (auto simp: answered_def replied_def replies_to_def split: sum.split)
next
  case AccountingRequest
  then show ?thesis unfolding handle_code_def
    by (simp, intro returns_bind [OF handle_accounting_request_replied [OF assms(1)]])
      (auto simp: answered_def replied_def replies_to_def res_simps)
next
  case StatusServer
  then show ?thesis using assms(3) by (auto simp: handle_code_def answered_def status_ready_def replies_to_def)
qed (simp_all add: handle_code_def answered_def)

text \<open>Requests processed so far, newest first, with the secret they were processed under.\<close>

type_synonym history = "(bytes \<times> bytes) list"

definition stored_answers :: "('r, 'n) server_lib \<Rightarrow> history \<Rightarrow> RequestCache \<Rightarrow> bool" where
  "stored_answers lib hist c \<longleftrightarrow>
     (\<forall>fp e bs. fmlookup (rc_cache c) fp = Some e \<longrightarrow> ce_reply e = Some bs \<longrightarrow>
        (\<exists>data secret request role. (data, secret) \<in> set hist \<and> ce_digest e = request_digest (sl_sha256 lib) secret data \<and>
           Packet_decode data = Inr request \<and> pkt_code request = AccessRequest \<and> answers lib role request secret bs))"

definition cache_sub :: "RequestCache \<Rightarrow> RequestCache \<Rightarrow> bool" where
  "cache_sub c c' \<longleftrightarrow> (\<forall>fp e. fmlookup (rc_cache c) fp = Some e \<longrightarrow>
     ce_reply e = None \<or> (\<exists>e'. fmlookup (rc_cache c') fp = Some e' \<and> ce_digest e' = ce_digest e \<and> ce_reply e' = ce_reply e))"

lemma stored_answers_sub:
  assumes "stored_answers lib hist c" "cache_sub c' c" "set hist \<subseteq> set hist'"
  shows "stored_answers lib hist' c'"
  unfolding stored_answers_def
proof (intro allI impI)
  fix fp e bs
  assume "fmlookup (rc_cache c') fp = Some e" "ce_reply e = Some bs"
  with assms(2) obtain e' where "fmlookup (rc_cache c) fp = Some e'" "ce_digest e' = ce_digest e" "ce_reply e' = Some bs"
    by (fastforce simp: cache_sub_def)
  then obtain data secret request role where "(data, secret) \<in> set hist" "ce_digest e' = request_digest (sl_sha256 lib) secret data"
    "Packet_decode data = Inr request" "pkt_code request = AccessRequest" "answers lib role request secret bs"
    using assms(1) unfolding stored_answers_def by blast
  with \<open>ce_digest e' = ce_digest e\<close> assms(3) show "\<exists>data secret request role. (data, secret) \<in> set hist' \<and> ce_digest e = request_digest (sl_sha256 lib) secret data \<and>
      Packet_decode data = Inr request \<and> pkt_code request = AccessRequest \<and> answers lib role request secret bs"
    by (intro exI conjI) (auto simp del: Packet_encode_Inr_iff)
qed

lemma admit_cache_sub:
  assumes "admit iter now c fp src digest = (a, c')"
  shows "cache_sub c' c"
    and "a = Replay bs \<Longrightarrow> \<exists>e. fmlookup (rc_cache c) fp = Some e \<and> ce_reply e = Some bs \<and> ce_digest e = digest"
    and "a = New \<Longrightarrow> \<exists>e. fmlookup (rc_cache c') fp = Some e \<and> ce_digest e = digest"
proof -
  have room: "fmlookup (rc_cache (make_room iter c fp)) k = Some e \<Longrightarrow> fmlookup (rc_cache c) k = Some e" for k e
    by (auto simp: make_room_def split: option.splits if_splits)
  show "cache_sub c' c"
    using assms room
    by (auto simp: admit_def admit_entry_def cache_sub_def Let_def split: option.splits if_splits)
  show "\<exists>e. fmlookup (rc_cache c) fp = Some e \<and> ce_reply e = Some bs \<and> ce_digest e = digest" if "a = Replay bs"
    using assms room that
    by (auto simp: admit_def admit_entry_def Let_def split: option.splits if_splits)
  show "\<exists>e. fmlookup (rc_cache c') fp = Some e \<and> ce_digest e = digest" if "a = New"
    using assms that by (auto simp: admit_def admit_entry_def Let_def split: option.splits if_splits)
qed

lemma stored_answers_store:
  assumes "stored_answers lib hist c" "(data, secret) \<in> set hist" "Packet_decode data = Inr request" "pkt_code request = AccessRequest"
    "answers lib role request secret bs"
  shows "stored_answers lib hist (store_reply c fp (request_digest (sl_sha256 lib) secret data) bs)"
proof -
  let ?d = "request_digest (sl_sha256 lib) secret data"
  have old: "(\<exists>e'. e = e'\<lparr>ce_reply := Some bs\<rparr> \<and> ce_digest e' = ?d) \<or> fmlookup (rc_cache c) k = Some e"
    if "fmlookup (rc_cache (store_reply c fp ?d bs)) k = Some e" for k e
    using that by (auto simp: store_reply_def split: option.splits if_splits)
  have new: "\<exists>data secret request role. (data, secret) \<in> set hist \<and> ?d = request_digest (sl_sha256 lib) secret data \<and>
      Packet_decode data = Inr request \<and> pkt_code request = AccessRequest \<and> answers lib role request secret bs"
    using assms by blast
  show ?thesis
    unfolding stored_answers_def
  proof (intro allI impI)
    fix k e x
    assume e: "fmlookup (rc_cache (store_reply c fp ?d bs)) k = Some e" "ce_reply e = Some x"
    show "\<exists>data secret request role. (data, secret) \<in> set hist \<and> ce_digest e = request_digest (sl_sha256 lib) secret data \<and>
        Packet_decode data = Inr request \<and> pkt_code request = AccessRequest \<and> answers lib role request secret x"
    proof (cases "fmlookup (rc_cache c) k = Some e")
      case True
      then show ?thesis using assms(1) e(2) unfolding stored_answers_def by blast
    next
      case False
      with old [OF e(1)] have "ce_digest e = ?d" "x = bs" using e(2) by auto
      then show ?thesis using new by simp
    qed
  qed
qed


text \<open>
  What one request leads to: the stored replies stay answers to requests of the history, and the
  octets sent answer this request or another one with its digest.
\<close>

definition step_ok ::
    "('r, 'n) server_lib \<Rightarrow> history \<Rightarrow> bytes \<Rightarrow> bytes \<Rightarrow> PortRole \<Rightarrow> Packet \<Rightarrow> ServerError + bytes option \<Rightarrow> ('h, 'a) ServerState \<Rightarrow> bool" where
  "step_ok lib hist data secret role request r s \<longleftrightarrow>
     stored_answers lib ((data, secret) # hist) (sv_cache s) \<and>
     (\<forall>bs. r = Inr (Some bs) \<longrightarrow> answers lib role request secret bs \<or>
        (\<exists>data' secret'. (data', secret') \<in> set hist \<and> (data', secret') \<noteq> (data, secret) \<and>
           request_digest (sl_sha256 lib) secret' data' = request_digest (sl_sha256 lib) secret data))"

lemma answers_role: "pkt_code request = AccessRequest \<Longrightarrow> answers lib role request secret bs \<longleftrightarrow> answers lib role' request secret bs"
  by (simp add: answers_def replies_to_def)

definition fingerprint :: "Packet \<Rightarrow> SocketAddr \<Rightarrow> RequestFingerprint" where
  "fingerprint request source = RequestFingerprint_new (sock_ip source) (pkt_identifier request) (pkt_authenticator request)"

definition admission ::
    "('r, 'n) server_lib \<Rightarrow> 't request_env \<Rightarrow> bytes \<Rightarrow> Packet \<Rightarrow> SocketAddr \<Rightarrow> bytes \<Rightarrow> RequestCache \<Rightarrow> Admission \<times> RequestCache" where
  "admission lib env data request source secret c =
     admit (sl_entry_walk lib) (rq_now env) c (fingerprint request source) source (request_digest (sl_sha256 lib) secret data)"

text \<open>The branches of \<open>answer_request\<close>.\<close>

lemma answer_request_new:
  assumes "admission lib env data request source secret (sv_cache s) = (New, c)"
    "handle_code lib env cfg request source secret sr (s\<lparr>sv_cache := c\<rparr>) = Inr (r, s')"
  shows "answer_request lib env cfg data request source secret sr s = Inr
    (case r of Inl e \<Rightarrow> (Inl e, s') | Inr None \<Rightarrow> (Inr None, s')
     | Inr (Some q) \<Rightarrow> (case Packet_encode q of Inl e \<Rightarrow> (Inl (ServerPacket e), s')
         | Inr bs \<Rightarrow> (Inr (Some bs), if pkt_code request = AccessRequest
             then s'\<lparr>sv_cache := store_reply (sv_cache s') (fingerprint request source) (request_digest (sl_sha256 lib) secret data) bs\<rparr>
             else s')))"
  using assms by (simp add: answer_request_def Let_def admission_def fingerprint_def split: sum.split option.split)

lemma answer_request_replay:
  assumes "admission lib env data request source secret (sv_cache s) = (Replay bs, c)" "pkt_code request = AccessRequest"
  shows "answer_request lib env cfg data request source secret sr s =
    Inr (Inr (Some bs), s\<lparr>sv_cache := c, sv_replayed := sv_replayed s + 1\<rparr>)"
  using assms by (simp add: answer_request_def Let_def admission_def fingerprint_def)

lemma answer_request_duplicate:
  assumes "admission lib env data request source secret (sv_cache s) = (a, c)"
    "a \<noteq> New" "pkt_code request \<noteq> AccessRequest \<or> (\<forall>bs. a \<noteq> Replay bs)"
  shows "\<exists>entry. answer_request lib env cfg data request source secret sr s =
    Inr (Inl DuplicateRequest, log_event lib cfg entry (s\<lparr>sv_cache := c\<rparr>))"
  using assms by (cases a) (auto simp: answer_request_def Let_def admission_def fingerprint_def)

lemma answer_request_step:
  assumes "Packet_decode data = Inr request" "handler_ok (sc_auth_handler cfg)" "status_ready lib role request secret sr"
    "stored_answers lib hist (sv_cache s)"
  shows "returns (step_ok lib hist data secret role request) (answer_request lib env cfg data request source secret sr s)"
proof -
  let ?d = "request_digest (sl_sha256 lib) secret data" and ?h = "(data, secret) # hist"
  obtain a c where adm: "admission lib env data request source secret (sv_cache s) = (a, c)" by fastforce
  note sub = admit_cache_sub [OF adm [unfolded admission_def]]
  have c: "stored_answers lib ?h c" by (rule stored_answers_sub [OF assms(4) sub(1)]) auto
  have ok: "packet_ok request" using Packet_decode_canonical [OF assms(1)] by blast
  consider "a = New" | bs where "a = Replay bs" "pkt_code request = AccessRequest"
    | "a \<noteq> New" "pkt_code request \<noteq> AccessRequest \<or> (\<forall>bs. a \<noteq> Replay bs)" by blast
  then show ?thesis
  proof cases
    case 1
    obtain r s' where h: "handle_code lib env cfg request source secret sr (s\<lparr>sv_cache := c\<rparr>) = Inr (r, s')"
      "answered lib role request secret c r s'"
      using handle_code_answered [OF ok assms(2,3), of "s\<lparr>sv_cache := c\<rparr>" env source] by (auto simp: returns_def)
    then have c': "sv_cache s' = c" by (simp add: answered_def)
    note new = answer_request_new [OF adm [unfolded 1] h(1)]
    show ?thesis
    proof (cases "\<exists>q bs. r = Inr (Some q) \<and> Packet_encode q = Inr bs")
      case True
      then obtain q bs where q: "r = Inr (Some q)" "Packet_encode q = Inr bs" by blast
      with h(2) have an: "answers lib role request secret bs" by (auto simp: answered_def intro: answers_encode)
      have st: "stored_answers lib ?h (store_reply c (fingerprint request source) ?d bs)" if "pkt_code request = AccessRequest"
        by (rule stored_answers_store [OF c _ assms(1) that an]) simp
      show ?thesis unfolding new q(1) using q(2) c c' an st by (simp add: step_ok_def)
    next
      case False
      then show ?thesis unfolding new using c c' by (auto simp: step_ok_def split: sum.split option.split)
    qed
  next
    case (2 bs)
    from sub(2) [OF 2(1)] obtain e where e: "fmlookup (rc_cache (sv_cache s)) (fingerprint request source) = Some e"
      "ce_reply e = Some bs" "ce_digest e = ?d" by blast
    then obtain data' secret' request' role' where old: "(data', secret') \<in> set hist" "?d = request_digest (sl_sha256 lib) secret' data'"
      "Packet_decode data' = Inr request'" "pkt_code request' = AccessRequest" "answers lib role' request' secret' bs"
      using assms(4) [unfolded stored_answers_def, rule_format, OF e(1,2)] unfolding e(3) by blast
    have "answers lib role request secret bs \<or> (data', secret') \<noteq> (data, secret)"
    proof (cases "(data', secret') = (data, secret)")
      case True
      with old(3) assms(1) have "request' = request" by simp
      with old(5) True answers_role [OF old(4), of lib role' secret' bs role] show ?thesis by simp
    qed simp
    with old(1,2) c show ?thesis unfolding answer_request_replay [OF adm [unfolded 2(1)] 2(2)] by (auto simp: step_ok_def)
  next
    case 3
    from answer_request_duplicate [OF adm 3, of cfg sr] c show ?thesis by (auto simp: step_ok_def)
  qed
qed

text \<open>A request that is not authentic leaves the state as it is and gets no reply.\<close>

lemma process_request_refused:
  assumes "\<nexists>request. Packet_decode data = Inr request \<and> validate_packet request (validation_mode cfg) = Inr () \<and>
    admits role (pkt_code request) (accepts_accounting_on_auth_socket (sc_accounting_port cfg)) \<and>
    genuine_request (sl_md5 lib) (sl_hmac lib) request secret"
  shows "returns (\<lambda>r s'. s' = s \<and> (\<forall>bs. r \<noteq> Inr (Some bs))) (process_request lib env cfg data source secret role s)"
proof (cases "Packet_decode data")
  case (Inl e)
  then show ?thesis by (simp add: process_request_def)
next
  case (Inr request)
  then have "packet_ok request" using Packet_decode_canonical by blast
  from authenticate_packet_iff [OF this, of lib secret role] obtain r where
    "authenticate_packet lib request secret role = Inr r"
    "(\<exists>sr. r = Inr (Some sr)) \<longleftrightarrow> genuine_request (sl_md5 lib) (sl_hmac lib) request secret" by blast
  then show ?thesis
    using assms Inr by (auto simp: process_request_def split: sum.split option.split)
qed

lemma process_request_accepted:
  assumes "Packet_decode data = Inr request" "validate_packet request (validation_mode cfg) = Inr ()"
    "admits role (pkt_code request) (accepts_accounting_on_auth_socket (sc_accounting_port cfg))"
    "genuine_request (sl_md5 lib) (sl_hmac lib) request secret"
  obtains sr where "process_request lib env cfg data source secret role s = answer_request lib env cfg data request source secret sr s"
    "status_ready lib role request secret sr" "pkt_code request = StatusServer \<longrightarrow> sr \<noteq> None"
proof -
  have "packet_ok request" using Packet_decode_canonical assms(1) by blast
  from authenticate_packet_iff [OF this, of lib secret role] assms(4) obtain sr where
    "authenticate_packet lib request secret role = Inr (Inr (Some sr))" "status_ready lib role request secret sr"
    "pkt_code request = StatusServer \<longrightarrow> sr \<noteq> None"
    by (auto simp: status_ready_def)
  then show thesis using assms(1,2,3) by (intro that [of sr]) (simp_all add: process_request_def)
qed

lemma process_request_step:
  assumes "handler_ok (sc_auth_handler cfg)" "stored_answers lib hist (sv_cache s)"
  shows "returns (\<lambda>r s'. stored_answers lib ((data, secret) # hist) (sv_cache s') \<and>
      (\<forall>bs. r = Inr (Some bs) \<longrightarrow> (\<exists>request. Packet_decode data = Inr request \<and>
         genuine_request (sl_md5 lib) (sl_hmac lib) request secret \<and> step_ok lib hist data secret role request r s')))
    (process_request lib env cfg data source secret role s)"
proof (cases "\<exists>request. Packet_decode data = Inr request \<and> validate_packet request (validation_mode cfg) = Inr () \<and>
    admits role (pkt_code request) (accepts_accounting_on_auth_socket (sc_accounting_port cfg)) \<and>
    genuine_request (sl_md5 lib) (sl_hmac lib) request secret")
  case True
  then obtain request where req: "Packet_decode data = Inr request" "validate_packet request (validation_mode cfg) = Inr ()"
    "admits role (pkt_code request) (accepts_accounting_on_auth_socket (sc_accounting_port cfg))"
    "genuine_request (sl_md5 lib) (sl_hmac lib) request secret" by blast
  obtain sr where sr: "process_request lib env cfg data source secret role s = answer_request lib env cfg data request source secret sr s"
    "status_ready lib role request secret sr" by (rule process_request_accepted [OF req])
  from answer_request_step [OF req(1) assms(1) sr(2) assms(2), of env source]
  show ?thesis using req(1,4) unfolding sr(1) returns_def by (auto simp: step_ok_def)
next
  case False
  from process_request_refused [OF this, of s env source] show ?thesis
    using stored_answers_sub [OF assms(2), of "sv_cache s" "(data, secret) # hist"]
    unfolding returns_def by (auto simp: cache_sub_def)
qed


section \<open>Runs\<close>

text \<open>
  A run of the server: requests, each under one of the configurations \<open>cfgs\<close> (the policy can be
  edited while the server runs), and anything else that happens to the state between them, as long
  as it does not invent cache entries.
\<close>

inductive server_run :: "('r, 'n) server_lib \<Rightarrow> ('r, 'h, 't, 'a) ServerConfig set \<Rightarrow> history \<Rightarrow> ('h, 'a) ServerState \<Rightarrow> bool"
  for lib :: "('r, 'n) server_lib" and cfgs :: "('r, 'h, 't, 'a) ServerConfig set" where
  start: "rc_cache (sv_cache s) = fmempty \<Longrightarrow> server_run lib cfgs [] s"
| request: "server_run lib cfgs hist s \<Longrightarrow> cfg \<in> cfgs \<Longrightarrow> handler_ok (sc_auth_handler cfg) \<Longrightarrow>
    process_request lib env cfg data source secret role s = Inr (r, s') \<Longrightarrow> server_run lib cfgs ((data, secret) # hist) s'"
| between: "server_run lib cfgs hist s \<Longrightarrow> (\<And>fp. fmlookup (rc_cache (sv_cache s')) fp \<in> {None, fmlookup (rc_cache (sv_cache s)) fp}) \<Longrightarrow>
    server_run lib cfgs hist s'"

lemma server_run_stored: "server_run lib cfgs hist s \<Longrightarrow> stored_answers lib hist (sv_cache s)"
proof (induction rule: server_run.induct)
  case (start s)
  then show ?case by (simp add: stored_answers_def)
next
  case (request hist s cfg env data source secret role r s')
  from process_request_step [OF request.hyps(3) request.IH, of data secret role env source] request.hyps(4)
  show ?case by (auto simp: returns_def)
next
  case (between hist s s')
  have "cache_sub (sv_cache s') (sv_cache s)"
    unfolding cache_sub_def
  proof (intro allI impI)
    fix fp e
    assume "fmlookup (rc_cache (sv_cache s')) fp = Some e"
    with between.hyps(2) [of fp] have "fmlookup (rc_cache (sv_cache s)) fp = Some e" by auto
    then show "ce_reply e = None \<or>
        (\<exists>e'. fmlookup (rc_cache (sv_cache s)) fp = Some e' \<and> ce_digest e' = ce_digest e \<and> ce_reply e' = ce_reply e)" by blast
  qed
  from stored_answers_sub [OF between.IH this subset_refl] show ?case .
qed

lemma process_request_returns:
  assumes "handler_ok (sc_auth_handler cfg)"
  shows "\<exists>r s'. process_request lib env cfg data src secret role s = Inr (r, s')"
proof (cases "\<exists>request. Packet_decode data = Inr request \<and> validate_packet request (validation_mode cfg) = Inr () \<and>
    admits role (pkt_code request) (accepts_accounting_on_auth_socket (sc_accounting_port cfg)) \<and>
    genuine_request (sl_md5 lib) (sl_hmac lib) request secret")
  case True
  then obtain request where req: "Packet_decode data = Inr request" "validate_packet request (validation_mode cfg) = Inr ()"
    "admits role (pkt_code request) (accepts_accounting_on_auth_socket (sc_accounting_port cfg))"
    "genuine_request (sl_md5 lib) (sl_hmac lib) request secret" by blast
  obtain sr where sr: "process_request lib env cfg data src secret role s = answer_request lib env cfg data request src secret sr s"
    "status_ready lib role request secret sr" by (rule process_request_accepted [OF req])
  have ok: "packet_ok request" using Packet_decode_canonical req(1) by blast
  obtain a c where adm: "admission lib env data request src secret (sv_cache s) = (a, c)" by fastforce
  consider "a = New" | bs where "a = Replay bs" "pkt_code request = AccessRequest"
    | "a \<noteq> New" "pkt_code request \<noteq> AccessRequest \<or> (\<forall>bs. a \<noteq> Replay bs)" by blast
  then show ?thesis
  proof cases
    case 1
    obtain r s' where h: "handle_code lib env cfg request src secret sr (s\<lparr>sv_cache := c\<rparr>) = Inr (r, s')"
      using handle_code_answered [OF ok assms sr(2), of "s\<lparr>sv_cache := c\<rparr>" env src] by (auto simp: returns_def)
    show ?thesis unfolding sr(1) answer_request_new [OF adm [unfolded 1] h] sum.inject by (rule surj_pair)
  next
    case (2 bs)
    from answer_request_replay [OF adm [unfolded 2(1)] 2(2)] sr(1) show ?thesis by auto
  next
    case 3
    from answer_request_duplicate [OF adm 3, of cfg sr] sr(1) show ?thesis by auto
  qed
next
  case False
  from process_request_refused [OF this, of s env src] show ?thesis by (auto simp: returns_def)
qed

section \<open>Fresh requests and retransmissions\<close>

definition fresh :: "Packet \<Rightarrow> SocketAddr \<Rightarrow> ('h, 'a) ServerState \<Rightarrow> bool" where
  "fresh request source s \<longleftrightarrow> fmlookup (rc_cache (sv_cache s)) (fingerprint request source) = None"

lemma admission_fresh:
  assumes "fresh request source s"
  obtains c where "admission lib env data request source secret (sv_cache s) = (New, c)"
    "fmlookup (rc_cache c) (fingerprint request source) = Some \<lparr>inserted_at = rq_now env,
       ce_digest = request_digest (sl_sha256 lib) secret data, ce_source = source, ce_reply = None, replays = 0\<rparr>"
    "rc_ttl c = rc_ttl (sv_cache s)"
proof -
  let ?fp = "fingerprint request source" and ?m = "make_room (sl_entry_walk lib) (sv_cache s) (fingerprint request source)"
  let ?c = "?m\<lparr>rc_cache := fmupd ?fp \<lparr>inserted_at = rq_now env, ce_digest = request_digest (sl_sha256 lib) secret data,
    ce_source = source, ce_reply = None, replays = 0\<rparr> (rc_cache ?m)\<rparr>"
  have "fmlookup (rc_cache ?m) ?fp = None"
    using assms by (auto simp: fresh_def make_room_def split: option.split)
  then have "admission lib env data request source secret (sv_cache s) = (New, ?c)"
    by (simp add: admission_def admit_def admit_entry_def)
  moreover have "rc_ttl ?m = rc_ttl (sv_cache s)" by (simp add: make_room_def split: option.split)
  ultimately show thesis by (intro that [of ?c]) simp_all
qed

text \<open>A probe of the health checker is a valid, authentic Status-Server request.\<close>

lemma probe_packet_fields:
  "pkt_code (probe_packet hmac_md5 secret ident ra) = StatusServer" "pkt_identifier (probe_packet hmac_md5 secret ident ra) = ident"
  "pkt_authenticator (probe_packet hmac_md5 secret ident ra) = ra"
  by (simp_all add: probe_packet_def Let_def)

lemma probe_packet_genuine: "genuine_request md5 hmac_md5 (probe_packet hmac_md5 secret ident ra) secret"
proof -
  let ?p = "probe_packet hmac_md5 secret ident ra"
  obtain ma where ma: "pkt_attributes ?p = [] @ ma # []" "is_ma ma" by (simp add: probe_packet_def Let_def)
  then have "ma = \<lparr>attr_type = MA_TYPE, attr_value = attr_value ma\<rparr>" by (cases ma) simp
  with ma_genuine_one [OF ma(1) _ ma(2), of hmac_md5 ra secret] ma(1)
  have "ma_genuine hmac_md5 ?p ra secret" by (auto simp: probe_packet_def Let_def)
  then show ?thesis by (simp add: genuine_request_def probe_packet_fields)
qed

lemma probe_packet_valid: "validate_packet (probe_packet hmac_md5 secret ident ra) mode = Inr ()"
  by (simp add: validate_packet_def probe_packet_def validate_status_server_def validate_attribute_def Let_def)

lemma status_probe_reply:
  assumes "fresh (probe_packet (sl_hmac lib) secret ident ra) source s"
  shows "\<exists>bs q s'. process_request lib env cfg (packet_bytes (probe_packet (sl_hmac lib) secret ident ra)) source secret role s = Inr (Inr (Some bs), s')
    \<and> Packet_decode bs = Inr q \<and> length bs \<le> 4096 \<and> genuine_packet (sl_md5 lib) (sl_hmac lib) secret ident ra q
    \<and> pkt_code q = status_server_reply_code role"
proof -
  let ?p = "probe_packet (sl_hmac lib) secret ident ra"
  have dec: "Packet_decode (packet_bytes ?p) = Inr ?p" using Packet_decode_bytes [OF probe_packet_ok, of _ _ _ _ "[]"] by simp
  have adm: "admits role (pkt_code ?p) b" for b by (cases role) (simp_all add: probe_packet_fields)
  obtain sr where sr: "process_request lib env cfg (packet_bytes ?p) source secret role s
      = answer_request lib env cfg (packet_bytes ?p) ?p source secret sr s"
    "status_ready lib role ?p secret sr" "pkt_code ?p = StatusServer \<longrightarrow> sr \<noteq> None"
    by (rule process_request_accepted [where env = env and cfg = cfg and source = source and s = s,
        OF dec probe_packet_valid adm probe_packet_genuine])
  then obtain q where q: "sr = Some q" "sealed (sl_md5 lib) (sl_hmac lib) ?p secret q" "packet_ok q" "pkt_code q = status_server_reply_code role"
    by (auto simp: status_ready_def probe_packet_fields)
  obtain c where new: "admission lib env (packet_bytes ?p) ?p source secret (sv_cache s) = (New, c)"
    by (rule admission_fresh [OF assms])
  have h: "handle_code lib env cfg ?p source secret sr (s\<lparr>sv_cache := c\<rparr>) = Inr (Inr (Some q), s\<lparr>sv_cache := c\<rparr>)"
    by (simp add: handle_code_def probe_packet_fields q(1))
  have enc: "Packet_encode q = Inr (packet_bytes q)" using q(3) by (simp add: res_simps)
  have "process_request lib env cfg (packet_bytes ?p) source secret role s = Inr (Inr (Some (packet_bytes q)), s\<lparr>sv_cache := c\<rparr>)"
    unfolding sr(1) answer_request_new [OF new h] by (simp add: enc probe_packet_fields)
  moreover have "Packet_decode (packet_bytes q) = Inr q" using Packet_decode_bytes [OF q(3), of "[]"] by simp
  moreover have "length (packet_bytes q) \<le> 4096" using q(3) by (simp add: packet_ok_def packet_bytes_def Packet_length_eq pkt_consts)
  moreover have "genuine_packet (sl_md5 lib) (sl_hmac lib) secret ident ra q"
    using q(2,4) by (cases role) (auto simp: genuine_packet_def sealed_def probe_packet_fields split: if_splits)
  ultimately show ?thesis using q(4) by blast
qed

end
