(* ===== verification/Server_Access.thy ===== *)
theory Server_Access
  imports Server_Correctness
begin

text \<open>
  Consequences for the parties: what a retransmission gets, who is accepted, what a denial
  discloses, and when nobody answers.
\<close>

section \<open>Retransmissions\<close>

text \<open>Copies of one request, one after the other.\<close>

fun resend ::
    "('r, 'n) server_lib \<Rightarrow> ('r, 'h, 't, 'a) ServerConfig \<Rightarrow> bytes \<Rightarrow> SocketAddr \<Rightarrow> bytes \<Rightarrow> PortRole \<Rightarrow> 't request_env list
      \<Rightarrow> ('h, 'a) ServerState \<Rightarrow> panic + ((ServerError + bytes option) list \<times> ('h, 'a) ServerState)" where
  "resend lib cfg data source secret role [] s = Inr ([], s)"
| "resend lib cfg data source secret role (env # envs) s =
     res_bind (process_request lib env cfg data source secret role s) (\<lambda>(r, s).
       res_bind (resend lib cfg data source secret role envs s) (\<lambda>(rs, s). Inr (r # rs, s)))"

definition accepted_request ::
    "('r, 'n) server_lib \<Rightarrow> ('r, 'h, 't, 'a) ServerConfig \<Rightarrow> bytes \<Rightarrow> bytes \<Rightarrow> PortRole \<Rightarrow> Packet \<Rightarrow> bool" where
  "accepted_request lib cfg data secret role request \<longleftrightarrow>
     Packet_decode data = Inr request \<and> validate_packet request (validation_mode cfg) = Inr () \<and>
     admits role (pkt_code request) (accepts_accounting_on_auth_socket (sc_accounting_port cfg)) \<and>
     genuine_request (sl_md5 lib) (sl_hmac lib) request secret"

lemma accepted_request_answer:
  assumes "accepted_request lib cfg data secret role request"
  obtains sr where "process_request lib env cfg data source secret role s = answer_request lib env cfg data request source secret sr s"
    "status_ready lib role request secret sr"
  using assms unfolding accepted_request_def by (meson process_request_accepted)

lemma replied_request_accepted:
  assumes "process_request lib env cfg data source secret role s = Inr (Inr (Some bs), s')" "Packet_decode data = Inr request"
  shows "accepted_request lib cfg data secret role request"
proof (rule ccontr)
  assume "\<not> ?thesis"
  then have "\<nexists>request. Packet_decode data = Inr request \<and> validate_packet request (validation_mode cfg) = Inr () \<and>
      admits role (pkt_code request) (accepts_accounting_on_auth_socket (sc_accounting_port cfg)) \<and>
      genuine_request (sl_md5 lib) (sl_hmac lib) request secret"
    using assms(2) by (auto simp: accepted_request_def)
  from returnsD [OF process_request_refused [OF this] assms(1)] show False by simp
qed

text \<open>The state but for the cache and the counter of replays.\<close>

definition same_work :: "('h, 'a) ServerState \<Rightarrow> ('h, 'a) ServerState \<Rightarrow> bool" where
  "same_work s s' \<longleftrightarrow> (\<exists>c n. s' = s\<lparr>sv_cache := c, sv_replayed := n\<rparr>)"

lemma same_work_trans: "same_work s s' \<Longrightarrow> same_work s' s'' \<Longrightarrow> same_work s s''"
  unfolding same_work_def by (elim exE, hypsubst, simp, blast)

lemma same_work_refl: "same_work s s"
  unfolding same_work_def by (rule exI [of _ "sv_cache s"], rule exI [of _ "sv_replayed s"]) simp

lemma process_replay:
  assumes "accepted_request lib cfg data secret role request" "pkt_code request = AccessRequest"
    "fmlookup (rc_cache (sv_cache s)) (fingerprint request source) = Some e" "ce_digest e = request_digest (sl_sha256 lib) secret data"
    "ce_source e = source" "ce_reply e = Some bs" "unat (replays e) < 8" "rq_now env \<le> inserted_at e + rc_ttl (sv_cache s)"
  obtains s' where "process_request lib env cfg data source secret role s = Inr (Inr (Some bs), s')" "same_work s s'"
    "fmlookup (rc_cache (sv_cache s')) (fingerprint request source) = Some (e\<lparr>replays := replays e + 1\<rparr>)"
    "rc_ttl (sv_cache s') = rc_ttl (sv_cache s)"
proof -
  let ?c = "(sv_cache s)\<lparr>rc_cache := fmupd (fingerprint request source) (e\<lparr>replays := replays e + 1\<rparr>) (rc_cache (sv_cache s))\<rparr>"
  obtain sr where sr: "process_request lib env cfg data source secret role s = answer_request lib env cfg data request source secret sr s"
    by (rule accepted_request_answer [OF assms(1)])
  have "make_room (sl_entry_walk lib) (sv_cache s) (fingerprint request source) = sv_cache s"
    using assms(3) by (simp add: make_room_def room_victim_def)
  moreover have "\<not> expired (sv_cache s) (rq_now env) e" using assms(8) by (auto simp: expired_def duration_since_def)
  moreover have "\<not> MAX_REPLAYS_PER_REQUEST \<le> replays e" using assms(7) by (simp add: MAX_REPLAYS_PER_REQUEST_def word_le_nat_alt)
  ultimately have "admission lib env data request source secret (sv_cache s) = (Replay bs, ?c)"
    using assms(3-6) by (simp add: admission_def admit_def admit_entry_def Let_def)
  note answer_request_replay [OF this assms(2), of cfg sr]
  then show thesis
    by (intro that [of "s\<lparr>sv_cache := ?c, sv_replayed := sv_replayed s + 1\<rparr>"]) (auto simp: sr same_work_def)
qed

lemma resend_replays:
  assumes "accepted_request lib cfg data secret role request" "pkt_code request = AccessRequest"
    "fmlookup (rc_cache (sv_cache s)) (fingerprint request source) = Some e" "ce_digest e = request_digest (sl_sha256 lib) secret data"
    "ce_source e = source" "ce_reply e = Some bs" "unat (replays e) + length envs \<le> 8"
    "\<forall>env \<in> set envs. rq_now env \<le> inserted_at e + rc_ttl (sv_cache s)"
  shows "\<exists>s'. resend lib cfg data source secret role envs s = Inr (replicate (length envs) (Inr (Some bs)), s') \<and> same_work s s'"
  using assms(3-)
proof (induction envs arbitrary: s e)
  case Nil
  then show ?case by (auto intro: same_work_refl)
next
  case (Cons env envs)
  then have lt: "unat (replays e) < 8" and t: "rq_now env \<le> inserted_at e + rc_ttl (sv_cache s)" by simp_all
  obtain s1 where s1: "process_request lib env cfg data source secret role s = Inr (Inr (Some bs), s1)" "same_work s s1"
    "fmlookup (rc_cache (sv_cache s1)) (fingerprint request source) = Some (e\<lparr>replays := replays e + 1\<rparr>)"
    "rc_ttl (sv_cache s1) = rc_ttl (sv_cache s)"
    by (rule process_replay [OF assms(1,2) Cons.prems(1-4) lt t])
  have "unat (replays e + 1) = unat (replays e) + 1"
    using arg_cong [OF abs_entry_replay [OF lt], of se_replays] by (simp add: abs_entry_def)
  then obtain s2 where "resend lib cfg data source secret role envs s1 = Inr (replicate (length envs) (Inr (Some bs)), s2)" "same_work s1 s2"
    using Cons.IH [OF s1(3)] Cons.prems s1(4) by auto
  with s1(1,2) same_work_trans show ?case by auto
qed

text \<open>The cache entry of a request that was answered.\<close>

lemma answered_entry:
  assumes "process_request lib env cfg data source secret role s = Inr (Inr (Some bs), s')" "Packet_decode data = Inr request"
    "pkt_code request = AccessRequest" "fresh request source s" "handler_ok (sc_auth_handler cfg)"
  shows "fmlookup (rc_cache (sv_cache s')) (fingerprint request source) = Some \<lparr>inserted_at = rq_now env,
       ce_digest = request_digest (sl_sha256 lib) secret data, ce_source = source, ce_reply = Some bs, replays = 0\<rparr>
    \<and> rc_ttl (sv_cache s') = rc_ttl (sv_cache s)"
proof -
  let ?fp = "fingerprint request source" and ?d = "request_digest (sl_sha256 lib) secret data"
  obtain sr where sr: "process_request lib env cfg data source secret role s = answer_request lib env cfg data request source secret sr s"
    "status_ready lib role request secret sr"
    by (rule accepted_request_answer [OF replied_request_accepted [OF assms(1,2)]])
  obtain c where c: "admission lib env data request source secret (sv_cache s) = (New, c)"
    "fmlookup (rc_cache c) ?fp = Some \<lparr>inserted_at = rq_now env, ce_digest = ?d, ce_source = source, ce_reply = None, replays = 0\<rparr>"
    "rc_ttl c = rc_ttl (sv_cache s)"
    by (rule admission_fresh [OF assms(4)])
  have ok: "packet_ok request" using Packet_decode_canonical assms(2) by blast
  obtain r s1 where h: "handle_code lib env cfg request source secret sr (s\<lparr>sv_cache := c\<rparr>) = Inr (r, s1)"
    "answered lib role request secret c r s1"
    using handle_code_answered [OF ok assms(5) sr(2), of "s\<lparr>sv_cache := c\<rparr>" env source] by (auto simp: returns_def)
  then have s1: "sv_cache s1 = c" by (simp add: answered_def)
  have "s' = s1\<lparr>sv_cache := store_reply c ?fp ?d bs\<rparr>"
    using assms(1,3) unfolding sr(1) answer_request_new [OF c(1) h(1)]
    by (auto simp: s1 split: sum.splits option.splits)
  then show ?thesis using c(2,3) by (simp add: store_reply_def)
qed

section \<open>Who is accepted\<close>

lemma add_message_authenticator_code:
  "add_message_authenticator hmac_md5 p ra secret = Inr q \<Longrightarrow> pkt_code q = pkt_code p"
  by (auto simp: add_message_authenticator_def res_simps Let_def add_attribute_def split: if_splits)

lemma seal_reply_code:
  assumes "seal_reply md5 hmac_md5 request secret p = Inr (Inr q)"
  shows "pkt_code q = pkt_code p"
  using assms
  by (auto simp: seal_reply_def add_message_authenticator_if_eap_def res_simps copy_proxy_state_eq
      dest: add_message_authenticator_code split: sum.splits if_splits)

lemma reject_reply_code [simp]: "pkt_code (reject_reply cfg request username h) = AccessReject"
  by (simp add: reject_reply_def Let_def split: option.split)

lemma challenge_reply_code: "challenge_reply cfg request username m st as h = Inr p \<Longrightarrow> pkt_code p = AccessChallenge"
  by (auto simp: challenge_reply_def res_simps Let_def split: option.splits)

lemma route_access_request_auth:
  "sv_auth (snd (route_access_request lib env cfg request source secret s)) = sv_auth s"
  by (simp add: route_access_request_def Let_def split: option.split bool.split prod.split RoutingDecision.split sum.split)

lemma conclude_access_accepts:
  assumes "conclude_access lib env cfg request ip secret username result s = Inr (Inr q, s')" "pkt_code q = AccessAccept"
  shows "(\<exists>as msk. result = AuthAccept as msk) \<and> (\<forall>d. policy_decision lib cfg request username = Some d \<longrightarrow> dec_effect d = EffectAccept)"
proof (cases result)
  case (AuthAccept as msk)
  have "dec_effect d = EffectAccept" if "policy_decision lib cfg request username = Some d" for d
  proof (rule ccontr)
    assume "dec_effect d \<noteq> EffectAccept"
    then have "dec_effect d = EffectReject" by (cases "dec_effect d") auto
    with assms(1) AuthAccept that have "seal_reply (sl_md5 lib) (sl_hmac lib) request secret (denied_reply request d) = Inr (Inr q)"
      by (auto simp: conclude_access_def Let_def res_simps split: sum.splits)
    from seal_reply_code [OF this] denied_reply_draft [of request d] assms(2) show False by simp
  qed
  with AuthAccept show ?thesis by blast
next
  case AuthReject
  with assms seal_reply_code show ?thesis by (fastforce simp: conclude_access_def Let_def res_simps)
next
  case (AuthChallenge m st as)
  with assms seal_reply_code challenge_reply_code show ?thesis
    by (fastforce simp: conclude_access_def Let_def res_simps split: sum.splits)
next
  case AuthDiscard
  with assms show ?thesis by (simp add: conclude_access_def Let_def)
qed

section \<open>Password login\<close>

lemma seal_reply_plain:
  assumes "draft request p" "packet_ok request" "\<not> carries_eap p" "filter is_proxy_state (pkt_attributes request) = []"
  shows "\<exists>q. seal_reply md5 hmac_md5 request secret p = Inr (Inr q) \<and> pkt_code q = pkt_code p \<and> pkt_attributes q = pkt_attributes p"
proof -
  have c: "copy_proxy_state request p = p"
    using assms(4) by (simp add: copy_proxy_state_eq is_proxy_state_def [abs_def])
  have "attributes_ok p" using assms(1) by (auto simp: attributes_ok_def draft_def clean_def)
  then show ?thesis
    using assms(3) by (simp add: seal_reply_def c add_message_authenticator_if_eap_def carries_eap_def calculate_response_ok)
qed

text \<open>The Access-Request of a NAS that asks for a user with a password.\<close>

definition login_packet :: "(bytes \<Rightarrow> arr16) \<Rightarrow> bytes \<Rightarrow> u8 \<Rightarrow> arr16 \<Rightarrow> string \<Rightarrow> string \<Rightarrow> u32 \<Rightarrow> Packet" where
  "login_packet md5 secret ident ra username password nas_ip =
     \<lparr>pkt_code = AccessRequest, pkt_identifier = ident, pkt_authenticator = ra, pkt_attributes =
       [\<lparr>attr_type = AttributeType_as_u8 UserName, attr_value = str_bytes username\<rparr>,
        \<lparr>attr_type = AttributeType_as_u8 UserPassword, attr_value = encrypt_user_password md5 password secret ra\<rparr>,
        \<lparr>attr_type = AttributeType_as_u8 NasIpAddress, attr_value = u32_to_be_bytes nas_ip\<rparr>]\<rparr>"

definition sendable_login :: "string \<Rightarrow> string \<Rightarrow> bool" where
  "sendable_login username password \<longleftrightarrow> valid_utf8 (str_bytes username) \<and> length username \<le> 253 \<and>
     valid_utf8 (str_bytes password) \<and> length password \<le> 240 \<and> (password = [] \<or> last password \<noteq> CHR 0x00)"

lemma login_packet_ok:
  assumes "sendable_login username password"
  shows "packet_ok (login_packet md5 secret ident ra username password nas_ip)"
proof -
  have "length (encrypt_user_password md5 password secret ra) = 16 * max 1 ((length password + 15) div 16)"
    using decrypt_encrypt_user_password(2) assms by (simp add: sendable_login_def)
  moreover have "(length password + 15) div 16 \<le> 255 div 16"
    using assms by (intro div_le_mono) (simp add: sendable_login_def)
  ultimately have "length (encrypt_user_password md5 password secret ra) \<le> 240" by (simp add: max_def)
  then show ?thesis
    using assms by (simp add: login_packet_def packet_ok_def attribute_ok_def Packet_length_eq encoded_length_def attr_consts pkt_consts
        sendable_login_def)
qed

lemma login_packet_valid:
  assumes "sendable_login username password"
  shows "validate_packet (login_packet md5 secret ident ra username password nas_ip) mode = Inr ()"
  using assms
  by (simp add: validate_packet_def login_packet_def validate_access_request_def has_attr_def find_attribute_def validate_attribute_def
      validate_string_attribute_def validate_ipv4_attribute_def as_string_def as_ipv4_def from_utf8_def
      sendable_login_def Let_def)


lemma simple_handler_ok: "handler_ok (simple_handler md5)"
proof -
  have "clean default_reject_attributes"
    by (auto simp: default_reject_attributes_def Attribute_string_def res_simps split: sum.split)
  moreover have "clean_result (default_authenticate_request md5 simple_authenticate h p secret)" for h p secret
    by (simp add: default_authenticate_request_def default_authenticate_with_challenge_def AuthResult_accept_def Let_def split: option.split)
  ultimately show ?thesis by (simp add: handler_ok_def simple_handler_def)
qed

lemma login_packet_fields:
  fixes md5 secret ident ra username password nas_ip
  defines "p \<equiv> login_packet md5 secret ident ra username password nas_ip"
  shows "pkt_code p = AccessRequest" "pkt_authenticator p = ra" "filter is_proxy_state (pkt_attributes p) = []"
    "find_attribute p (AttributeType_as_u8 ChapPassword) = None" "find_attribute p (AttributeType_as_u8 NasIpAddress) \<noteq> None"
    "\<not> carries_eap p" "filter is_ma (pkt_attributes p) = []"
    "find_attribute p (AttributeType_as_u8 UserPassword) = Some \<lparr>attr_type = AttributeType_as_u8 UserPassword,
       attr_value = encrypt_user_password md5 password secret ra\<rparr>"
  by (simp_all add: p_def login_packet_def is_proxy_state_def find_attribute_def carries_eap_def)

lemma login_packet_name:
  "valid_utf8 (str_bytes username) \<Longrightarrow> attribute_text (login_packet md5 secret ident ra username password nas_ip) UserName = Some username"
  by (simp add: attribute_text_def login_packet_def find_attribute_def as_string_def from_utf8_def res_ok_def)

lemma login_authenticated:
  assumes "sendable_login username password" "sc_auth_handler cfg = simple_handler md5"
  shows "authenticate_access cfg (login_packet md5 secret ident ra username password nas_ip) ip secret username h =
    (Inr (if fmlookup (sah_users h) username = Some password then AuthResult_accept else AuthReject), h)"
proof -
  let ?p = "login_packet md5 secret ident ra username password nas_ip"
  have "decrypt_user_password md5 (encrypt_user_password md5 password secret ra) secret ra = Inr password"
    using decrypt_encrypt_user_password(1) assms(1) by (simp add: sendable_login_def)
  then have "default_authenticate_request md5 simple_authenticate h ?p secret =
      (if fmlookup (sah_users h) username = Some password then AuthResult_accept else AuthReject)"
    using assms(1) unfolding default_authenticate_request_def login_packet_fields Let_def
    by (simp add: login_packet_name sendable_login_def res_ok_def default_authenticate_with_challenge_def simple_authenticate_def
        split: option.split)
  then show ?thesis unfolding authenticate_access_def login_packet_fields assms(2) by (simp add: simple_handler_def)
qed


text \<open>What \<open>ServerConfig::new\<close> sets up, over an in-memory user table.\<close>

definition plain_server :: "(bytes \<Rightarrow> arr16) \<Rightarrow> bytes \<Rightarrow> ('r, SimpleAuthHandler, 't, 'a) ServerConfig" where
  "plain_server md5 secret = fst (ServerConfig_new 0 secret (simple_handler md5))"

lemma plain_server_fields:
  "sc_auth_handler (plain_server md5 secret) = simple_handler md5" "sc_router (plain_server md5 secret) = None"
  "sc_config (plain_server md5 secret) = None" "sc_policy (plain_server md5 secret) = None"
  "sc_accounting_port (plain_server md5 secret) = Named Shared" "lg_sink (sc_audit_logger (plain_server md5 secret)) = None"
  by (simp_all add: plain_server_def ServerConfig_new_def)

lemma login_handled:
  fixes lib :: "('r, 'n) server_lib" and cfg :: "('r, SimpleAuthHandler, 't, 'a) ServerConfig"
  assumes "sendable_login username password"
    and p_def: "p = login_packet (sl_md5 lib) secret ident ra username password nas_ip"
    and cfg_def: "cfg = plain_server (sl_md5 lib) secret"
  shows "\<exists>q s'. handle_access_request lib env cfg p source secret s = Inr (Inr q, s') \<and> packet_ok q \<and>
    pkt_code q = (if fmlookup (sah_users (sv_auth s)) username = Some password then AccessAccept else AccessReject)"
proof -
  note f = login_packet_fields [of "sl_md5 lib" secret ident ra username password nas_ip, folded p_def]
  have route: "route_access_request lib env cfg p source secret s = (Inr (), s)"
    by (simp add: route_access_request_def cfg_def plain_server_fields)
  have name: "attribute_text p UserName = Some username"
    using assms(1) by (simp add: p_def login_packet_name sendable_login_def)
  have nas: "check_nas lib cfg p (sock_ip source) = Inr ()"
    using f(5) by (simp add: check_nas_def client_of_def cfg_def plain_server_fields)
  have ok: "packet_ok p" using login_packet_ok [OF assms(1)] by (simp add: p_def)
  have hd: "eap_head p = None" using f(6) find_attribute_eap [of p] by (simp add: eap_head_def)
  let ?result = "if fmlookup (sah_users (sv_auth s)) username = Some password then AuthResult_accept else AuthReject"
  have auth: "authenticate_access cfg p (sock_ip source) secret username (sv_auth s) = (Inr ?result, sv_auth s)"
    using login_authenticated [OF assms(1), of cfg "sl_md5 lib"] by (simp add: p_def cfg_def plain_server_fields)
  have log: "log_event lib cfg e t = t" for e t
    by (simp add: log_event_def audit_log_def cfg_def plain_server_fields)
  have eq: "handle_access_request lib env cfg p source secret s =
      conclude_access lib env cfg p (sock_ip source) secret username ?result s"
    by (simp add: handle_access_request_def route name nas auth log)
  have small: "packet_ok q" if "pkt_attributes q = pkt_attributes x" "draft p x" "Packet_length x \<le> 100" for q x :: Packet
    using that by (auto simp: packet_ok_def draft_def clean_def Packet_length_eq pkt_consts)
  have sealed: "\<exists>q s'. res_bind (seal_reply (sl_md5 lib) (sl_hmac lib) p secret x) (\<lambda>r. Inr (r, s)) = Inr (Inr q, s') \<and> packet_ok q \<and> pkt_code q = k"
    if "draft p x \<and> pkt_code x = k" "\<not> carries_eap x" "Packet_length x \<le> 100" for x k
    using seal_reply_plain [OF _ ok that(2) f(3), of "sl_md5 lib" "sl_hmac lib" secret] small [of _ x] that(1,3) by fastforce
  show ?thesis
  proof (cases "fmlookup (sah_users (sv_auth s)) username = Some password")
    case True
    let ?x = "add_attributes (add_attributes (Packet_new AccessAccept (pkt_identifier p) zero_auth) []) []"
    have "accept_reply lib env cfg p secret username [] None (sv_auth s) = Inr ?x"
      by (simp add: accept_reply_def cfg_def plain_server_fields simple_handler_def)
    moreover have "policy_decision lib cfg p username = None" by (simp add: policy_decision_def cfg_def plain_server_fields)
    ultimately have "conclude_access lib env cfg p (sock_ip source) secret username ?result s =
        res_bind (seal_reply (sl_md5 lib) (sl_hmac lib) p secret ?x) (\<lambda>r. Inr (r, s))"
      using True by (simp add: conclude_access_def AuthResult_accept_def log Let_def)
    moreover have "draft p ?x \<and> pkt_code ?x = AccessAccept" "\<not> carries_eap ?x" "Packet_length ?x \<le> 100"
      by (simp_all add: draft_def carries_eap_def Packet_length_eq)
    ultimately show ?thesis using sealed [of ?x AccessAccept] True eq by simp
  next
    case False
    let ?x = "reject_reply cfg p username (sv_auth s)"
    have a: "pkt_attributes ?x = default_reject_attributes"
      by (simp add: reject_reply_def hd cfg_def plain_server_fields simple_handler_def)
    have "conclude_access lib env cfg p (sock_ip source) secret username ?result s =
        res_bind (seal_reply (sl_md5 lib) (sl_hmac lib) p secret ?x) (\<lambda>r. Inr (r, s))"
      using False by (simp add: conclude_access_def log Let_def)
    moreover have "\<not> carries_eap ?x" "Packet_length ?x \<le> 100"
      by (simp_all add: carries_eap_def Packet_length_eq a default_reject_attributes_def Attribute_string_def Attribute_new_def
          attr_consts encoded_length_def)
    ultimately show ?thesis
      using sealed [OF reject_reply_draft, of cfg] False eq simple_handler_ok by (simp add: cfg_def plain_server_fields)
  qed
qed

lemma password_login_reply:
  fixes lib :: "('r, 'n) server_lib" and s :: "(SimpleAuthHandler, 'a) ServerState" and env :: "'t request_env"
  assumes "sendable_login username password" "role \<noteq> RoleAccounting"
    and "fresh (login_packet (sl_md5 lib) secret ident ra username password nas_ip) source s"
  shows "\<exists>bs q s'. process_request lib env (plain_server (sl_md5 lib) secret)
        (packet_bytes (login_packet (sl_md5 lib) secret ident ra username password nas_ip)) source secret role s = Inr (Inr (Some bs), s')
    \<and> Packet_decode bs = Inr q
    \<and> pkt_code q = (if fmlookup (sah_users (sv_auth s)) username = Some password then AccessAccept else AccessReject)"
proof -
  let ?p = "login_packet (sl_md5 lib) secret ident ra username password nas_ip"
  let ?cfg = "plain_server (sl_md5 lib) secret :: ('r, SimpleAuthHandler, 't, 'a) ServerConfig"
  have ok: "packet_ok ?p" by (rule login_packet_ok [OF assms(1)])
  have dec: "Packet_decode (packet_bytes ?p) = Inr ?p" using Packet_decode_bytes [OF ok, of "[]"] by simp
  have "accepted_request lib ?cfg (packet_bytes ?p) secret role ?p"
    using dec login_packet_valid [OF assms(1)] login_packet_fields(1,6,7) assms(2)
    by (cases role) (auto simp: accepted_request_def genuine_request_def)
  then obtain sr where sr: "process_request lib env ?cfg (packet_bytes ?p) source secret role s
      = answer_request lib env ?cfg (packet_bytes ?p) ?p source secret sr s"
    by (rule accepted_request_answer)
  obtain c where c: "admission lib env (packet_bytes ?p) ?p source secret (sv_cache s) = (New, c)"
    by (rule admission_fresh [OF assms(3)])
  obtain q s1 where h: "handle_access_request lib env ?cfg ?p source secret (s\<lparr>sv_cache := c\<rparr>) = Inr (Inr q, s1)" "packet_ok q"
    "pkt_code q = (if fmlookup (sah_users (sv_auth s)) username = Some password then AccessAccept else AccessReject)"
    using login_handled [OF assms(1) refl refl, where lib = lib and env = env and source = source
        and s = "s\<lparr>sv_cache := c\<rparr>" and secret = secret and ident = ident and ra = ra and nas_ip = nas_ip] by auto
  then have "handle_code lib env ?cfg ?p source secret sr (s\<lparr>sv_cache := c\<rparr>) = Inr (Inr (Some q), s1)"
    by (simp add: handle_code_def login_packet_fields(1))
  from answer_request_new [OF c this] h(2) have "\<exists>s'. process_request lib env ?cfg (packet_bytes ?p) source secret role s
      = Inr (Inr (Some (packet_bytes q)), s')"
    by (auto simp: sr Packet_encode_Inr_iff [THEN iffD2])
  moreover have "Packet_decode (packet_bytes q) = Inr q" using Packet_decode_bytes [OF h(2), of "[]"] by simp
  ultimately show ?thesis using h(3) by blast
qed

section \<open>Denials\<close>

lemma add_if_ok_types:
  "(\<And>a. x = Inr a \<Longrightarrow> attr_type a = t) \<Longrightarrow> attr_type ` set (pkt_attributes (add_if_ok x p)) \<subseteq> attr_type ` set (pkt_attributes p) \<union> {t}"
  by (cases x) (auto simp: add_if_ok_def)

lemma add_reply_message_types:
  "attr_type ` set (pkt_attributes (add_reply_message m p)) \<subseteq> attr_type ` set (pkt_attributes p) \<union> {AttributeType_as_u8 ReplyMessage}"
proof (cases m)
  case (Some x)
  show ?thesis unfolding add_reply_message_def Some option.case
    by (intro add_if_ok_types) (auto simp: Attribute_string_def res_simps)
qed (auto simp: add_reply_message_def)

lemma denied_reply_types:
  "attr_type ` set (pkt_attributes (denied_reply request d)) \<subseteq> {AttributeType_as_u8 EapMessage, AttributeType_as_u8 ReplyMessage}"
proof -
  let ?p = "Packet_new AccessReject (pkt_identifier request) zero_auth"
  let ?e = "case eap_head request of Some (_, i) \<Rightarrow> add_if_ok (eap_failure_attribute i) ?p | None \<Rightarrow> ?p"
  have "attr_type ` set (pkt_attributes (add_if_ok (eap_failure_attribute i) ?p)) \<subseteq> attr_type ` set (pkt_attributes ?p) \<union> {AttributeType_as_u8 EapMessage}" for i
    by (rule add_if_ok_types) (auto simp: eap_failure_attribute_def res_simps)
  then have "attr_type ` set (pkt_attributes ?e) \<subseteq> {AttributeType_as_u8 EapMessage}"
    by (auto split: option.split)
  with add_reply_message_types [of "dec_reply_message d" ?e] show ?thesis
    unfolding denied_reply_def Let_def by blast
qed

lemma add_message_authenticator_types:
  "add_message_authenticator hmac_md5 p ra secret = Inr q \<Longrightarrow> map attr_type (pkt_attributes q) =
     map attr_type (pkt_attributes p) @ (if list_ex is_ma (pkt_attributes p) then [] else [MA_TYPE])"
  by (auto simp: add_message_authenticator_def add_attribute_def map_update_first res_simps Let_def split: if_splits)

lemma seal_reply_types:
  assumes "seal_reply md5 hmac_md5 request secret p = Inr (Inr q)"
  shows "set (map attr_type (pkt_attributes q)) \<subseteq> set (map attr_type (pkt_attributes p)) \<union> {AttributeType_as_u8 ProxyState, MA_TYPE}"
proof -
  let ?c = "copy_proxy_state request p"
  obtain r where r: "add_message_authenticator_if_eap hmac_md5 ?c (pkt_authenticator request) secret = Inr r"
    "pkt_attributes q = pkt_attributes r"
    using assms by (auto simp: seal_reply_def res_simps split: sum.splits)
  have "set (map attr_type (pkt_attributes r)) \<subseteq> set (map attr_type (pkt_attributes ?c)) \<union> {MA_TYPE}"
  proof (cases "carries_eap ?c")
    case False
    then show ?thesis using r(1) by (auto simp: add_message_authenticator_if_eap_def carries_eap_def)
  next
    case True
    then have "add_message_authenticator hmac_md5 ?c (pkt_authenticator request) secret = Inr r"
      using r(1) by (simp add: add_message_authenticator_if_eap_def carries_eap_def)
    from add_message_authenticator_types [OF this] have "set (map attr_type (pkt_attributes r)) =
        set (map attr_type (pkt_attributes ?c) @ (if list_ex is_ma (pkt_attributes ?c) then [] else [MA_TYPE]))" by simp
    then show ?thesis by auto
  qed
  then show ?thesis using r(2) by (auto simp: copy_proxy_state_eq)
qed

section \<open>Requests nobody answers\<close>

lemma process_duplicate:
  assumes "accepted_request lib cfg data secret role request"
    "fmlookup (rc_cache (sv_cache s)) (fingerprint request source) = Some e" "ce_digest e = request_digest (sl_sha256 lib) secret data"
    "ce_reply e = None \<or> pkt_code request \<noteq> AccessRequest" "rq_now env \<le> inserted_at e + rc_ttl (sv_cache s)"
  shows "\<exists>entry c. process_request lib env cfg data source secret role s = Inr (Inl DuplicateRequest, log_event lib cfg entry (s\<lparr>sv_cache := c\<rparr>))"
proof -
  obtain sr where sr: "process_request lib env cfg data source secret role s = answer_request lib env cfg data request source secret sr s"
    by (rule accepted_request_answer [OF assms(1)])
  obtain a c where adm: "admission lib env data request source secret (sv_cache s) = (a, c)" by fastforce
  have "make_room (sl_entry_walk lib) (sv_cache s) (fingerprint request source) = sv_cache s"
    using assms(2) by (simp add: make_room_def room_victim_def)
  moreover have "\<not> expired (sv_cache s) (rq_now env) e" using assms(5) by (auto simp: expired_def duration_since_def)
  ultimately have "a \<noteq> New" "pkt_code request \<noteq> AccessRequest \<or> (\<forall>bs. a \<noteq> Replay bs)"
    using adm assms(2-4) by (auto simp: admission_def admit_def admit_entry_def Let_def split: if_splits option.splits)
  from answer_request_duplicate [OF adm this, of cfg sr] sr show ?thesis by auto
qed

lemma start_twice:
  assumes "handle_start ts h i u ip packet = (Inr r, h')" "session_timeout h = 0"
  shows "handle_start ts' h' i u ip packet = (Inl (DuplicateSession i), h')"
proof -
  obtain t0 t1 t2 where ts: "ts = (t0, t1, t2)" by (cases ts)
  have "h' = start_insert t1 t2 h i u ip"
    using assms by (auto simp: ts handle_start_def start_check_def cleanup_stale_sessions_def split: if_splits)
  then have "fmlookup (acct_sessions h') i \<noteq> None" "session_timeout h' = 0" using assms(2) by (simp_all add: start_insert_def)
  then show ?thesis by (cases ts') (simp add: handle_start_def start_check_def cleanup_stale_sessions_def)
qed

lemma account_start_twice:
  assumes "account simple_accounting now status request ip h = (Inr r, h')" "status = StatusStart" "session_timeout h = 0"
  shows "\<exists>i. account simple_accounting now' status request ip h' = (Inl (ServerAccounting (DuplicateSession i)), h')"
proof -
  obtain i u where iu: "attribute_text request AcctSessionId = Some i" "attribute_text request UserName = Some u"
    using assms(1,2) by (auto simp: account_def split: option.splits)
  obtain x where "handle_start now h i u ip request = (x, h')" "map_err ServerAccounting x = Inr r"
    using assms(1,2) iu by (auto simp: account_def simple_accounting_def split: prod.splits)
  then have "handle_start now h i u ip request = (Inr r, h')" by (auto simp: res_simps)
  from start_twice [OF this assms(3)] iu assms(2) show ?thesis
    by (auto simp: account_def simple_accounting_def)
qed

section \<open>A small server\<close>

definition sample_server_lib :: "(unit, IpAddr) server_lib" where
  "sample_server_lib = \<lparr>sl_md5 = (\<lambda>bs. arr16_of (take 16 bs)), sl_hmac = (\<lambda>k bs. arr16_of (take 16 (k @ bs))),
     sl_sha256 = (\<lambda>bs. arr32_of (take 32 bs)), sl_config = sample_config_lib, sl_is_match = (\<lambda>_ _. False), sl_text = sample_text,
     sl_show_ipv6 = (\<lambda>_. ''::''), sl_context_walk = (\<lambda>_. []), sl_entry_walk = (\<lambda>_. []), sl_round = id, sl_net = (\<lambda>_. None),
     sl_written = (\<lambda>_. True)\<rparr>"

definition sample_audit :: audit_lib where
  "sample_audit = \<lparr>al_now = (\<lambda>_. 0), al_iso = (\<lambda>_. []), al_show_ip = (\<lambda>_. []), al_version = ''1''\<rparr>"

definition sample_draw :: "instant \<Rightarrow> (u64 \<times> u64 \<times> u64) request_env" where
  "sample_draw now = \<lparr>rq_limit = (now, now), rq_now = now, rq_audit = sample_audit, rq_pick = 0, rq_clock = 0, rq_sent = now,
     rq_salt = 0, rq_acct = (0, 0, 0)\<rparr>"

definition sample_state :: "(SimpleAuthHandler, SimpleAccountingHandler) ServerState" where
  "sample_state = \<lparr>sv_auth = add_user SimpleAuthHandler_new ''nemo'' ''arctangent'', sv_acct = AccountingHandler_with_config 0 0,
     sv_cache = RequestCache_new (from_secs 60) 10000, sv_limiter = RateLimiter_new 0 RateLimitConfig_default,
     sv_proxy = sample_world, sv_pools = (\<lambda>_. \<lparr>pool_name = ''p'', pool_servers = [], pool_strategy = RoundRobin, round_robin_counter = 0\<rparr>),
     sv_audit = [], sv_replayed = 0\<rparr>"

definition sample_peer :: SocketAddr where
  "sample_peer = SocketAddrV4 0x0A000001 50000"

definition sample_login :: Packet where
  "sample_login = login_packet (sl_md5 sample_server_lib) [0x73] 7 (arr16_of [1]) ''nemo'' ''arctangent'' 0x0A000001"

type_synonym sample_cfg = "(unit, SimpleAuthHandler, u64 \<times> u64 \<times> u64, SimpleAccountingHandler) ServerConfig"

abbreviation sample_plain :: sample_cfg where
  "sample_plain \<equiv> plain_server (sl_md5 sample_server_lib) [0x73]"

lemma sample_sendable: "sendable_login ''nemo'' ''arctangent''"
proof -
  have "valid_utf8 (str_bytes ''nemo'')" "valid_utf8 (str_bytes ''arctangent'')"
    by (rule valid_utf8_ascii, simp add: str_bytes_def of_char_def)+
  then show ?thesis by (simp add: sendable_login_def)
qed

lemma sample_fresh: "fresh p source sample_state"
  by (simp add: fresh_def sample_state_def RequestCache_new_def)

lemma sample_user: "fmlookup (sah_users (sv_auth sample_state)) ''nemo'' = Some ''arctangent''"
  by (simp add: sample_state_def add_user_def)

lemma sample_login_reply:
  "\<exists>bs s'. process_request sample_server_lib (sample_draw 1) sample_plain (packet_bytes sample_login) sample_peer [0x73] RoleAuth sample_state
     = Inr (Inr (Some bs), s')"
  using password_login_reply [OF sample_sendable, of RoleAuth sample_server_lib "[0x73]" 7 "arr16_of [1]" "0x0A000001" sample_peer sample_state "sample_draw 1"]
    sample_fresh by (auto simp: sample_login_def)

lemma sample_login_decodes: "Packet_decode (packet_bytes sample_login) = Inr sample_login" "pkt_code sample_login = AccessRequest"
  using Packet_decode_bytes [OF login_packet_ok [OF sample_sendable], of _ _ _ _ _ "[]"]
  by (simp_all add: sample_login_def login_packet_fields(1))

section \<open>Properties\<close>

text \<open>
  C1. Every reply of a run is authentic. Whatever was processed before, octets sent in answer to a
  request belong to a request that is itself authentic under the shared secret, and they decode to
  a packet with a code that answers it, its identifier, the Response Authenticator for it, a right
  Message-Authenticator where EAP requires one, and its Proxy-States. The only way out is an
  earlier, different request of the same run with the same SHA-256 digest.
\<close>

theorem every_reply_authentic:
  assumes "server_run lib cfgs hist s" "handler_ok (sc_auth_handler cfg)"
    and "process_request lib env cfg data source secret role s = Inr (Inr (Some bs), s')"
  shows "\<exists>request. Packet_decode data = Inr request \<and> genuine_request (sl_md5 lib) (sl_hmac lib) request secret \<and>
    (answers lib role request secret bs \<or>
     (\<exists>data' secret'. (data', secret') \<in> set hist \<and> (data', secret') \<noteq> (data, secret) \<and>
        request_digest (sl_sha256 lib) secret' data' = request_digest (sl_sha256 lib) secret data))"
  using returnsD [OF process_request_step [OF assms(2) server_run_stored [OF assms(1)]] assms(3)]
  by (auto simp: step_ok_def)

theorem every_reply_authentic_witness:
  "\<exists>bs s' request. process_request sample_server_lib (sample_draw 1) sample_plain (packet_bytes sample_login) sample_peer [0x73] RoleAuth sample_state
     = Inr (Inr (Some bs), s') \<and> Packet_decode (packet_bytes sample_login) = Inr request \<and> answers sample_server_lib RoleAuth request [0x73] bs"
proof -
  obtain bs s' where r: "process_request sample_server_lib (sample_draw 1) sample_plain (packet_bytes sample_login) sample_peer [0x73] RoleAuth sample_state
     = Inr (Inr (Some bs), s')" using sample_login_reply by blast
  have run: "server_run sample_server_lib {sample_plain} [] sample_state"
    by (rule server_run.start) (simp add: sample_state_def RequestCache_new_def)
  have "handler_ok (sc_auth_handler sample_plain)" by (simp add: plain_server_fields simple_handler_ok)
  from every_reply_authentic [OF run this r] r show ?thesis by auto
qed



text \<open>
  C8. A packet that fails authentication leaves no trace: if the pipeline changes anything at all or
  sends anything, the datagram decodes to a valid packet of a code this listener serves which is
  authentic under the shared secret.
\<close>

theorem unauthenticated_leaves_no_trace:
  assumes "process_request lib env cfg data source secret role s = Inr (r, s')" "s' \<noteq> s \<or> r = Inr (Some bs)"
  shows "\<exists>request. Packet_decode data = Inr request \<and> validate_packet request (validation_mode cfg) = Inr () \<and>
    admits role (pkt_code request) (accepts_accounting_on_auth_socket (sc_accounting_port cfg)) \<and>
    genuine_request (sl_md5 lib) (sl_hmac lib) request secret"
proof (rule ccontr)
  assume "\<not> ?thesis"
  from returnsD [OF process_request_refused [OF this] assms(1)] assms(2) show False by auto
qed

theorem unauthenticated_leaves_no_trace_witness:
  "\<exists>request. Packet_decode (packet_bytes sample_login) = Inr request \<and> validate_packet request (validation_mode sample_plain) = Inr () \<and>
     admits RoleAuth (pkt_code request) (accepts_accounting_on_auth_socket (sc_accounting_port sample_plain)) \<and>
     genuine_request (sl_md5 sample_server_lib) (sl_hmac sample_server_lib) request [0x73]"
proof -
  obtain bs s' where "process_request sample_server_lib (sample_draw 1) sample_plain (packet_bytes sample_login) sample_peer [0x73] RoleAuth sample_state
     = Inr (Inr (Some bs), s')" using sample_login_reply by blast
  from unauthenticated_leaves_no_trace [OF this] show ?thesis by blast
qed

text \<open>
  C9. Retransmissions of an answered Access-Request, up to eight within the lifetime of its cache entry,
  get the octets of the first reply again. The authentication handler, the accounting handler, the
  proxy and the audit log do not see them.
\<close>

theorem retransmissions_get_same_reply:
  assumes "process_request lib env cfg data source secret role s = Inr (Inr (Some bs), s1)" "Packet_decode data = Inr request"
    "pkt_code request = AccessRequest" "fresh request source s" "handler_ok (sc_auth_handler cfg)"
    and "length envs \<le> 8" "\<forall>env' \<in> set envs. rq_now env' \<le> rq_now env + rc_ttl (sv_cache s)"
  shows "\<exists>s2. resend lib cfg data source secret role envs s1 = Inr (replicate (length envs) (Inr (Some bs)), s2)
    \<and> sv_auth s2 = sv_auth s1 \<and> sv_acct s2 = sv_acct s1 \<and> sv_proxy s2 = sv_proxy s1 \<and> sv_audit s2 = sv_audit s1"
proof -
  note e = answered_entry [OF assms(1-5)]
  have "\<exists>s2. resend lib cfg data source secret role envs s1 = Inr (replicate (length envs) (Inr (Some bs)), s2) \<and> same_work s1 s2"
    by (rule resend_replays [OF replied_request_accepted [OF assms(1,2)] assms(3) e [THEN conjunct1]])
      (use assms(6,7) e in auto)
  then show ?thesis by (auto simp: same_work_def)
qed

theorem retransmissions_get_same_reply_witness:
  "\<exists>bs s1 s2. process_request sample_server_lib (sample_draw 1) sample_plain (packet_bytes sample_login) sample_peer [0x73] RoleAuth sample_state
     = Inr (Inr (Some bs), s1)
   \<and> resend sample_server_lib sample_plain (packet_bytes sample_login) sample_peer [0x73] RoleAuth [sample_draw 2, sample_draw 3] s1
     = Inr ([Inr (Some bs), Inr (Some bs)], s2)"
proof -
  obtain bs s1 where r: "process_request sample_server_lib (sample_draw 1) sample_plain (packet_bytes sample_login) sample_peer [0x73] RoleAuth sample_state
     = Inr (Inr (Some bs), s1)" using sample_login_reply by blast
  have t: "\<forall>env' \<in> set [sample_draw 2, sample_draw 3]. rq_now env' \<le> rq_now (sample_draw 1) + rc_ttl (sv_cache sample_state)"
    by (simp add: sample_draw_def sample_state_def RequestCache_new_def from_secs_def)
  have "handler_ok (sc_auth_handler sample_plain)" by (simp add: plain_server_fields simple_handler_ok)
  from retransmissions_get_same_reply [OF r sample_login_decodes sample_fresh this _ t] r show ?thesis
    by (auto simp: numeral_2_eq_2)
qed

text \<open>
  C4. End to end over the wire: a server set up by \<open>ServerConfig::new\<close> answers a password login, sent
  by a NAS with the shared secret and not yet remembered, with an Access-Accept exactly if the
  password is the user's, and with an Access-Reject otherwise.
\<close>

theorem password_login:
  fixes lib :: "('r, 'n) server_lib" and s :: "(SimpleAuthHandler, 'a) ServerState" and env :: "'t request_env"
  assumes "sendable_login username password" "role \<noteq> RoleAccounting"
    and "fresh (login_packet (sl_md5 lib) secret ident ra username password nas_ip) source s"
  shows "\<exists>bs q s'. process_request lib env (plain_server (sl_md5 lib) secret)
        (packet_bytes (login_packet (sl_md5 lib) secret ident ra username password nas_ip)) source secret role s = Inr (Inr (Some bs), s')
    \<and> Packet_decode bs = Inr q
    \<and> pkt_code q = (if fmlookup (sah_users (sv_auth s)) username = Some password then AccessAccept else AccessReject)"
  by (rule password_login_reply [OF assms])

theorem password_login_witness:
  "\<exists>bs q s'. process_request sample_server_lib (sample_draw 1) sample_plain (packet_bytes sample_login) sample_peer [0x73] RoleAuth sample_state
     = Inr (Inr (Some bs), s') \<and> Packet_decode bs = Inr q \<and> pkt_code q = AccessAccept"
  using password_login [OF sample_sendable, of RoleAuth sample_server_lib "[0x73]" 7 "arr16_of [1]" "0x0A000001" sample_peer sample_state "sample_draw 1"]
    sample_fresh sample_user by (auto simp: sample_login_def)

text \<open>
  C10. An Access-Accept is sent only for a request that routing left to this server, that names a user
  and a permitted NAS, that the authentication handler accepted, and that the authorization policy,
  if one is loaded, does not deny.
\<close>

theorem accept_needs_credentials_and_policy:
  assumes "handle_access_request lib env cfg request source secret s = Inr (Inr q, s')" "pkt_code q = AccessAccept"
  shows "\<exists>username as msk h. attribute_text request UserName = Some username
    \<and> fst (route_access_request lib env cfg request source secret s) = Inr ()
    \<and> check_nas lib cfg request (sock_ip source) = Inr ()
    \<and> authenticate_access cfg request (sock_ip source) secret username (sv_auth s) = (Inr (AuthAccept as msk), h)
    \<and> (case policy_decision lib cfg request username of None \<Rightarrow> True | Some d \<Rightarrow> dec_effect d = EffectAccept)"
proof -
  obtain x s1 where route: "route_access_request lib env cfg request source secret s = (x, s1)" by fastforce
  with route_access_request_auth [of lib env cfg request source secret s] have s1: "sv_auth s1 = sv_auth s" by simp
  note h = assms(1) [unfolded handle_access_request_def Let_def route]
  from h obtain u where x: "x = Inr u" by (cases x) auto
  with h obtain username where name: "attribute_text request UserName = Some username" by (cases "attribute_text request UserName") auto
  with h x obtain n where nas: "check_nas lib cfg request (sock_ip source) = Inr n"
    by (cases "check_nas lib cfg request (sock_ip source)") auto
  obtain y ah where auth: "authenticate_access cfg request (sock_ip source) secret username (sv_auth s) = (y, ah)" by fastforce
  with h x name nas s1 obtain result where y: "y = Inr result" by (cases y) auto
  with h x name nas s1 auth have "conclude_access lib env cfg request (sock_ip source) secret username result
      (log_event lib cfg (auth_event lib env cfg AuditAuthAttempt username (sock_ip source) request) s1\<lparr>sv_auth := ah\<rparr>) = Inr (Inr q, s')"
    by simp
  from conclude_access_accepts [OF this assms(2)] route x name nas auth y show ?thesis
    by (auto split: option.split)
qed

theorem accept_needs_credentials_and_policy_witness:
  "\<exists>username as msk h. attribute_text sample_login UserName = Some username
   \<and> authenticate_access sample_plain sample_login (sock_ip sample_peer) [0x73] username (sv_auth sample_state) = (Inr (AuthAccept as msk), h)"
proof -
  obtain q s' where "handle_access_request sample_server_lib (sample_draw 1) sample_plain sample_login sample_peer [0x73] sample_state = Inr (Inr q, s')"
    "pkt_code q = AccessAccept"
    using login_handled [OF sample_sendable sample_login_def refl, where env = "sample_draw 1" and source = sample_peer and s = sample_state] sample_user
    by auto
  from accept_needs_credentials_and_policy [OF this] show ?thesis by blast
qed

text \<open>
  C19. Probe and server fit together: a probe built by the health checker of a proxy for a home server
  that runs this pipeline, with the same secret, is answered, and the answer makes the probe a
  success on either port, unless the server still remembers a request with the probe's
  fingerprint.
\<close>

theorem probe_finds_server_alive:
  assumes "fresh (probe_packet (sl_hmac lib) (hs_secret server) ident ra) source s"
  shows "\<exists>data bs s'. build_probe (sl_hmac lib) ra ident (hs_secret server) = Inr (data, ident, ra)
    \<and> process_request lib env cfg data source (hs_secret server) role s = Inr (Inr (Some bs), s')
    \<and> probe_over_udp (sl_md5 lib) (sl_hmac lib) ra ident True (\<lambda>_. True) [(bs, hs_address server)] server stats
       = Inr (record_success stats)"
proof -
  obtain bs q s' where r: "process_request lib env cfg (packet_bytes (probe_packet (sl_hmac lib) (hs_secret server) ident ra)) source
      (hs_secret server) role s = Inr (Inr (Some bs), s')"
    "Packet_decode bs = Inr q" "length bs \<le> 4096" "genuine_packet (sl_md5 lib) (sl_hmac lib) (hs_secret server) ident ra q"
    using status_probe_reply [OF assms, of env cfg role] by blast
  then have "genuine_reply (sl_md5 lib) (sl_hmac lib) server ident ra (bs, hs_address server)"
    by (auto simp: genuine_reply_def same_peer_def)
  then show ?thesis using r(1)
    by (intro exI [of _ "packet_bytes (probe_packet (sl_hmac lib) (hs_secret server) ident ra)"] exI [of _ bs] exI [of _ s'])
      (auto simp: build_probe_def build_probe_with_eq udp_probe_verdict_eq)
qed

theorem probe_finds_server_alive_witness:
  "\<exists>data bs s'. build_probe (sl_hmac sample_server_lib) (arr16_of [5]) 9 (hs_secret (pw_servers sample_world 0)) = Inr (data, 9, arr16_of [5])
    \<and> process_request sample_server_lib (sample_draw 1) sample_plain data sample_peer (hs_secret (pw_servers sample_world 0)) RoleAuth sample_state
       = Inr (Inr (Some bs), s')
    \<and> probe_over_udp (sl_md5 sample_server_lib) (sl_hmac sample_server_lib) (arr16_of [5]) 9 True (\<lambda>_. True)
         [(bs, hs_address (pw_servers sample_world 0))] (pw_servers sample_world 0) HealthCheckStats_new
       = Inr (record_success HealthCheckStats_new)"
  by (rule probe_finds_server_alive [OF sample_fresh])


definition sample_policy :: PolicyConfig where
  "sample_policy = \<lparr>policy_sets = [\<lparr>set_id = ''s'', set_name = ''s'', set_enabled = False, set_condition = CondAlways, set_rules = []\<rparr>],
     authz_profiles = [], default_profile = None\<rparr>"

lemma sample_policy_denies:
  "policy_decision sample_server_lib (with_policy sample_policy sample_plain) sample_login ''nemo'' = Some (Decision_reject ''no policy set matched'')"
  by (simp add: policy_decision_def with_policy_def sample_policy_def evaluate_def)


text \<open>
  C38. A request the routing rejects gets no Access-Reject: the pipeline ends in an error without a
  reply, and so do the NAS's retransmissions as long as the request is remembered.
\<close>

theorem routing_reject_is_silent:
  assumes "accepted_request lib cfg data secret role request" "pkt_code request = AccessRequest" "fresh request source s"
    "sc_router cfg = Some router" "sc_proxy_handler cfg"
    "fst (route_request (sl_is_match lib) (rq_pick env) (pw_servers (sv_proxy s)) (sv_pools s) router request) = Reject"
    "rq_now env' \<le> rq_now env + rc_ttl (sv_cache s)"
  shows "\<exists>s1 s2. process_request lib env cfg data source secret role s = Inr (Inl AuthFailed, s1)
    \<and> process_request lib env' cfg data source secret role s1 = Inr (Inl DuplicateRequest, s2)"
proof -
  obtain sr where sr: "process_request lib env cfg data source secret role s = answer_request lib env cfg data request source secret sr s"
    by (rule accepted_request_answer [OF assms(1)])
  obtain c where c: "admission lib env data request source secret (sv_cache s) = (New, c)"
    "fmlookup (rc_cache c) (fingerprint request source) = Some \<lparr>inserted_at = rq_now env,
       ce_digest = request_digest (sl_sha256 lib) secret data, ce_source = source, ce_reply = None, replays = 0\<rparr>"
    "rc_ttl c = rc_ttl (sv_cache s)"
    by (rule admission_fresh [OF assms(3)])
  obtain ps where ps: "route_request (sl_is_match lib) (rq_pick env) (pw_servers (sv_proxy s)) (sv_pools s) router request = (Reject, ps)"
    using assms(6) by (metis prod.collapse)
  let ?s1 = "s\<lparr>sv_cache := c, sv_pools := ps\<rparr>"
  have "handle_code lib env cfg request source secret sr (s\<lparr>sv_cache := c\<rparr>) = Inr (Inl AuthFailed, ?s1)"
    using ps assms(2,4,5) by (simp add: handle_code_def handle_access_request_def route_access_request_def Let_def)
  from answer_request_new [OF c(1) this] sr have "process_request lib env cfg data source secret role s = Inr (Inl AuthFailed, ?s1)"
    by simp
  moreover have "\<exists>entry c'. process_request lib env' cfg data source secret role ?s1 =
      Inr (Inl DuplicateRequest, log_event lib cfg entry (?s1\<lparr>sv_cache := c'\<rparr>))"
    by (rule process_duplicate [OF assms(1)]) (use c(2,3) assms(7) in auto)
  ultimately show ?thesis by blast
qed

theorem routing_reject_is_silent_witness:
  "\<exists>s1 s2. process_request sample_server_lib (sample_draw 1) (sample_plain\<lparr>sc_router := Some (Router_new [] (Some ''corp'')), sc_proxy_handler := True\<rparr>)
      (packet_bytes sample_login) sample_peer [0x73] RoleAuth sample_state = Inr (Inl AuthFailed, s1)
    \<and> process_request sample_server_lib (sample_draw 2) (sample_plain\<lparr>sc_router := Some (Router_new [] (Some ''corp'')), sc_proxy_handler := True\<rparr>)
      (packet_bytes sample_login) sample_peer [0x73] RoleAuth s1 = Inr (Inl DuplicateRequest, s2)"
proof (rule routing_reject_is_silent [OF _ sample_login_decodes(2) sample_fresh])
  let ?cfg = "sample_plain\<lparr>sc_router := Some (Router_new [] (Some ''corp'')), sc_proxy_handler := True\<rparr>"
  obtain bs s' where "process_request sample_server_lib (sample_draw 1) sample_plain (packet_bytes sample_login) sample_peer [0x73] RoleAuth sample_state
     = Inr (Inr (Some bs), s')" using sample_login_reply by blast
  from replied_request_accepted [OF this sample_login_decodes(1)]
  show "accepted_request sample_server_lib ?cfg (packet_bytes sample_login) [0x73] RoleAuth sample_login"
    by (simp add: accepted_request_def validation_mode_def sample_login_decodes(2))
  show "fst (route_request (sl_is_match sample_server_lib) (rq_pick (sample_draw 1)) (pw_servers (sv_proxy sample_state)) (sv_pools sample_state)
      (Router_new [] (Some ''corp'')) sample_login) = Reject"
    using login_packet_name [of "''nemo''"] sample_sendable
    by (simp add: route_request_def sample_login_def attribute_text_def sendable_login_def extract_realm_def handle_default_realm_def Router_new_def)
qed (simp_all add: sample_draw_def sample_state_def RequestCache_new_def from_secs_def)


text \<open>A Start with its Request Authenticator.\<close>

definition sample_start :: Packet where
  "sample_start = (let p = \<lparr>pkt_code = AccountingRequest, pkt_identifier = 3, pkt_authenticator = zero_auth, pkt_attributes =
       [\<lparr>attr_type = AttributeType_as_u8 AttributeType.AcctStatusType, attr_value = [0, 0, 0, 1]\<rparr>,
        \<lparr>attr_type = AttributeType_as_u8 AcctSessionId, attr_value = str_bytes ''a''\<rparr>, \<lparr>attr_type = AttributeType_as_u8 UserName, attr_value = str_bytes ''b''\<rparr>]\<rparr>
     in p\<lparr>pkt_authenticator := sl_md5 sample_server_lib (packet_bytes p @ [0x73])\<rparr>)"

abbreviation sample_accounting :: sample_cfg where
  "sample_accounting \<equiv> with_accounting_handler simple_accounting sample_plain"

lemma sample_utf8: "valid_utf8 (str_bytes ''a'')" "valid_utf8 (str_bytes ''b'')"
  by (rule valid_utf8_ascii, simp add: str_bytes_def of_char_def)+

lemma sample_start_ok: "packet_ok sample_start" "pkt_code sample_start = AccountingRequest" "parse_status_type sample_start = Inr StatusStart"
  "attribute_text sample_start AcctSessionId = Some ''a''" "attribute_text sample_start UserName = Some ''b''"
proof -
  show "packet_ok sample_start"
    by (simp add: sample_start_def packet_ok_def attribute_ok_def Packet_length_eq encoded_length_def attr_consts pkt_consts Let_def)
  show "parse_status_type sample_start = Inr StatusStart"
    by (simp add: parse_status_type_def sample_start_def find_attribute_def ok_or_def AcctStatusType_from_u32_def u32_from_be_bytes_def Let_def)
  show "attribute_text sample_start AcctSessionId = Some ''a''" "attribute_text sample_start UserName = Some ''b''"
    by (simp_all add: attribute_text_def sample_start_def find_attribute_def as_string_def from_utf8_def sample_utf8 res_ok_def Let_def)
qed (simp add: sample_start_def Let_def)

lemma sample_start_accepted: "accepted_request sample_server_lib sample_accounting (packet_bytes sample_start) [0x73] RoleAuth sample_start"
proof -
  have "Packet_decode (packet_bytes sample_start) = Inr sample_start" using Packet_decode_bytes [OF sample_start_ok(1), of "[]"] by simp
  moreover have "validate_packet sample_start mode = Inr ()" for mode
    by (simp add: validate_packet_def sample_start_def validate_accounting_request_def has_attr_def find_attribute_def validate_attribute_def
        validate_string_attribute_def as_string_def from_utf8_def sample_utf8 is_ok_def Let_def)
  moreover have "genuine_request (sl_md5 sample_server_lib) (sl_hmac sample_server_lib) sample_start [0x73]"
    by (simp add: genuine_request_def sample_start_def Let_def)
  ultimately show ?thesis
    by (simp add: accepted_request_def sample_start_ok(2) with_accounting_handler_def plain_server_fields accepts_accounting_on_auth_socket_def)
qed


end
