(* ===== verification/Spec2Isabelle.thy ===== *)
theory Spec2Isabelle
  imports Packet_Codec Vendor_Specific Validation Authenticators Salted_Keys Accounting_Codes
    Known_Answers Eap_Packet Eap_Tls_Fragments Eap_Session Eap_Session_Manager
    Radsec_Frame Proxy_Routing Proxy_Forwarding Proxy_Health Request_Cache Rate_Limiter
    Access_Control Policy_Engine Accounting_Sessions Server_Config Server_Access
begin

text \<open>
  A verification library for the USG RADIUS server: the protocol crate \<open>radius-proto\<close> and the server
  crate \<open>radius-server\<close> under \<open>src/crates\<close>.

  \<^bold>\<open>The program.\<close> A datagram from a network access server (NAS) arrives on the authentication or
  the accounting socket, or as a frame on a TLS stream (RadSec). \<open>server.rs\<close> limits the rate, checks
  the client, decodes and validates the packet, checks its authenticators, looks it up in the
  duplicate cache, and hands it to the handler of its code. An Access-Request is routed by its realm
  to a home server (\<open>proxy/\<close>) or authenticated here, where an authorization policy may still deny
  it; an Accounting-Request updates the session table; a Status-Server is answered directly. A
  proxied request is re-keyed, remembered in the proxy table, retried, and its response re-keyed for
  the NAS; health checks decide which home servers are used. The protocol crate has the codecs and
  ciphers all of this is built on, and the EAP state.

  \<^bold>\<open>Conventions.\<close> \<open>u8\<close> to \<open>u64\<close> are words, so that overflow wraps; \<open>usize\<close> is \<open>nat\<close>; \<open>Vec<u8>\<close> is
  \<open>bytes\<close>; \<open>[u8; 16]\<close> and \<open>[u8; 32]\<close> are the types \<open>arr16\<close> and \<open>arr32\<close>; a \<open>String\<close> is the list of its
  UTF-8 octets; \<open>Result\<close> is a sum with the error on the left; a panic is a value of the type \<open>panic\<close>
  to the left of everything else; hash maps are \<open>fmap\<close> and their iteration order is an argument;
  times are nanoseconds; \<open>f64\<close> is \<open>real\<close> with the rounding function as an argument; an \<open>Arc\<close> shared
  between components is a reference into a store. MD5, HMAC-MD5, SHA-256, random numbers, clocks,
  regular expressions, lower-casing, address parsing and the outcome of I/O are arguments of the
  definitions that use them; no theorem assumes anything of a hash function.

  \<^bold>\<open>Foundations.\<close> \<open>Radius_Prelude\<close>: octets, big-endian integers, UTF-8, results, the collections of
  simplification rules. \<open>Wire_Interfaces\<close>: the locales \<open>wire_enum\<close> (an enum and its wire values),
  \<open>tlv_stream\<close> (self-delimiting elements in a buffer) and \<open>xor_chain\<close> (block ciphers that chain through
  the previous block), interpreted for every enum, for attributes and sub-attributes, and for the
  ciphers of User-Password, MS-MPPE and Tunnel-Password. \<open>Server_Prelude\<close>: addresses, durations, the
  errors of the proxy.

  \<^bold>\<open>Protocol crate.\<close>
  \<^item> \<open>Radius_Codes\<close>, \<open>Accounting_Codes\<close> (\<open>packet/code.rs\<close>, \<open>attributes/types.rs\<close>, \<open>accounting.rs\<close>,
    \<open>dynauth.rs\<close>): the enums; each converts back exactly from its own values.
  \<^item> \<open>Packet_Codec\<close>, \<open>Vendor_Specific\<close>, \<open>Validation\<close>, \<open>Known_Answers\<close> (\<open>packet/packet.rs\<close>, \<open>attributes/\<close>,
    \<open>validation.rs\<close>, \<open>kat.rs\<close>): a datagram decodes to a packet exactly if it starts with the packet's
    encoding; which errors occur; which packets are valid; the published vectors.
  \<^item> \<open>Authenticators\<close>, \<open>Salted_Keys\<close> (\<open>auth.rs\<close>, \<open>message_auth.rs\<close>, \<open>chap.rs\<close>, \<open>mppe.rs\<close>,
    \<open>tunnel_password.rs\<close>): authenticators are digests of the encoding; every hiding is undone exactly;
    an MSK reaches the NAS.
  \<^item> \<open>Eap_Packet\<close>, \<open>Eap_Tls_Fragments\<close>, \<open>Eap_Session\<close>, \<open>Eap_Session_Manager\<close> (\<open>eap.rs\<close>): packets and their
    carriage in RADIUS; fragmentation, which returns from 6 octets up and diverges below, and
    bounded reassembly; the session automaton; the session store, whose map and order of use always
    describe each other.

  \<^bold>\<open>Server crate.\<close>
  \<^item> \<open>Radsec_Frame\<close>, \<open>Radsec_Link\<close> (\<open>radsec_frame.rs\<close>, \<open>proxy/radsec_client.rs\<close>): framing of a stream
    however it is cut, and the shared state of an outbound link.
  \<^item> \<open>Home_Servers\<close>, \<open>Proxy_Routing\<close> (\<open>proxy/home_server.rs\<close>, \<open>pool.rs\<close>, \<open>realm.rs\<close>, \<open>router.rs\<close>):
    statistics, the four selection strategies as interpretations of one locale \<open>selection\<close>, and the
    routing decision.
  \<^item> \<open>Proxy_Cache\<close>, \<open>Proxy_Rewrite\<close>, \<open>Proxy_Replies\<close>, \<open>Proxy_Forwarding\<close> (\<open>proxy/cache.rs\<close>, \<open>handler.rs\<close>,
    \<open>retry.rs\<close>): re-keying in both directions, and forwarding, responses, retries and rejects on one
    state with the interleaving of their tasks as a step relation.
  \<^item> \<open>Proxy_Health\<close> (\<open>proxy/health.rs\<close>): probes, the watchdog and the transitions of a server's state.
  \<^item> \<open>Request_Cache\<close> (\<open>cache.rs\<close>): the duplicate cache under every interleaving of its accesses, refined
    to a specification over the log of what happened.
  \<^item> \<open>Rate_Limiter\<close>, \<open>Accounting_Sessions\<close>, \<open>Access_Control\<close>, \<open>Policy_Engine\<close> (\<open>ratelimit.rs\<close>,
    \<open>accounting.rs\<close>, \<open>access.rs\<close> with the middleware of \<open>mgmt.rs\<close>, \<open>policy.rs\<close> with \<open>policy_enforce.rs\<close>):
    how much is let through, how many sessions a user gets, who may use the management interface,
    and what a validated policy decides.
  \<^item> \<open>Server_Config\<close> (\<open>config.rs\<close> and the configuration in \<open>proxy/\<close>): environment expansion, validation,
    and what a loaded configuration guarantees.
  \<^item> \<open>Server_Messages\<close>, \<open>Server_Handlers\<close>, \<open>Server_Pipeline\<close> (\<open>server.rs\<close>, \<open>audit.rs\<close>): the helpers for
    replies, the handlers behind traits as records of functions, and the request path
    (\<open>handle_request\<close>, \<open>process_request\<close>, \<open>handle_access_request\<close>, \<open>handle_accounting_request\<close>,
    \<open>handle_status_server\<close>) on one state record that holds cache, limiter, handlers, proxy and audit
    log. \<open>Server_Correctness\<close> and \<open>Server_Access\<close> prove that replies of every run are authentic, that
    unauthenticated packets leave no trace, that nothing panics, that retransmissions get the same
    octets, who is accepted, and that the health checker's probe is answered to its satisfaction.

  \<^bold>\<open>Termination.\<close> Loops are structural recursion or have a termination proof. The fragmentation
  loop and the expansion of environment variables may run forever, so they are defined by
  \<open>partial_function\<close>, with theorems on when they return and when they do not. No definition uses
  fuel; bounds in theorems (six octets of fragment size, eight replays, 4096 octets of packet) are
  those of the code.

  \<^bold>\<open>Granularity.\<close> Requests run as concurrent tasks. Accesses to the duplicate cache, the proxy table
  and the session table are modelled as separate steps and interleaved in their own theories; the
  pipeline takes one request as one step.

  \<^bold>\<open>Not modelled.\<close> The EAP methods inside TLS (\<open>eap_auth.rs\<close>, \<open>eap/eap_teap.rs\<close>) are driven by the
  rustls library and certificate revocation (\<open>revocation/\<close>) by X.509, OCSP and HTTP libraries; their
  behaviour is that of code which is not in the repository, so a handler is a parameter of the
  pipeline. TLS streams (\<open>radsec.rs\<close>, the verifiers, link set-up), socket loops, start-up (\<open>main.rs\<close>,
  \<open>RadiusServer::new\<close>, \<open>initialize_proxy\<close>), metrics, the HTTP endpoints of the management interface,
  the LDAP, PostgreSQL and file back ends, and the user interface are input and output around the
  modelled state. Deserialization of configuration files is serde's.
\<close>

section \<open>Properties that span components\<close>


end
